(* ===== verification/Prelude.thy ===== *)
theory Prelude
  imports Main "HOL-Library.Word" "HOL-Library.Monad_Syntax"
begin

text \<open>
  What the component theories share: the C integer types of the LP64 platforms the program is
  built for, the constants of libc the sources use, C strings, and the lemma collections.

  Conventions of the whole development:
  \<^item> an unsigned C integer of width \<open>w\<close> is a \<open>w word\<close>; a signed one whose sign matters
    (an errno, a return code) is an \<open>int\<close>; \<open>off_t\<close>, \<open>time_t\<close> and \<open>long\<close> fields that the code
    only copies are \<open>64 word\<close>, read with \<open>sint\<close> where the sign matters;
  \<^item> a C string is a \<open>char list\<close> without the terminating NUL;
  \<^item> a function of the source that can abort (a failed \<open>assert\<close>) or dereference a pointer to no
    live object returns an \<open>option\<close>: \<open>None\<close> is that fault, and \<open>Some\<close> a normal return.
\<close>

unbundle bit_operations_syntax

type_synonym u8 = "8 word"
type_synonym u16 = "16 word"
type_synonym u32 = "32 word"
type_synonym u64 = "64 word"

section \<open>Lemma collections\<close>

named_theorems attr_simps \<open>field-wise effect of the attribute conversions\<close>
named_theorems cache_simps \<open>effect of the inode cache operations on its tables\<close>
named_theorems cache_intros \<open>preservation of the inode cache invariant\<close>
named_theorems rpc_simps \<open>outcomes of the remote calls\<close>

section \<open>Constants of libc\<close>

abbreviation EPERM :: int where "EPERM \<equiv> 1"
abbreviation ENOENT :: int where "ENOENT \<equiv> 2"
abbreviation EIO :: int where "EIO \<equiv> 5"
abbreviation ENXIO :: int where "ENXIO \<equiv> 6"
abbreviation EAGAIN :: int where "EAGAIN \<equiv> 11"
abbreviation ENOMEM :: int where "ENOMEM \<equiv> 12"
abbreviation EACCES :: int where "EACCES \<equiv> 13"
abbreviation EEXIST :: int where "EEXIST \<equiv> 17"
abbreviation EXDEV :: int where "EXDEV \<equiv> 18"
abbreviation ENODEV :: int where "ENODEV \<equiv> 19"
abbreviation ENOTDIR :: int where "ENOTDIR \<equiv> 20"
abbreviation EISDIR :: int where "EISDIR \<equiv> 21"
abbreviation EINVAL :: int where "EINVAL \<equiv> 22"
abbreviation EFBIG :: int where "EFBIG \<equiv> 27"
abbreviation ENOSPC :: int where "ENOSPC \<equiv> 28"
abbreviation EROFS :: int where "EROFS \<equiv> 30"
abbreviation EMLINK :: int where "EMLINK \<equiv> 31"
abbreviation ERANGE :: int where "ERANGE \<equiv> 34"
abbreviation ENAMETOOLONG :: int where "ENAMETOOLONG \<equiv> 36"
abbreviation ENOTEMPTY :: int where "ENOTEMPTY \<equiv> 39"
abbreviation EREMOTE :: int where "EREMOTE \<equiv> 66"
abbreviation ENOTSUP :: int where "ENOTSUP \<equiv> 95"
abbreviation ECONNRESET :: int where "ECONNRESET \<equiv> 104"
abbreviation ENOTCONN :: int where "ENOTCONN \<equiv> 107"
abbreviation ETIMEDOUT :: int where "ETIMEDOUT \<equiv> 110"
abbreviation ESTALE :: int where "ESTALE \<equiv> 116"
abbreviation EDQUOT :: int where "EDQUOT \<equiv> 122"

abbreviation S_IFMT :: u32 where "S_IFMT \<equiv> 0xF000"
abbreviation S_IFSOCK :: u32 where "S_IFSOCK \<equiv> 0xC000"
abbreviation S_IFLNK :: u32 where "S_IFLNK \<equiv> 0xA000"
abbreviation S_IFREG :: u32 where "S_IFREG \<equiv> 0x8000"
abbreviation S_IFBLK :: u32 where "S_IFBLK \<equiv> 0x6000"
abbreviation S_IFDIR :: u32 where "S_IFDIR \<equiv> 0x4000"
abbreviation S_IFCHR :: u32 where "S_IFCHR \<equiv> 0x2000"
abbreviation S_IFIFO :: u32 where "S_IFIFO \<equiv> 0x1000"

definition S_ISREG :: "u32 \<Rightarrow> bool" where
  "S_ISREG m \<longleftrightarrow> m AND S_IFMT = S_IFREG"

definition S_ISDIR :: "u32 \<Rightarrow> bool" where
  "S_ISDIR m \<longleftrightarrow> m AND S_IFMT = S_IFDIR"

abbreviation NAME_MAX :: nat where "NAME_MAX \<equiv> 255"

abbreviation LLONG_MAX :: u64 where "LLONG_MAX \<equiv> 0x7FFFFFFFFFFFFFFF"

section \<open>Words\<close>

lemma word_and_not_disjoint [simp]: "(x AND NOT m) AND m = (0 :: 'a :: len word)"
  by (rule bit_word_eqI) (auto simp: bit_simps)

lemma unat_drop_bit_less:
  fixes w :: "'a :: len word"
  assumes "n \<le> LENGTH('a)"
  shows "unat (drop_bit (LENGTH('a) - n) w) < 2 ^ n"
proof -
  have "unat w < 2 ^ LENGTH('a)"
    by (rule unsigned_less)
  also have "(2 :: nat) ^ LENGTH('a) = 2 ^ n * 2 ^ (LENGTH('a) - n)"
    using assms by (simp flip: power_add)
  finally have "unat w div 2 ^ (LENGTH('a) - n) < 2 ^ n"
    by (rule less_mult_imp_div_less)
  then show ?thesis
    by (simp add: unat_drop_bit_eq flip: drop_bit_eq_div)
qed

section \<open>C integer conversions\<close>

text \<open>The value a signed \<open>int\<close> gets from a \<open>long\<close>: the low 32 bits, read as two's complement.\<close>

definition int_of_long :: "u64 \<Rightarrow> int" where
  "int_of_long w = sint (ucast w :: 32 word)"

section \<open>Lists\<close>

lemma find_None_all: "List.find P xs = None \<longleftrightarrow> (\<forall>x \<in> set xs. \<not> P x)"
  by (induction xs) auto

lemma find_Some_in: "List.find P xs = Some x \<Longrightarrow> x \<in> set xs \<and> P x"
  by (auto simp: find_Some_iff)

lemma sint_eq_uint_if_small: "uint w < 2 ^ 63 \<Longrightarrow> sint (w :: u64) = uint w"
  by (simp add: sint_uint signed_take_bit_int_eq_self_iff order_trans [OF _ uint_ge_0])

lemma unat_u64_less: "unat (w :: u64) < 2 ^ 64"
  using unsigned_less [of w, where 'a = nat] by simp

lemma unat_pow2: "n < 64 \<Longrightarrow> unat ((2 :: u64) ^ n) = 2 ^ n"
  using unsigned_push_bit_eq [of n "1 :: u64", where 'a = nat] power_strict_increasing [of n 64 "2 :: nat"]
  by (simp add: push_bit_eq_mult take_bit_nat_eq_self)

lemma bit_nat_between: "2 ^ n \<le> (m :: nat) \<Longrightarrow> m < 2 ^ (n + 1) \<Longrightarrow> bit m n"
proof -
  assume "2 ^ n \<le> m" "m < 2 ^ (n + 1)"
  then have "m div 2 ^ n = 1" by (intro div_nat_eqI) auto
  then show ?thesis by (simp add: bit_iff_odd)
qed

section \<open>Reasoning about runs\<close>

text \<open>\<open>pres P m\<close>: if the computation \<open>m\<close> does not fault, its result satisfies \<open>P\<close>.  The rules walk through
  the body of an operation and keep what each step returned as a hypothesis.\<close>

definition pres :: "('a \<Rightarrow> bool) \<Rightarrow> 'a option \<Rightarrow> bool" where
  "pres P m \<longleftrightarrow> (\<forall>x. m = Some x \<longrightarrow> P x)"

named_theorems pres_intros

lemma presD: "pres P m \<Longrightarrow> m = Some x \<Longrightarrow> P x"
  by (simp add: pres_def)

lemma pres_Some [pres_intros]: "P x \<Longrightarrow> pres P (Some x)"
  by (simp add: pres_def)

lemma pres_None [pres_intros]: "pres P None"
  by (simp add: pres_def)

lemma pres_bind [pres_intros]: "(\<And>x. m = Some x \<Longrightarrow> pres P (f x)) \<Longrightarrow> pres P (Option.bind m f)"
  by (cases m) (simp_all add: pres_def)

lemma pres_if [pres_intros]: "(c \<Longrightarrow> pres P m) \<Longrightarrow> (\<not> c \<Longrightarrow> pres P n) \<Longrightarrow> pres P (if c then m else n)"
  by simp

lemma pres_prod [pres_intros]: "(\<And>a b. p = (a, b) \<Longrightarrow> pres P (f a b)) \<Longrightarrow> pres P (case p of (a, b) \<Rightarrow> f a b)"
  by (cases p) simp

lemma pres_prod_app [pres_intros]:
  "(\<And>a b. p = (a, b) \<Longrightarrow> pres P (f a b s)) \<Longrightarrow> pres P ((case p of (a, b) \<Rightarrow> f a b) s)"
  by (cases p) simp

lemma pres_sum [pres_intros]:
  "(\<And>a. r = Inl a \<Longrightarrow> pres P (f a)) \<Longrightarrow> (\<And>b. r = Inr b \<Longrightarrow> pres P (g b)) \<Longrightarrow>
   pres P (case r of Inl a \<Rightarrow> f a | Inr b \<Rightarrow> g b)"
  by (cases r) simp_all

lemma pres_option [pres_intros]:
  "(r = None \<Longrightarrow> pres P m) \<Longrightarrow> (\<And>a. r = Some a \<Longrightarrow> pres P (f a)) \<Longrightarrow>
   pres P (case r of None \<Rightarrow> m | Some a \<Rightarrow> f a)"
  by (cases r) simp_all

lemma pres_Let [pres_intros]: "(\<And>x. x = t \<Longrightarrow> pres P (f x)) \<Longrightarrow> pres P (Let t f)"
  by simp

end
