(* ===== verification/Nfs4_Attr.thy ===== *)
theory Nfs4_Attr
  imports Prelude
begin

text \<open>
  The attributes of NFSv4 as lib/nfs_v4.c reads them out of the reply: byte order, owners, the standard
  attributes (\<open>nfs_parse_attributes\<close>) and those of a file system (\<open>nfs_parse_statvfs\<close>).  The reply is the
  memory it occupies, a list of bytes; \<open>buf\<close> is a position in it and a read outside of it is the fault
  \<open>None\<close>.  The host is little-endian.
\<close>

section \<open>Byte order\<close>

text \<open>A word as it lies in memory, and back.\<close>

definition le :: "nat \<Rightarrow> 'a::len word \<Rightarrow> u8 list" where
  "le n w = map (\<lambda>i. ucast (drop_bit (8 * i) w)) [0..<n]"

primrec of_le :: "u8 list \<Rightarrow> 'a::len word" where
  "of_le [] = 0"
| "of_le (b # bs) = push_bit 8 (of_le bs) OR ucast b"

text \<open>\<open>htonl\<close> into memory and \<open>ntohl\<close> of four bytes in memory.\<close>

definition enc32 :: "u32 \<Rightarrow> u8 list" where
  "enc32 w = rev (le 4 w)"

definition be32 :: "u8 list \<Rightarrow> u32" where
  "be32 bs = of_le (rev bs)"

text \<open>The bytes of \<open>res\<close> are written through \<open>ptr\<close>, from the last to the first.\<close>

definition swap_bytes :: "u64 \<Rightarrow> u8 list" where
  "swap_bytes val =
     fst (fold (\<lambda>i (ptr, val). (ptr[7 - i := ucast (val AND 0xff)], drop_bit 8 val)) [0..<8] (replicate 8 0, val))"

definition nfs_hton64 :: "u64 \<Rightarrow> u64" where
  "nfs_hton64 val = of_le (swap_bytes val)"

definition nfs_ntoh64 :: "u64 \<Rightarrow> u64" where
  "nfs_ntoh64 val = of_le (swap_bytes val)"

definition nfs_pntoh64 :: "u8 list \<Rightarrow> u64" where
  "nfs_pntoh64 buf = push_bit 32 (ucast (be32 (take 4 buf))) OR ucast (be32 (take 4 (drop 4 buf)))"

lemma length_le [simp]: "length (le n w) = n" "length (enc32 v) = 4"
  by (simp_all add: le_def enc32_def)

lemma bit_of_le:
  "bit (of_le bs :: 'a::len word) n \<longleftrightarrow> n < LENGTH('a) \<and> n div 8 < length bs \<and> bit (bs ! (n div 8)) (n mod 8)"
proof (induction bs arbitrary: n)
  case (Cons b bs)
  show ?case
  proof (cases "n < 8")
    case True
    then show ?thesis by (simp add: bit_or_iff bit_push_bit_iff bit_unsigned_iff)
  next
    case False
    then obtain m where m: "n = m + 8" by (metis add.commute le_Suc_ex not_less)
    have "\<not> bit b n" using False by (simp add: bit_word.rep_eq)
    moreover have "(m + 8) div 8 = Suc (m div 8)" by simp
    ultimately show ?thesis using m Cons.IH [of m]
      by (auto simp: bit_or_iff bit_push_bit_iff bit_unsigned_iff)
  qed
qed simp

lemma of_le_le: "LENGTH('a) \<le> 8 * k \<Longrightarrow> of_le (le k w) = (w :: 'a::len word)"
  by (rule bit_word_eqI) (auto simp: bit_of_le le_def bit_simps less_mult_imp_div_less mult.commute)

lemma be32_enc32 [simp]: "be32 (enc32 w) = w"
  by (simp add: be32_def enc32_def of_le_le)

lemma upt_8: "[0..<8] = [0, 1, 2, 3, 4, 5, 6, 7 :: nat]"
  by code_simp

lemma list_update_numeral: "(x # xs)[numeral k := v] = x # xs[pred_numeral k := v]"
  by (simp add: numeral_eq_Suc)

lemma replicate_8: "replicate 8 (0 :: u8) = [0, 0, 0, 0, 0, 0, 0, 0]"
  by code_simp

lemma ucast_and_ff: "ucast (w AND 0xff) = (ucast w :: u8)"
  for w :: u64
proof -
  have "w AND 0xff = take_bit 8 w" by (simp add: take_bit_eq_mask mask_eq_exp_minus_1)
  then show ?thesis by (auto intro!: bit_word_eqI simp: bit_simps)
qed

lemma swap_bytes_rev: "swap_bytes val = rev (le 8 val)"
  by (simp add: swap_bytes_def le_def upt_8 replicate_8 list_update_numeral ucast_and_ff)

lemma le_of_le:
  assumes "length bs = 8"
  shows "le 8 (of_le bs :: u64) = bs"
proof (rule nth_equalityI)
  fix i assume "i < length (le 8 (of_le bs :: u64))"
  then have i: "i < 8" by simp
  show "le 8 (of_le bs :: u64) ! i = bs ! i"
  proof (rule bit_word_eqI)
    fix n assume n: "n < LENGTH(8)"
    then have "(8 * i + n) div 8 = i" "(8 * i + n) mod 8 = n" by simp_all
    then show "bit (le 8 (of_le bs :: u64) ! i) n = bit (bs ! i) n"
      using i n assms by (simp add: le_def bit_unsigned_iff bit_drop_bit_eq bit_of_le)
  qed
qed (simp add: assms)

text \<open>The two conversions are inverse, and what lies in memory after \<open>nfs_hton64\<close> is the number with its
  most significant byte first.\<close>

lemma nfs_ntoh64_hton64: "nfs_ntoh64 (nfs_hton64 v) = v" "le 8 (nfs_hton64 v) = rev (le 8 v)"
  by (simp_all add: nfs_ntoh64_def nfs_hton64_def swap_bytes_rev le_of_le of_le_le)

section \<open>Reading the reply\<close>

definition rdbytes :: "u8 list \<Rightarrow> int \<Rightarrow> nat \<Rightarrow> u8 list option" where
  "rdbytes mem pos n =
     (if 0 \<le> pos \<and> pos + int n \<le> int (length mem) then Some (take n (drop (nat pos) mem)) else None)"

definition rd32 :: "u8 list \<Rightarrow> int \<Rightarrow> u32 option" where
  "rd32 mem pos = map_option be32 (rdbytes mem pos 4)"

definition rd64 :: "u8 list \<Rightarrow> int \<Rightarrow> u64 option" where
  "rd64 mem pos = map_option nfs_pntoh64 (rdbytes mem pos 8)"

text \<open>The owner as a decimal number; the name service is not compiled in, so anything else is 65534.  The
  number is an \<open>int\<close> and wraps.\<close>

function nfs_get_ugid :: "u8 list \<Rightarrow> int \<Rightarrow> int \<Rightarrow> u32 \<Rightarrow> u32 option" where
  "nfs_get_ugid mem buf slen ugid =
     (if slen = 0 then Some ugid
      else if 0 \<le> buf \<and> buf < int (length mem) then
        (let b = mem ! nat buf in
         if 48 \<le> b \<and> b \<le> 57 then nfs_get_ugid mem (buf + 1) (slen - 1) (ugid * 10 + (ucast b - 48))
         else Some 65534)
      else None)"
  by pat_completeness auto
termination
  by (relation "measure (\<lambda>(mem, buf, _). nat (int (length mem) - buf))") auto

declare nfs_get_ugid.simps [simp del]

record nfs_stat_64 =
  nfs_dev :: u64
  nfs_ino :: u64
  nfs_mode :: u64
  nfs_nlink :: u64
  nfs_uid :: u64
  nfs_gid :: u64
  nfs_rdev :: u64
  nfs_size :: u64
  nfs_blksize :: u64
  nfs_blocks :: u64
  nfs_used :: u64
  nfs_atime :: u64
  nfs_mtime :: u64
  nfs_ctime :: u64
  nfs_atime_nsec :: u64
  nfs_mtime_nsec :: u64
  nfs_ctime_nsec :: u64

definition zero_stat :: nfs_stat_64 where
  "zero_stat = \<lparr>nfs_dev = 0, nfs_ino = 0, nfs_mode = 0, nfs_nlink = 0, nfs_uid = 0, nfs_gid = 0, nfs_rdev = 0,
     nfs_size = 0, nfs_blksize = 0, nfs_blocks = 0, nfs_used = 0, nfs_atime = 0, nfs_mtime = 0, nfs_ctime = 0,
     nfs_atime_nsec = 0, nfs_mtime_nsec = 0, nfs_ctime_nsec = 0\<rparr>"

text \<open>The result of a parser: \<open>None\<close> a read outside of the reply, \<open>Some None\<close> the return value \<open>-1\<close>.\<close>

type_synonym 'a parsed = "'a option option"

definition CHECK_GETATTR_BUF_SPACE :: "int \<Rightarrow> int \<Rightarrow> 'a parsed \<Rightarrow> 'a parsed" where
  "CHECK_GETATTR_BUF_SPACE len n k = (if len < n then Some None else k)"

definition nf4_mode :: "u32 \<Rightarrow> u32" where
  "nf4_mode type =
     (if type = 1 then S_IFREG else if type = 2 then S_IFDIR else if type = 3 then S_IFBLK
      else if type = 4 then S_IFCHR else if type = 5 then S_IFLNK else if type = 6 then S_IFSOCK
      else if type = 7 then S_IFIFO else 0)"

text \<open>One owner: what is left of \<open>len\<close> goes down by the padding and not by the length of the string.\<close>

definition parse_owner :: "u8 list \<Rightarrow> int \<Rightarrow> int \<Rightarrow> (u32 \<Rightarrow> int \<Rightarrow> int \<Rightarrow> 'a parsed) \<Rightarrow> 'a parsed" where
  "parse_owner mem buf len k =
     CHECK_GETATTR_BUF_SPACE len 4 (do {
       slen \<leftarrow> rd32 mem buf;
       let slen = sint slen;
       let buf = buf + 4;
       let len = len - 4;
       let pad = (4 - (slen AND 3)) AND 3;
       CHECK_GETATTR_BUF_SPACE len slen (do {
         ugid \<leftarrow> nfs_get_ugid mem buf slen 0;
         let buf = buf + slen;
         CHECK_GETATTR_BUF_SPACE len pad (k ugid (buf + pad) (len - pad)) }) })"

text \<open>A time: seconds and nanoseconds.\<close>

definition parse_time :: "u8 list \<Rightarrow> int \<Rightarrow> int \<Rightarrow> (u64 \<Rightarrow> u32 \<Rightarrow> int \<Rightarrow> int \<Rightarrow> 'a parsed) \<Rightarrow> 'a parsed" where
  "parse_time mem buf len k =
     CHECK_GETATTR_BUF_SPACE len 12 (do {
       s \<leftarrow> rd64 mem buf;
       n \<leftarrow> rd32 mem (buf + 8);
       k s n (buf + 12) (len - 12) })"

definition nfs_parse_attributes :: "u64 \<Rightarrow> u8 list \<Rightarrow> int \<Rightarrow> nfs_stat_64 parsed" where
  "nfs_parse_attributes blksize mem len =
     CHECK_GETATTR_BUF_SPACE len 4 (do {
       type \<leftarrow> rd32 mem 0;
       CHECK_GETATTR_BUF_SPACE (len - 4) 8 (do {
         sz \<leftarrow> rd64 mem 4;
         CHECK_GETATTR_BUF_SPACE (len - 12) 8 (do {
           ino \<leftarrow> rd64 mem 12;
           CHECK_GETATTR_BUF_SPACE (len - 20) 4 (do {
             mode \<leftarrow> rd32 mem 20;
             CHECK_GETATTR_BUF_SPACE (len - 24) 4 (do {
               nlink \<leftarrow> rd32 mem 24;
               parse_owner mem 28 (len - 28) (\<lambda>uid buf len.
               parse_owner mem buf len (\<lambda>gid buf len.
               CHECK_GETATTR_BUF_SPACE len 8 (do {
                 used \<leftarrow> rd64 mem buf;
                 parse_time mem (buf + 8) (len - 8) (\<lambda>atime atime_nsec buf len.
                 parse_time mem buf len (\<lambda>ctime ctime_nsec buf len.
                 parse_time mem buf len (\<lambda>mtime mtime_nsec buf len.
                   Some (Some (zero_stat\<lparr>
                     nfs_size := sz, nfs_ino := ino, nfs_mode := ucast (mode OR nf4_mode type),
                     nfs_nlink := ucast nlink, nfs_uid := scast uid, nfs_gid := scast gid, nfs_used := used,
                     nfs_atime := atime, nfs_atime_nsec := ucast atime_nsec,
                     nfs_ctime := ctime, nfs_ctime_nsec := ucast ctime_nsec,
                     nfs_mtime := mtime, nfs_mtime_nsec := ucast mtime_nsec,
                     nfs_blksize := blksize, nfs_blocks := (used + blksize - 1) div blksize\<rparr>))))) }))) }) }) }) }) })"

section \<open>The encoding of the attributes, and reading it back\<close>

definition enc64 :: "u64 \<Rightarrow> u8 list" where
  "enc64 w = enc32 (ucast (drop_bit 32 w)) @ enc32 (ucast w)"

definition xdr_pad :: "nat \<Rightarrow> nat" where
  "xdr_pad n = (4 - n mod 4) mod 4"

definition enc_opaque :: "u8 list \<Rightarrow> u8 list" where
  "enc_opaque s = enc32 (of_nat (length s)) @ s @ replicate (xdr_pad (length s)) 0"

record fattr4_std =
  fa4_type :: u32
  fa4_size :: u64
  fa4_fileid :: u64
  fa4_mode :: u32
  fa4_numlinks :: u32
  fa4_owner :: "u8 list"
  fa4_group :: "u8 list"
  fa4_space_used :: u64
  fa4_atime :: "u64 \<times> u32"
  fa4_ctime :: "u64 \<times> u32"
  fa4_mtime :: "u64 \<times> u32"

definition enc_time :: "u64 \<times> u32 \<Rightarrow> u8 list" where
  "enc_time t = enc64 (fst t) @ enc32 (snd t)"

text \<open>All but the last attribute, and the whole.\<close>

definition enc_head :: "fattr4_std \<Rightarrow> u8 list" where
  "enc_head a = enc32 (fa4_type a) @ enc64 (fa4_size a) @ enc64 (fa4_fileid a) @ enc32 (fa4_mode a) @
     enc32 (fa4_numlinks a) @ enc_opaque (fa4_owner a) @ enc_opaque (fa4_group a) @
     enc64 (fa4_space_used a) @ enc_time (fa4_atime a) @ enc_time (fa4_ctime a)"

definition enc_attrs :: "fattr4_std \<Rightarrow> u8 list" where
  "enc_attrs a = enc_head a @ enc_time (fa4_mtime a)"

definition digit :: "u8 \<Rightarrow> bool" where
  "digit b \<longleftrightarrow> 48 \<le> b \<and> b \<le> 57"

definition ugid_of :: "u8 list \<Rightarrow> u32" where
  "ugid_of s = (if list_all digit s then foldl (\<lambda>a b. a * 10 + (ucast b - 48)) 0 s else 65534)"

definition stat_of :: "u64 \<Rightarrow> fattr4_std \<Rightarrow> nfs_stat_64" where
  "stat_of blksize a = zero_stat\<lparr>
     nfs_size := fa4_size a, nfs_ino := fa4_fileid a,
     nfs_mode := ucast (fa4_mode a OR nf4_mode (fa4_type a)), nfs_nlink := ucast (fa4_numlinks a),
     nfs_uid := scast (ugid_of (fa4_owner a)), nfs_gid := scast (ugid_of (fa4_group a)),
     nfs_used := fa4_space_used a,
     nfs_atime := fst (fa4_atime a), nfs_atime_nsec := ucast (snd (fa4_atime a)),
     nfs_ctime := fst (fa4_ctime a), nfs_ctime_nsec := ucast (snd (fa4_ctime a)),
     nfs_mtime := fst (fa4_mtime a), nfs_mtime_nsec := ucast (snd (fa4_mtime a)),
     nfs_blksize := blksize, nfs_blocks := (fa4_space_used a + blksize - 1) div blksize\<rparr>"

text \<open>A file of user 1000.\<close>

definition sample_attrs :: fattr4_std where
  "sample_attrs = \<lparr>fa4_type = 1, fa4_size = 5000, fa4_fileid = 7, fa4_mode = 0x1A4, fa4_numlinks = 1,
     fa4_owner = [49, 48, 48, 48], fa4_group = [49, 48, 48], fa4_space_used = 8192,
     fa4_atime = (1, 2), fa4_ctime = (3, 4), fa4_mtime = (5, 6)\<rparr>"

lemma length_enc64 [simp]: "length (enc64 w) = 8" "length (enc_time t) = 12"
  by (simp_all add: enc64_def enc_time_def)

lemma nfs_pntoh64_enc64 [simp]: "nfs_pntoh64 (enc64 w @ r) = w"
proof -
  have "nfs_pntoh64 (enc64 w @ r) = push_bit 32 (ucast (ucast (drop_bit 32 w) :: u32)) OR ucast (ucast w :: u32)"
    by (simp add: nfs_pntoh64_def enc64_def)
  also have "\<dots> = w" by (rule bit_word_eqI) (auto simp: bit_simps)
  finally show ?thesis .
qed

text \<open>What lies at a position of the reply.\<close>

definition lies :: "u8 list \<Rightarrow> int \<Rightarrow> u8 list \<Rightarrow> bool" where
  "lies mem pos xs \<longleftrightarrow> 0 \<le> pos \<and> nat pos \<le> length mem \<and> drop (nat pos) mem = xs"

lemma lies_skip: "lies mem pos (xs @ ys) \<Longrightarrow> n = int (length xs) \<Longrightarrow> lies mem (pos + n) ys"
proof -
  assume l: "lies mem pos (xs @ ys)" and n: "n = int (length xs)"
  have "nat (pos + n) = length xs + nat pos" using l n by (auto simp: lies_def nat_add_distrib)
  moreover have "drop (length xs + nat pos) mem = ys" using l by (simp add: lies_def flip: drop_drop)
  moreover have "length xs + nat pos \<le> length mem"
    using l length_drop [of "nat pos" mem] by (simp add: lies_def) linarith
  ultimately show ?thesis using l n by (auto simp: lies_def)
qed

lemma lies_rdbytes: "lies mem pos (xs @ ys) \<Longrightarrow> rdbytes mem pos (length xs) = Some xs"
  using length_drop [of "nat pos" mem] by (auto simp: lies_def rdbytes_def)

lemma lies_rd32: "lies mem pos (enc32 w @ r) \<Longrightarrow> rd32 mem pos = Some w"
  using lies_rdbytes [of mem pos "enc32 w" r] by (simp add: rd32_def)

lemma lies_rd64: "lies mem pos (enc64 w @ r) \<Longrightarrow> rd64 mem pos = Some w"
  using lies_rdbytes [of mem pos "enc64 w" r] nfs_pntoh64_enc64 [of w "[]"] by (simp add: rd64_def)

lemma lies_get_ugid:
  "lies mem pos (s @ r) \<Longrightarrow>
   nfs_get_ugid mem pos (int (length s)) acc =
     Some (if list_all digit s then foldl (\<lambda>a b. a * 10 + (ucast b - 48)) acc s else 65534)"
proof (induction s arbitrary: pos acc)
  case (Cons b s)
  have b: "0 \<le> pos" "pos < int (length mem)" "mem ! nat pos = b"
    using Cons.prems length_drop [of "nat pos" mem] by (auto simp: lies_def nth_via_drop)
  have "lies mem (pos + 1) (s @ r)" using lies_skip [of mem pos "[b]" "s @ r"] Cons.prems by simp
  then show ?case using Cons.IH b by (subst nfs_get_ugid.simps) (simp add: Let_def flip: digit_def)
qed (simp add: nfs_get_ugid.simps)

lemma and_3: "x AND 3 = x mod 4" for x :: int
proof -
  have "x AND 3 = take_bit 2 x" by (simp add: take_bit_eq_mask mask_eq_exp_minus_1)
  then show ?thesis by (simp add: take_bit_eq_mod)
qed

lemma xdr_pad_int: "(4 - (int n AND 3)) AND 3 = int (xdr_pad n)"
  unfolding and_3 xdr_pad_def by (simp add: of_nat_mod of_nat_diff)

lemma xdr_pad_less: "xdr_pad n < 4"
  by (simp add: xdr_pad_def)

lemma length_enc_opaque: "length (enc_opaque s) = 4 + length s + xdr_pad (length s)"
  by (simp add: enc_opaque_def)

lemma sint_of_length: "n < 2 ^ 31 \<Longrightarrow> sint (of_nat n :: u32) = int n"
  by (simp add: signed_of_nat signed_take_bit_int_eq_self)

lemma parse_owner_lies:
  assumes l: "lies mem buf (enc_opaque s @ r)" and s: "length s < 2 ^ 31"
    and len: "int (length (enc_opaque s)) \<le> len"
  shows "parse_owner mem buf len k =
      k (ugid_of s) (buf + int (length (enc_opaque s))) (len - int (length (enc_opaque s)) + int (length s))"
proof -
  have l1: "lies mem buf (enc32 (of_nat (length s)) @ s @ replicate (xdr_pad (length s)) 0 @ r)"
    using l by (simp add: enc_opaque_def)
  have l2: "lies mem (buf + 4) (s @ replicate (xdr_pad (length s)) 0 @ r)"
    using lies_skip [OF l1] by simp
  have le: "\<not> len < 4" "\<not> len - 4 < int (length s)" "\<not> len - 4 < int (xdr_pad (length s))"
    using len by (simp_all add: length_enc_opaque)
  show ?thesis
    using le by (simp add: parse_owner_def lies_rd32 [OF l1] CHECK_GETATTR_BUF_SPACE_def Let_def
        sint_of_length [OF s] lies_get_ugid [OF l2] xdr_pad_int ugid_of_def length_enc_opaque algebra_simps)
qed

lemma parse_time_lies:
  assumes "lies mem buf (enc_time t @ r)" "12 \<le> len"
  shows "parse_time mem buf len k = k (fst t) (snd t) (buf + 12) (len - 12)"
proof -
  have l: "lies mem buf (enc64 (fst t) @ enc32 (snd t) @ r)" using assms(1) by (simp add: enc_time_def)
  have "lies mem (buf + 8) (enc32 (snd t) @ r)" using lies_skip [OF l] by simp
  then show ?thesis
    using assms(2) lies_rd64 [OF l] by (simp add: parse_time_def CHECK_GETATTR_BUF_SPACE_def lies_rd32)
qed

text \<open>The parser up to the last attribute.  What it believes to be left is too large by the lengths of the
  two owner strings.\<close>

lemma nfs_parse_attributes_head:
  assumes mem: "mem = enc_head a @ t" and len: "int (length (enc_head a)) \<le> len"
    and s: "length (fa4_owner a) < 2 ^ 31" "length (fa4_group a) < 2 ^ 31"
  shows "nfs_parse_attributes blksize mem len =
     parse_time mem (int (length (enc_head a)))
       (len - int (length (enc_head a)) + int (length (fa4_owner a)) + int (length (fa4_group a)))
       (\<lambda>mtime mtime_nsec buf len. Some (Some ((stat_of blksize a)\<lparr>nfs_mtime := mtime, nfs_mtime_nsec := ucast mtime_nsec\<rparr>)))"
proof -
  let ?o = "enc_opaque (fa4_owner a)" and ?g = "enc_opaque (fa4_group a)"
  let ?r = "enc64 (fa4_space_used a) @ enc_time (fa4_atime a) @ enc_time (fa4_ctime a) @ t"
  have l0: "lies mem 0 (enc32 (fa4_type a) @ enc64 (fa4_size a) @ enc64 (fa4_fileid a) @ enc32 (fa4_mode a) @
      enc32 (fa4_numlinks a) @ ?o @ ?g @ ?r)"
    by (simp add: lies_def mem enc_head_def)
  have l1: "lies mem 4 (enc64 (fa4_size a) @ enc64 (fa4_fileid a) @ enc32 (fa4_mode a) @ enc32 (fa4_numlinks a) @ ?o @ ?g @ ?r)"
    using lies_skip [OF l0, of 4] by simp
  have l2: "lies mem 12 (enc64 (fa4_fileid a) @ enc32 (fa4_mode a) @ enc32 (fa4_numlinks a) @ ?o @ ?g @ ?r)"
    using lies_skip [OF l1, of 8] by simp
  have l3: "lies mem 20 (enc32 (fa4_mode a) @ enc32 (fa4_numlinks a) @ ?o @ ?g @ ?r)"
    using lies_skip [OF l2, of 8] by simp
  have l4: "lies mem 24 (enc32 (fa4_numlinks a) @ ?o @ ?g @ ?r)" using lies_skip [OF l3, of 4] by simp
  have l5: "lies mem 28 (?o @ ?g @ ?r)" using lies_skip [OF l4, of 4] by simp
  have l6: "lies mem (28 + int (length ?o)) (?g @ ?r)" using lies_skip [OF l5] by simp
  have l7: "lies mem (28 + int (length ?o) + int (length ?g)) ?r" using lies_skip [OF l6] by simp
  have l8: "lies mem (28 + int (length ?o) + int (length ?g) + 8) (enc_time (fa4_atime a) @ enc_time (fa4_ctime a) @ t)"
    using lies_skip [OF l7, of 8] by simp
  have l9: "lies mem (28 + int (length ?o) + int (length ?g) + 8 + 12) (enc_time (fa4_ctime a) @ t)"
    using lies_skip [OF l8, of 12] by simp
  have n: "int (length (enc_head a)) = 28 + int (length ?o) + int (length ?g) + 8 + 12 + 12"
    by (simp add: enc_head_def)
  then show ?thesis
    using len by (simp add: nfs_parse_attributes_def CHECK_GETATTR_BUF_SPACE_def lies_rd32 [OF l0] lies_rd64 [OF l1]
      lies_rd64 [OF l2] lies_rd32 [OF l3] lies_rd32 [OF l4] parse_owner_lies [OF l5 s(1)] parse_owner_lies [OF l6 s(2)]
      lies_rd64 [OF l7] parse_time_lies [OF l8 [simplified]] parse_time_lies [OF l9 [simplified]] stat_of_def)
      (simp add: zero_stat_def algebra_simps)
qed

text \<open>C9. Reading the standard attributes back gives what the server encoded: the sizes and times unchanged,
  the type folded into the mode, an owner given in digits as its number (sign-extended to 64 bits) and
  any other owner as 65534.
\<close>

theorem nfs_parse_attributes_roundtrip:
  "length (fa4_owner a) < 2 ^ 31 \<Longrightarrow> length (fa4_group a) < 2 ^ 31 \<Longrightarrow>
   nfs_parse_attributes blksize (enc_attrs a) (int (length (enc_attrs a))) = Some (Some (stat_of blksize a))"
proof -
  assume s: "length (fa4_owner a) < 2 ^ 31" "length (fa4_group a) < 2 ^ 31"
  have "lies (enc_attrs a) (int (length (enc_head a))) (enc_time (fa4_mtime a) @ [])"
    by (simp add: lies_def enc_attrs_def)
  note t = parse_time_lies [OF this]
  show ?thesis
    using nfs_parse_attributes_head [of "enc_attrs a" a "enc_time (fa4_mtime a)"] s
    by (simp add: enc_attrs_def t [unfolded enc_attrs_def] stat_of_def)
qed


theorem nfs_parse_attributes_roundtrip_witness:
  "nfs_parse_attributes 4096 (enc_attrs sample_attrs) (int (length (enc_attrs sample_attrs))) =
     Some (Some (stat_of 4096 sample_attrs)) \<and>
   nfs_uid (stat_of 4096 sample_attrs) = 1000 \<and> nfs_mode (stat_of 4096 sample_attrs) = 0x81A4"
proof -
  have "length (fa4_owner sample_attrs) < 2 ^ 31" "length (fa4_group sample_attrs) < 2 ^ 31" by (simp_all add: sample_attrs_def)
  moreover have "nfs_uid (stat_of 4096 sample_attrs) = 1000" "nfs_mode (stat_of 4096 sample_attrs) = 0x81A4" by code_simp+
  ultimately show ?thesis using nfs_parse_attributes_roundtrip [of sample_attrs 4096] by simp
qed


section \<open>The attributes of a file system\<close>

record nfs_statvfs_64 =
  f64_bsize :: u64
  f64_frsize :: u64
  f64_blocks :: u64
  f64_bfree :: u64
  f64_bavail :: u64
  f64_files :: u64
  f64_ffree :: u64
  f64_favail :: u64
  f64_fsid :: u64
  f64_flag :: u64
  f64_namemax :: u64

text \<open>\<open>memcpy\<close> of eight bytes and \<open>nfs_ntoh64\<close>.\<close>

definition rdn64 :: "u8 list \<Rightarrow> int \<Rightarrow> u64 option" where
  "rdn64 mem pos = map_option (\<lambda>bs. nfs_ntoh64 (of_le bs)) (rdbytes mem pos 8)"

definition nfs_parse_statvfs64 :: "u64 \<Rightarrow> u8 list \<Rightarrow> int \<Rightarrow> nfs_statvfs_64 parsed" where
  "nfs_parse_statvfs64 blksize mem len =
     CHECK_GETATTR_BUF_SPACE len 16 (do {
       fsid1 \<leftarrow> rdn64 mem 0;
       fsid2 \<leftarrow> rdn64 mem 8;
       CHECK_GETATTR_BUF_SPACE (len - 16) 8 (do {
         favail \<leftarrow> rdn64 mem 16;
         CHECK_GETATTR_BUF_SPACE (len - 24) 8 (do {
           ffree \<leftarrow> rdn64 mem 24;
           CHECK_GETATTR_BUF_SPACE (len - 32) 8 (do {
             files \<leftarrow> rdn64 mem 32;
             CHECK_GETATTR_BUF_SPACE (len - 40) 4 (do {
               namemax \<leftarrow> rd32 mem 40;
               CHECK_GETATTR_BUF_SPACE (len - 44) 8 (do {
                 avail \<leftarrow> rdn64 mem 44;
                 CHECK_GETATTR_BUF_SPACE (len - 52) 8 (do {
                   free \<leftarrow> rdn64 mem 52;
                   CHECK_GETATTR_BUF_SPACE (len - 60) 8 (do {
                     total \<leftarrow> rdn64 mem 60;
                     Some (Some \<lparr>f64_bsize = blksize, f64_frsize = blksize, f64_blocks = total div blksize,
                       f64_bfree = free div blksize, f64_bavail = avail div blksize, f64_files = files,
                       f64_ffree = ffree, f64_favail = favail, f64_fsid = fsid1 OR fsid2, f64_flag = 0,
                       f64_namemax = ucast namemax\<rparr>) }) }) }) }) }) }) }) })"

text \<open>The other parser has the same text over the fields of \<open>struct statvfs\<close>, which are 64 bits wide too.\<close>

definition nfs_parse_statvfs :: "u64 \<Rightarrow> u8 list \<Rightarrow> int \<Rightarrow> nfs_statvfs_64 parsed" where
  "nfs_parse_statvfs blksize mem len = nfs_parse_statvfs64 blksize mem len"

text \<open>This one counts every byte it reads and never leaves the reply.\<close>

lemma rdn64_inside: "0 \<le> pos \<Longrightarrow> pos + 8 \<le> int (length mem) \<Longrightarrow> \<exists>v. rdn64 mem pos = Some v"
  by (simp add: rdn64_def rdbytes_def)

lemma rd32_inside: "0 \<le> pos \<Longrightarrow> pos + 4 \<le> int (length mem) \<Longrightarrow> \<exists>v. rd32 mem pos = Some v"
  by (simp add: rd32_def rdbytes_def)

lemma nfs_parse_statvfs64_inside:
  "\<exists>r. nfs_parse_statvfs64 blksize mem (int (length mem)) = Some r \<and> (r = None \<longleftrightarrow> length mem < 68)"
  using rdn64_inside [of _ mem] rd32_inside [of _ mem]
  by (auto simp: nfs_parse_statvfs64_def CHECK_GETATTR_BUF_SPACE_def rdn64_def rd32_def rdbytes_def)

end
