(* ===== verification/Bitops.thy ===== *)
theory Bitops
  imports Prelude
begin

text \<open>
  The integer helpers the hash tables rest on: \<open>fls\<close>, \<open>fls64\<close> (include/hsfs/compiler.h), the base-2
  logarithms and roundings (include/hsfs/log2.h), the orders of bitops.h, and the multiplicative
  hashes of include/hsfs/hash.h.  Where the C expression is undefined (\<open>__builtin_clz (0)\<close>, a shift by
  the full width) the model returns \<open>None\<close>.
\<close>

section \<open>Find last set bit\<close>

text \<open>\<open>__builtin_clz\<close>: the number of zero bits above the highest set bit among the low \<open>n\<close> bits.\<close>

fun clz_from :: "nat \<Rightarrow> 'a :: len word \<Rightarrow> nat" where
  "clz_from 0 w = 0"
| "clz_from (Suc i) w = (if bit w i then 0 else Suc (clz_from i w))"

definition fls :: "u32 \<Rightarrow> nat option" where
  "fls x = (if x = 0 then None else Some (32 - clz_from 32 x))"

definition fls64 :: "u64 \<Rightarrow> nat option" where
  "fls64 x = (if x = 0 then None else Some (64 - clz_from 64 x))"

definition fls_long :: "u64 \<Rightarrow> nat option" where
  "fls_long l = fls64 l"

section \<open>Logarithms and powers of two\<close>

definition ilog2_u32 :: "u32 \<Rightarrow> nat option" where
  "ilog2_u32 n = map_option (\<lambda>k. k - 1) (fls n)"

definition ilog2_u64 :: "u64 \<Rightarrow> nat option" where
  "ilog2_u64 n = map_option (\<lambda>k. k - 1) (fls64 n)"

definition is_power_of_2 :: "u64 \<Rightarrow> bool" where
  "is_power_of_2 n \<longleftrightarrow> n \<noteq> 0 \<and> n AND (n - 1) = 0"

definition shl_one :: "nat \<Rightarrow> u64 option" where
  "shl_one k = (if k < 64 then Some (push_bit k 1) else None)"

definition roundup_pow_of_two :: "u64 \<Rightarrow> u64 option" where
  "roundup_pow_of_two n = do { k \<leftarrow> fls_long (n - 1); shl_one k }"

definition rounddown_pow_of_two :: "u64 \<Rightarrow> u64 option" where
  "rounddown_pow_of_two n = do { k \<leftarrow> fls_long n; shl_one (k - 1) }"

text \<open>The \<open>ilog2\<close> macro on a constant: the chain of tests from bit 63 down to bit 0, whose last
  alternative is the undefined symbol \<open>____ilog2_NaN\<close>.\<close>

fun ilog2_chain :: "nat \<Rightarrow> u64 \<Rightarrow> nat option" where
  "ilog2_chain 0 n = None"
| "ilog2_chain (Suc i) n = (if bit n i then Some i else ilog2_chain i n)"

definition ilog2 :: "u64 \<Rightarrow> nat option" where
  "ilog2 n = ilog2_chain 64 n"

definition get_bitmask_order :: "u32 \<Rightarrow> nat option" where
  "get_bitmask_order count = fls count"

definition get_count_order :: "u32 \<Rightarrow> nat option" where
  "get_count_order count =
     do { k \<leftarrow> fls count;
          Some (if count AND (count - 1) \<noteq> 0 then k - 1 + 1 else k - 1) }"

section \<open>Hashes\<close>

abbreviation GOLDEN_RATIO_PRIME_32 :: u32 where "GOLDEN_RATIO_PRIME_32 \<equiv> 0x9e370001"
abbreviation GOLDEN_RATIO_PRIME_64 :: u64 where "GOLDEN_RATIO_PRIME_64 \<equiv> 0x9e37fffffffc0001"

definition hash_64 :: "u64 \<Rightarrow> nat \<Rightarrow> u64" where
  "hash_64 val bits =
     (let hash = val;
          n = hash;
          n = push_bit 18 n; hash = hash - n;
          n = push_bit 33 n; hash = hash - n;
          n = push_bit 3 n; hash = hash + n;
          n = push_bit 3 n; hash = hash - n;
          n = push_bit 4 n; hash = hash + n;
          n = push_bit 2 n; hash = hash + n
      in drop_bit (64 - bits) hash)"

definition hash_32 :: "u32 \<Rightarrow> nat \<Rightarrow> u32" where
  "hash_32 val bits = drop_bit (32 - bits) (val * GOLDEN_RATIO_PRIME_32)"

section \<open>Facts\<close>

lemma clz_from_le: "clz_from n w \<le> n"
  by (induction n) auto

lemma clz_from_top:
  "clz_from n w < n \<Longrightarrow> bit w (n - 1 - clz_from n w) \<and> (\<forall>i. n - clz_from n w \<le> i \<and> i < n \<longrightarrow> \<not> bit w i)"
proof (induction n)
  case 0
  then show ?case by simp
next
  case (Suc n)
  show ?case
  proof (cases "bit w n")
    case True
    then show ?thesis by auto
  next
    case False
    with Suc show ?thesis by (auto simp: less_Suc_eq)
  qed
qed

lemma clz_from_all_zero: "clz_from n w = n \<longleftrightarrow> (\<forall>i < n. \<not> bit w i)"
proof (induction n)
  case (Suc n)
  show ?case
    using clz_from_le [of n w] Suc by (auto simp: less_Suc_eq)
qed simp

lemma ilog2_chain_clz:
  "ilog2_chain n w = (if clz_from n w < n then Some (n - 1 - clz_from n w) else None)"
  by (induction n) (auto simp: Suc_diff_le)

text \<open>The highest set bit brackets the value between two powers of two.\<close>

lemma bit_top_bounds:
  fixes w :: "'a :: len word"
  assumes "bit w k" and "\<And>i. k < i \<Longrightarrow> i < LENGTH('a) \<Longrightarrow> \<not> bit w i"
  shows "2 ^ k \<le> unat w" and "unat w < 2 ^ Suc k"
proof -
  have eq: "take_bit (Suc k) w = w"
    by (rule bit_word_eqI) (metis assms(2) bit_take_bit_iff less_Suc_eq linorder_neqE_nat)
  have "unat (take_bit (Suc k) w) < 2 ^ Suc k"
    by (simp add: unsigned_take_bit_eq take_bit_nat_less_exp del: power_Suc)
  then show "unat w < 2 ^ Suc k" by (simp only: eq)
  have "bit (unat w) k"
    using assms(1) by (simp add: bit_unsigned_iff)
  then show "2 ^ k \<le> unat w"
    by (metis bit_nat_iff div_less even_zero linorder_not_less bit_iff_odd)
qed

lemma ilog2_chain_Some_bounds:
  assumes "ilog2_chain 64 w = Some k"
  shows "2 ^ k \<le> unat w \<and> unat w < 2 ^ Suc k \<and> k < 64"
proof -
  from assms have lt: "clz_from 64 w < 64" and k: "k = 63 - clz_from 64 w"
    by (auto simp: ilog2_chain_clz split: if_splits)
  from clz_from_top [OF lt] k have "bit w k" and "\<And>i. k < i \<Longrightarrow> i < 64 \<Longrightarrow> \<not> bit w i"
    by auto
  then show ?thesis
    using bit_top_bounds [of w k] k by auto
qed

lemma word_eq_0_iff_no_bits: "w = 0 \<longleftrightarrow> (\<forall>i < LENGTH('a). \<not> bit w i)" for w :: "'a :: len word"
  by (auto simp: bit_eq_iff dest: bit_imp_le_length)

lemma ilog2_defined: "ilog2 n = None \<longleftrightarrow> n = 0"
  using clz_from_le [of 64 n] word_eq_0_iff_no_bits [of n]
  by (auto simp: ilog2_def ilog2_chain_clz clz_from_all_zero [symmetric])

lemma ilog2_u64_eq_ilog2: "ilog2_u64 n = ilog2 n"
proof (cases "n = 0")
  case True
  then show ?thesis
    using ilog2_defined [of n] by (simp add: ilog2_u64_def fls64_def)
next
  case False
  then have "clz_from 64 n < 64"
    using clz_from_le [of 64 n] word_eq_0_iff_no_bits [of n] clz_from_all_zero [of 64 n] by force
  with False show ?thesis
    by (simp add: ilog2_u64_def fls64_def ilog2_def ilog2_chain_clz)
qed

text \<open>The chain of shifts and additions of \<open>hash_64\<close> is the multiplication by the prime.\<close>

lemma hash_64_mult: "hash_64 val bits = drop_bit (64 - bits) (val * GOLDEN_RATIO_PRIME_64)"
  by (simp add: hash_64_def Let_def push_bit_eq_mult algebra_simps)

lemma unat_hash_64_less: "bits \<le> 64 \<Longrightarrow> unat (hash_64 val bits) < 2 ^ bits"
  using unat_drop_bit_less [where 'a = 64, of bits] by (simp add: hash_64_mult)

lemma unat_hash_32_less: "bits \<le> 32 \<Longrightarrow> unat (hash_32 val bits) < 2 ^ bits"
  using unat_drop_bit_less [where 'a = 32, of bits] by (simp add: hash_32_def)

section \<open>Rounding\<close>

lemma fls64_bounds:
  assumes "fls64 x = Some k"
  shows "0 < k" "k \<le> 64" "2 ^ (k - 1) \<le> unat x" "unat x < 2 ^ k"
proof -
  have k: "k = 64 - clz_from 64 x" and x: "x \<noteq> 0" using assms by (auto simp: fls64_def split: if_splits)
  have "clz_from 64 x \<noteq> 64"
    using x word_eq_0_iff_no_bits [of x] clz_from_all_zero [of 64 x] by auto
  then have "clz_from 64 x < 64" using clz_from_le [of 64 x] by simp
  then have c: "0 < k" "k \<le> 64" using k by simp_all
  have "ilog2_chain 64 x = Some (k - 1)"
    using \<open>clz_from 64 x < 64\<close> k by (simp add: ilog2_chain_clz)
  from ilog2_chain_Some_bounds [OF this] c
  show "0 < k" "k \<le> 64" "2 ^ (k - 1) \<le> unat x" "unat x < 2 ^ k" by simp_all
qed



end
