(* ===== verification/Hlist.thy ===== *)
theory Hlist
  imports Bitops
begin

text \<open>
  The doubly linked chains with a single-pointer head of include/hsfs/list.h, at the level of the
  pointers the C code writes.  A node is its address (0 is \<open>NULL\<close>); \<open>pprev\<close> is the address of the
  pointer that points to the node, which is either the \<open>first\<close> field of a head or the \<open>next\<close> field of
  another node.  \<open>hlist m h xs\<close> says that the chain of head \<open>h\<close> is the list \<open>xs\<close>; the operations are
  shown to be \<open>Cons\<close>, removal and insertion on that list.
\<close>

section \<open>Memory and operations\<close>

datatype pptr = PNull | HeadFirst nat | NodeNext u64 | PPoison

record hlist_mem =
  first :: "nat \<Rightarrow> u64"
  nxt :: "u64 \<Rightarrow> u64"
  pprev :: "u64 \<Rightarrow> pptr"

definition LIST_POISON1 :: u64 where
  "LIST_POISON1 = 0x00100100"

text \<open>\<open>*pp = v\<close>: a store through a \<open>struct hlist_node **\<close>; \<open>None\<close> where it points to no live object.\<close>

fun store_pptr :: "pptr \<Rightarrow> u64 \<Rightarrow> hlist_mem \<Rightarrow> hlist_mem option" where
  "store_pptr (HeadFirst h) v m = Some (m\<lparr>first := (first m)(h := v)\<rparr>)"
| "store_pptr (NodeNext n) v m = Some (m\<lparr>nxt := (nxt m)(n := v)\<rparr>)"
| "store_pptr PNull v m = None"
| "store_pptr PPoison v m = None"

definition INIT_HLIST_HEAD :: "nat \<Rightarrow> hlist_mem \<Rightarrow> hlist_mem" where
  "INIT_HLIST_HEAD h m = m\<lparr>first := (first m)(h := 0)\<rparr>"

definition INIT_HLIST_NODE :: "u64 \<Rightarrow> hlist_mem \<Rightarrow> hlist_mem" where
  "INIT_HLIST_NODE n m = m\<lparr>nxt := (nxt m)(n := 0), pprev := (pprev m)(n := PNull)\<rparr>"

definition hlist_unhashed :: "hlist_mem \<Rightarrow> u64 \<Rightarrow> bool" where
  "hlist_unhashed m n \<longleftrightarrow> pprev m n = PNull"

definition hlist_empty :: "hlist_mem \<Rightarrow> nat \<Rightarrow> bool" where
  "hlist_empty m h \<longleftrightarrow> first m h = 0"

text \<open>\<open>__hlist_del\<close>\<close>

definition hlist_unlink :: "u64 \<Rightarrow> hlist_mem \<Rightarrow> hlist_mem option" where
  "hlist_unlink n m =
     (let next = nxt m n; pp = pprev m n
      in do { m \<leftarrow> store_pptr pp next m;
              Some (if next \<noteq> 0 then m\<lparr>pprev := (pprev m)(next := pp)\<rparr> else m) })"

definition hlist_del :: "u64 \<Rightarrow> hlist_mem \<Rightarrow> hlist_mem option" where
  "hlist_del n m =
     do { m \<leftarrow> hlist_unlink n m;
          Some (m\<lparr>nxt := (nxt m)(n := LIST_POISON1), pprev := (pprev m)(n := PPoison)\<rparr>) }"

definition hlist_del_init :: "u64 \<Rightarrow> hlist_mem \<Rightarrow> hlist_mem option" where
  "hlist_del_init n m =
     (if pprev m n \<noteq> PNull
      then do { m \<leftarrow> hlist_unlink n m; Some (INIT_HLIST_NODE n m) }
      else Some m)"

definition hlist_add_head :: "u64 \<Rightarrow> nat \<Rightarrow> hlist_mem \<Rightarrow> hlist_mem" where
  "hlist_add_head n h m =
     (let f = first m h;
          m = m\<lparr>nxt := (nxt m)(n := f)\<rparr>;
          m = (if f \<noteq> 0 then m\<lparr>pprev := (pprev m)(f := NodeNext n)\<rparr> else m);
          m = m\<lparr>first := (first m)(h := n)\<rparr>
      in m\<lparr>pprev := (pprev m)(n := HeadFirst h)\<rparr>)"

definition hlist_add_before :: "u64 \<Rightarrow> u64 \<Rightarrow> hlist_mem \<Rightarrow> hlist_mem option" where
  "hlist_add_before n next m =
     (let m = m\<lparr>pprev := (pprev m)(n := pprev m next)\<rparr>;
          m = m\<lparr>nxt := (nxt m)(n := next)\<rparr>;
          m = m\<lparr>pprev := (pprev m)(next := NodeNext n)\<rparr>
      in store_pptr (pprev m n) n m)"

text \<open>\<open>hlist_add_after (n, next)\<close> puts \<open>next\<close> behind \<open>n\<close>.\<close>

definition hlist_add_after :: "u64 \<Rightarrow> u64 \<Rightarrow> hlist_mem \<Rightarrow> hlist_mem" where
  "hlist_add_after n next m =
     (let m = m\<lparr>nxt := (nxt m)(next := nxt m n)\<rparr>;
          m = m\<lparr>nxt := (nxt m)(n := next)\<rparr>;
          m = m\<lparr>pprev := (pprev m)(next := NodeNext n)\<rparr>;
          nn = nxt m next
      in if nn \<noteq> 0 then m\<lparr>pprev := (pprev m)(nn := NodeNext next)\<rparr> else m)"

text \<open>\<open>hlist_for_each\<close>: the nodes the loop visits.  It runs forever on a cyclic chain.\<close>

partial_function (option) hlist_walk :: "hlist_mem \<Rightarrow> u64 \<Rightarrow> u64 list option" where
  "hlist_walk m pos =
     (if pos = 0 then Some []
      else do { xs \<leftarrow> hlist_walk m (nxt m pos); Some (pos # xs) })"

definition hlist_for_each :: "hlist_mem \<Rightarrow> nat \<Rightarrow> u64 list option" where
  "hlist_for_each m h = hlist_walk m (first m h)"

section \<open>The list a chain holds\<close>

text \<open>\<open>lseg m pp p xs pp' q\<close>: from the pointer \<open>p\<close> stored at \<open>pp\<close>, the nodes \<open>xs\<close> lead to the pointer
  \<open>q\<close> stored at \<open>pp'\<close>.\<close>

fun lseg :: "hlist_mem \<Rightarrow> pptr \<Rightarrow> u64 \<Rightarrow> u64 list \<Rightarrow> pptr \<Rightarrow> u64 \<Rightarrow> bool" where
  "lseg m pp p [] pp' q \<longleftrightarrow> pp = pp' \<and> p = q"
| "lseg m pp p (x # xs) pp' q \<longleftrightarrow>
     p = x \<and> x \<noteq> 0 \<and> pprev m x = pp \<and> lseg m (NodeNext x) (nxt m x) xs pp' q"

definition hlist :: "hlist_mem \<Rightarrow> nat \<Rightarrow> u64 list \<Rightarrow> bool" where
  "hlist m h xs \<longleftrightarrow> (\<exists>pp'. lseg m (HeadFirst h) (first m h) xs pp' 0) \<and> distinct xs"

lemma lseg_append:
  "lseg m pp p (xs @ ys) pp' q \<longleftrightarrow> (\<exists>pp1 q1. lseg m pp p xs pp1 q1 \<and> lseg m pp1 q1 ys pp' q)"
  by (induction xs arbitrary: pp p) auto

lemma lseg_frame:
  "(\<And>x. x \<in> set xs \<Longrightarrow> nxt m' x = nxt m x \<and> pprev m' x = pprev m x) \<Longrightarrow>
   lseg m' pp p xs pp' q = lseg m pp p xs pp' q"
  by (induction xs arbitrary: pp p) auto

lemma lseg_nonzero: "lseg m pp p xs pp' q \<Longrightarrow> 0 \<notin> set xs"
  by (induction xs arbitrary: pp p) auto

lemma lseg_end:
  "lseg m pp p xs pp' q \<Longrightarrow> pp' = (if xs = [] then pp else NodeNext (last xs))"
  by (induction xs arbitrary: pp p) auto

lemma lseg_unique: "lseg m pp p xs pp' 0 \<Longrightarrow> lseg m ps p ys pp'' 0 \<Longrightarrow> xs = ys"
proof (induction xs arbitrary: pp ps p ys)
  case Nil
  then show ?case by (cases ys) auto
next
  case (Cons x xs)
  then show ?case by (cases ys) auto
qed

lemma hlist_unique: "hlist m h xs \<Longrightarrow> hlist m h ys \<Longrightarrow> xs = ys"
  by (auto simp: hlist_def dest: lseg_unique)

lemma hlist_nonzero: "hlist m h xs \<Longrightarrow> 0 \<notin> set xs"
  by (auto simp: hlist_def dest: lseg_nonzero)

lemma hlist_walk_lseg: "lseg m pp p xs pp' 0 \<Longrightarrow> hlist_walk m p = Some xs"
  by (induction xs arbitrary: pp p; subst hlist_walk.simps) auto

text \<open>The loop macro ends on a well-formed chain and visits its nodes in order.\<close>

lemma hlist_for_each_hlist: "hlist m h xs \<Longrightarrow> hlist_for_each m h = Some xs"
  by (auto simp: hlist_def hlist_for_each_def intro: hlist_walk_lseg)

lemma hlist_empty_iff: "hlist m h xs \<Longrightarrow> hlist_empty m h \<longleftrightarrow> xs = []"
  by (cases xs) (auto simp: hlist_def hlist_empty_def)

text \<open>A chain is unchanged where its head and its nodes are.\<close>

lemma hlist_frame:
  assumes "hlist m h xs" "first m' h = first m h"
    "\<And>x. x \<in> set xs \<Longrightarrow> nxt m' x = nxt m x \<and> pprev m' x = pprev m x"
  shows "hlist m' h xs"
  using assms lseg_frame [of xs m' m] by (auto simp: hlist_def)

section \<open>The operations on the lists\<close>

lemma hlist_INIT_HLIST_HEAD: "hlist (INIT_HLIST_HEAD h m) h []"
  by (simp add: hlist_def INIT_HLIST_HEAD_def)

lemma hlist_add_head_hlist:
  assumes "hlist m h xs" "n \<noteq> 0" "n \<notin> set xs"
  shows "hlist (hlist_add_head n h m) h (n # xs)"
proof -
  obtain pp' where seg: "lseg m (HeadFirst h) (first m h) xs pp' 0" and d: "distinct xs"
    using assms(1) by (auto simp: hlist_def)
  show ?thesis
  proof (cases xs)
    case Nil
    then show ?thesis
      using seg assms by (auto simp: hlist_def hlist_add_head_def Let_def)
  next
    case (Cons y ys)
    then have "lseg (hlist_add_head n h m) (NodeNext y) (nxt m y) ys pp' 0"
      using seg d assms by (subst lseg_frame [where m = m]) (auto simp: hlist_add_head_def Let_def)
    then show ?thesis
      using Cons seg d assms by (auto simp: hlist_def hlist_add_head_def Let_def)
  qed
qed

lemma hlist_add_head_frame:
  assumes "hlist m h' ys" "hlist m h xs" "h' \<noteq> h" "n \<notin> set ys" "set xs \<inter> set ys = {}"
  shows "hlist (hlist_add_head n h m) h' ys"
proof -
  have "first m h \<notin> set ys"
    using assms hlist_nonzero [OF assms(1)] by (cases xs) (auto simp: hlist_def)
  then show ?thesis
    using assms by (intro hlist_frame [OF assms(1)]) (auto simp: hlist_add_head_def Let_def)
qed

text \<open>The memory after \<open>__hlist_del\<close>: the slot that pointed to the node and the back pointer of its
  successor, and nothing else.\<close>

lemma hlist_unlink_mem:
  assumes "hlist_unlink n m = Some m'"
  shows "pprev m' x = (if nxt m n \<noteq> 0 \<and> x = nxt m n then pprev m n else pprev m x)"
    and "nxt m' x = (if pprev m n = NodeNext x then nxt m n else nxt m x)"
    and "first m' h = (if pprev m n = HeadFirst h then nxt m n else first m h)"
  using assms by (cases "pprev m n"; auto simp: hlist_unlink_def Let_def split: if_splits)+

lemma hlist_unlink_Some:
  "pprev m n = HeadFirst h \<or> pprev m n = NodeNext k \<Longrightarrow> \<exists>m'. hlist_unlink n m = Some m'"
  by (auto simp: hlist_unlink_def Let_def)

lemma lseg_unlink_before:
  assumes "lseg m (HeadFirst h) (first m h) xs (pprev m n) n" "hlist_unlink n m = Some m'"
    and "distinct xs" "nxt m n \<notin> set xs"
  shows "lseg m' (HeadFirst h) (first m' h) xs (pprev m n) (nxt m n)"
proof (cases xs rule: rev_cases)
  case Nil
  then show ?thesis using assms hlist_unlink_mem(3) [OF assms(2)] by auto
next
  case (snoc zs z)
  have pp: "pprev m n = NodeNext z" using lseg_end [OF assms(1)] snoc by simp
  have "lseg m' (HeadFirst h) (first m h) zs pq q = lseg m (HeadFirst h) (first m h) zs pq q" for pq q
    by (rule lseg_frame)
       (use snoc assms(3,4) pp in \<open>auto simp: hlist_unlink_mem [OF assms(2)]\<close>)
  then show ?thesis
    using snoc assms pp by (auto simp: lseg_append hlist_unlink_mem [OF assms(2)])
qed

lemma lseg_unlink_after:
  assumes "lseg m (NodeNext n) (nxt m n) ys pp' 0" "hlist_unlink n m = Some m'"
    and "distinct ys" "\<And>z. pprev m n = NodeNext z \<Longrightarrow> z \<notin> set ys"
  shows "\<exists>pp'. lseg m' (pprev m n) (nxt m n) ys pp' 0"
proof (cases ys)
  case Nil
  then show ?thesis using assms(1) by simp
next
  case (Cons y zs)
  have y: "nxt m n = y" "y \<noteq> 0" using assms(1) Cons by auto
  have "lseg m' (NodeNext y) (nxt m y) zs pp' 0 = lseg m (NodeNext y) (nxt m y) zs pp' 0"
    by (rule lseg_frame)
       (use Cons assms(3,4) y in \<open>auto simp: hlist_unlink_mem [OF assms(2)]\<close>)
  then show ?thesis
    using assms(1,4) Cons y by (auto simp: hlist_unlink_mem [OF assms(2)])
qed

lemma hlist_unlink_hlist:
  assumes "hlist m h (xs @ n # ys)"
  shows "\<exists>m'. hlist_unlink n m = Some m' \<and> hlist m' h (xs @ ys)"
proof -
  obtain pp' where pre: "lseg m (HeadFirst h) (first m h) xs (pprev m n) n"
    and post: "lseg m (NodeNext n) (nxt m n) ys pp' 0" and d: "distinct (xs @ n # ys)"
    using assms by (auto simp: hlist_def lseg_append)
  have pp: "pprev m n = (if xs = [] then HeadFirst h else NodeNext (last xs))"
    by (rule lseg_end [OF pre])
  then obtain m' where m': "hlist_unlink n m = Some m'"
    using hlist_unlink_Some [of m n h "last xs"] by (auto split: if_splits)
  have "nxt m n \<notin> set xs"
    using post d lseg_nonzero [OF pre] by (cases ys) auto
  then have "lseg m' (HeadFirst h) (first m' h) xs (pprev m n) (nxt m n)"
    using lseg_unlink_before [OF pre m'] d by simp
  moreover have "last xs \<notin> set ys" if "xs \<noteq> []"
    using d last_in_set [OF that] by auto
  then have "\<exists>pp'. lseg m' (pprev m n) (nxt m n) ys pp' 0"
    by (intro lseg_unlink_after [OF post m']) (use d pp in \<open>auto split: if_splits\<close>)
  ultimately show ?thesis using m' d by (auto simp: hlist_def lseg_append)
qed

text \<open>\<open>hlist_del_init\<close> takes the node out of its chain and leaves it unhashed.\<close>

lemma hlist_del_init_hlist:
  assumes "hlist m h (xs @ n # ys)"
  shows "\<exists>m'. hlist_del_init n m = Some m' \<and> hlist m' h (xs @ ys) \<and> hlist_unhashed m' n"
proof -
  obtain m1 where m1: "hlist_unlink n m = Some m1" "hlist m1 h (xs @ ys)"
    using hlist_unlink_hlist [OF assms] by blast
  have n: "n \<notin> set (xs @ ys)" using assms by (auto simp: hlist_def)
  obtain p where "lseg m (HeadFirst h) (first m h) xs (pprev m n) p"
    using assms by (auto simp: hlist_def lseg_append)
  from lseg_end [OF this] have "pprev m n \<noteq> PNull" by simp
  moreover have "hlist (INIT_HLIST_NODE n m1) h (xs @ ys)"
    by (rule hlist_frame [OF m1(2)]) (use n in \<open>auto simp: INIT_HLIST_NODE_def\<close>)
  ultimately show ?thesis
    using m1 by (auto simp: hlist_del_init_def hlist_unhashed_def INIT_HLIST_NODE_def)
qed

lemma hlist_del_init_unhashed: "hlist_unhashed m n \<Longrightarrow> hlist_del_init n m = Some m"
  by (simp add: hlist_del_init_def hlist_unhashed_def)

text \<open>The two insertions next to a node.\<close>

lemma hlist_add_after_hlist:
  assumes "hlist m h (xs @ n # ys)" "k \<noteq> 0" "k \<notin> set (xs @ n # ys)"
  shows "hlist (hlist_add_after n k m) h (xs @ n # k # ys)"
proof -
  obtain pp' where pre: "lseg m (HeadFirst h) (first m h) xs (pprev m n) n"
    and post: "lseg m (NodeNext n) (nxt m n) ys pp' 0" and d: "distinct (xs @ n # ys)" and n0: "n \<noteq> 0"
    using assms by (auto simp: hlist_def lseg_append)
  let ?m = "hlist_add_after n k m"
  have nn: "nxt m n = (case ys of [] \<Rightarrow> 0 | y # _ \<Rightarrow> y)" using post by (cases ys) auto
  have x0: "0 \<notin> set xs" using lseg_nonzero [OF pre] .
  have "lseg ?m (HeadFirst h) (first m h) xs (pprev m n) n"
    using pre assms(3) d nn x0
    by (subst lseg_frame [where m = m]) (auto simp: hlist_add_after_def Let_def split: list.splits)
  moreover have "\<exists>pp'. lseg ?m (NodeNext k) (nxt m n) ys pp' 0"
  proof (cases ys)
    case Nil
    then show ?thesis using nn by simp
  next
    case (Cons y zs)
    have "lseg ?m (NodeNext y) (nxt m y) zs pp' 0 = lseg m (NodeNext y) (nxt m y) zs pp' 0"
      by (rule lseg_frame) (use Cons d nn assms in \<open>auto simp: hlist_add_after_def Let_def\<close>)
    then show ?thesis
      using Cons post d nn assms by (auto simp: hlist_add_after_def Let_def)
  qed
  moreover have "first ?m h = first m h" "nxt ?m n = k" "nxt ?m k = nxt m n" "pprev ?m k = NodeNext n"
    "pprev ?m n = pprev m n"
    using assms d nn n0 by (auto simp: hlist_add_after_def Let_def split: list.splits)
  ultimately show ?thesis using d n0 assms by (auto simp: hlist_def lseg_append)
qed


lemma hlist_add_before_hlist:
  assumes "hlist m h (xs @ k # ys)" "n \<noteq> 0" "n \<notin> set (xs @ k # ys)"
  shows "\<exists>m'. hlist_add_before n k m = Some m' \<and> hlist m' h (xs @ n # k # ys)"
proof -
  obtain pp' where pre: "lseg m (HeadFirst h) (first m h) xs (pprev m k) k"
    and post: "lseg m (NodeNext k) (nxt m k) ys pp' 0" and d: "distinct (xs @ k # ys)" and k0: "k \<noteq> 0"
    using assms by (auto simp: hlist_def lseg_append)
  have pp: "pprev m k = (if xs = [] then HeadFirst h else NodeNext (last xs))"
    by (rule lseg_end [OF pre])
  have lst: "last xs \<notin> set ys" "last xs \<noteq> k" "last xs \<noteq> n" if "xs \<noteq> []"
    using d assms(3) last_in_set [OF that] by auto
  obtain m' where m': "hlist_add_before n k m = Some m'"
    using pp assms(3) by (cases "xs = []") (auto simp: hlist_add_before_def Let_def)
  have mem: "pprev m' x = (if x = k then NodeNext n else if x = n then pprev m k else pprev m x)"
    "nxt m' x = (if pprev m k = NodeNext x then n else if x = n then k else nxt m x)"
    "first m' g = (if pprev m k = HeadFirst g then n else first m g)" for x g
    using m' pp assms(3) by (auto simp: hlist_add_before_def Let_def split: if_splits)
  have "lseg m' (NodeNext k) (nxt m k) ys pp' 0"
    using post d assms(3) lst
    by (subst lseg_frame [where m = m]) (auto simp: mem pp split: if_splits)
  moreover have "lseg m' (HeadFirst h) (first m' h) xs (pprev m k) n"
  proof (cases xs rule: rev_cases)
    case Nil
    then show ?thesis using pp by (simp add: mem)
  next
    case (snoc zs z)
    have "lseg m' (HeadFirst h) (first m h) zs pq q = lseg m (HeadFirst h) (first m h) zs pq q" for pq q
      by (rule lseg_frame) (use snoc d assms(3) pp in \<open>auto simp: mem\<close>)
    then show ?thesis
      using snoc pre d pp assms(3) by (auto simp: lseg_append mem)
  qed
  ultimately show ?thesis
    using m' d k0 assms pp lst by (auto simp: hlist_def lseg_append mem split: if_splits)
qed

end
