(* ===== verification/Hashtable.thy ===== *)
theory Hashtable
  imports Hlist
begin

text \<open>
  The fixed-size hash tables of include/hsfs/hashtable.h.  The pointer-level table is an array of
  \<open>HASH_SIZE\<close> chain heads in an \<open>hlist_mem\<close>; the abstract table is the function from the bucket index
  to the list of its nodes.  The interface the inode cache relies on is the locale \<open>hash_table\<close>; both
  levels are interpretations of it, and \<open>ptab\<close> is the simulation between them.
\<close>

section \<open>Geometry\<close>

definition HASH_SIZE :: "nat \<Rightarrow> u64" where
  "HASH_SIZE bits = push_bit bits 1"

definition HASH_BITS :: "u64 \<Rightarrow> nat" where
  "HASH_BITS sz = (case ilog2 sz of Some k \<Rightarrow> k | None \<Rightarrow> 0)"

text \<open>The keys of both tables are 64-bit, so \<open>hash_min\<close> is \<open>hash_long\<close>, that is \<open>hash_64\<close>.\<close>

definition hash_min :: "u64 \<Rightarrow> nat \<Rightarrow> u64" where
  "hash_min val bits = hash_64 val bits"

abbreviation HSFS_HASH_BITS :: nat where
  "HSFS_HASH_BITS \<equiv> 10"

definition bucket :: "u64 \<Rightarrow> nat" where
  "bucket key = unat (hash_min key (HASH_BITS (HASH_SIZE HSFS_HASH_BITS)))"

lemma HASH_BITS_HASH_SIZE [simp]: "HASH_BITS (HASH_SIZE HSFS_HASH_BITS) = 10"
  by code_simp

lemma bucket_less: "bucket key < 1024"
  using unat_hash_64_less [of 10 key] by (simp add: bucket_def hash_min_def)

section \<open>Pointer level\<close>

definition phash_init :: "nat \<Rightarrow> hlist_mem \<Rightarrow> hlist_mem" where
  "phash_init sz m = fold INIT_HLIST_HEAD [0..<sz] m"

definition phash_add :: "u64 \<Rightarrow> u64 \<Rightarrow> hlist_mem \<Rightarrow> hlist_mem" where
  "phash_add key node m = hlist_add_head node (bucket key) m"

definition hash_hashed :: "hlist_mem \<Rightarrow> u64 \<Rightarrow> bool" where
  "hash_hashed m node \<longleftrightarrow> \<not> hlist_unhashed m node"

definition phash_empty :: "hlist_mem \<Rightarrow> nat \<Rightarrow> bool" where
  "phash_empty m sz \<longleftrightarrow> list_all (hlist_empty m) [0..<sz]"

definition phash_del :: "u64 \<Rightarrow> hlist_mem \<Rightarrow> hlist_mem option" where
  "phash_del node m = hlist_del_init node m"

definition phash_for_each_possible :: "hlist_mem \<Rightarrow> u64 \<Rightarrow> u64 list option" where
  "phash_for_each_possible m key = hlist_for_each m (bucket key)"

section \<open>Abstract level\<close>

type_synonym hashtable = "nat \<Rightarrow> u64 list"

definition hash_init :: hashtable where
  "hash_init = (\<lambda>_. [])"

definition hash_add :: "u64 \<Rightarrow> u64 \<Rightarrow> hashtable \<Rightarrow> hashtable" where
  "hash_add key node t = t(bucket key := node # t (bucket key))"

definition hash_for_each_possible :: "hashtable \<Rightarrow> u64 \<Rightarrow> u64 list" where
  "hash_for_each_possible t key = t (bucket key)"

definition hash_nodes :: "hashtable \<Rightarrow> u64 set" where
  "hash_nodes t = (\<Union>b < 1024. set (t b))"

section \<open>The interface\<close>

locale hash_table =
  fixes inv :: "'t \<Rightarrow> bool"
    and chain :: "'t \<Rightarrow> nat \<Rightarrow> u64 list"
    and add :: "u64 \<Rightarrow> u64 \<Rightarrow> 't \<Rightarrow> 't"
  assumes inv_add: "\<lbrakk>inv t; n \<noteq> 0; \<And>b. b < 1024 \<Longrightarrow> n \<notin> set (chain t b)\<rbrakk> \<Longrightarrow> inv (add k n t)"
    and chain_add: "\<lbrakk>inv t; n \<noteq> 0; \<And>b. b < 1024 \<Longrightarrow> n \<notin> set (chain t b); b < 1024\<rbrakk> \<Longrightarrow>
          chain (add k n t) b = (if b = bucket k then n # chain t b else chain t b)"
begin

lemma find_add:
  assumes "inv t" "n \<noteq> 0" "\<And>b. b < 1024 \<Longrightarrow> n \<notin> set (chain t b)"
  shows "find P (chain (add k n t) (bucket j)) =
           (if bucket j = bucket k \<and> P n then Some n else find P (chain t (bucket j)))"
  using assms bucket_less [of j] by (simp add: chain_add)

lemma nodes_add:
  assumes "inv t" "n \<noteq> 0" "\<And>b. b < 1024 \<Longrightarrow> n \<notin> set (chain t b)"
  shows "(\<Union>b < 1024. set (chain (add k n t) b)) = insert n (\<Union>b < 1024. set (chain t b))"
  using assms bucket_less [of k] by (auto simp: chain_add split: if_splits)

end

interpretation lt: hash_table "\<lambda>_. True" "\<lambda>t. t" hash_add
  by unfold_locales (auto simp: hash_add_def)

section \<open>The pointer level implements the abstract one\<close>

definition ptab :: "hlist_mem \<Rightarrow> hashtable \<Rightarrow> bool" where
  "ptab m t \<longleftrightarrow> (\<forall>b < 1024. hlist m b (t b)) \<and>
     (\<forall>b < 1024. \<forall>c < 1024. b \<noteq> c \<longrightarrow> set (t b) \<inter> set (t c) = {})"

lemma ptab_hlist: "ptab m t \<Longrightarrow> b < 1024 \<Longrightarrow> hlist m b (t b)"
  by (simp add: ptab_def)

lemma ptab_disjoint: "ptab m t \<Longrightarrow> b < 1024 \<Longrightarrow> c < 1024 \<Longrightarrow> b \<noteq> c \<Longrightarrow> set (t b) \<inter> set (t c) = {}"
  by (simp add: ptab_def)

lemma ptab_add:
  assumes "ptab m t" "n \<noteq> 0" "\<And>b. b < 1024 \<Longrightarrow> n \<notin> set (t b)"
  shows "ptab (phash_add k n m) (hash_add k n t)"
proof -
  let ?t = "hash_add k n t"
  note k = ptab_hlist [OF assms(1) bucket_less]
  have "hlist (phash_add k n m) b (?t b)" if b: "b < 1024" for b
  proof (cases "b = bucket k")
    case True
    then show ?thesis
      using assms(2,3) b hlist_add_head_hlist [OF k] by (simp add: phash_add_def hash_add_def)
  next
    case False
    then show ?thesis
      using assms(3) b hlist_add_head_frame [OF ptab_hlist [OF assms(1) b] k]
        ptab_disjoint [OF assms(1) bucket_less b]
      by (auto simp: phash_add_def hash_add_def)
  qed
  moreover have "set (?t b) \<inter> set (?t c) = {}" if "b < 1024" "c < 1024" "b \<noteq> c" for b c
    using assms that bucket_less [of k] by (auto simp: hash_add_def ptab_def)
  ultimately show ?thesis by (simp add: ptab_def)
qed

lemma ptab_for_each: "ptab m t \<Longrightarrow> phash_for_each_possible m k = Some (hash_for_each_possible t k)"
  by (auto simp: ptab_def phash_for_each_possible_def hash_for_each_possible_def bucket_less
      intro: hlist_for_each_hlist)

lemma ptab_unique: "ptab m t \<Longrightarrow> b < 1024 \<Longrightarrow> the (hlist_for_each m b) = t b"
  using hlist_for_each_hlist [OF ptab_hlist] by simp

interpretation pt: hash_table "\<lambda>m. \<exists>t. ptab m t" "\<lambda>m b. the (hlist_for_each m b)" phash_add
proof
  fix m n k
  assume "\<exists>t. ptab m t" "n \<noteq> 0" "\<And>b. b < 1024 \<Longrightarrow> n \<notin> set (the (hlist_for_each m b))"
  then show "\<exists>t. ptab (phash_add k n m) t"
    using ptab_add ptab_unique by metis
next
  fix m n k b
  assume *: "\<exists>t. ptab m t" "n \<noteq> 0" "\<And>b. b < 1024 \<Longrightarrow> n \<notin> set (the (hlist_for_each m b))" "b < (1024::nat)"
  then obtain t where t: "ptab m t" by blast
  then have "ptab (phash_add k n m) (hash_add k n t)"
    using * ptab_add ptab_unique by metis
  then show "the (hlist_for_each (phash_add k n m) b) =
      (if b = bucket k then n # the (hlist_for_each m b) else the (hlist_for_each m b))"
    using t * by (simp add: ptab_unique hash_add_def)
qed

lemma INIT_HLIST_HEAD_fold:
  "first (fold INIT_HLIST_HEAD hs m) h = (if h \<in> set hs then 0 else first m h)"
  by (induction hs arbitrary: m) (auto simp: INIT_HLIST_HEAD_def)

lemma ptab_init: "ptab (phash_init 1024 m) hash_init"
  by (simp add: ptab_def hash_init_def hlist_def phash_init_def INIT_HLIST_HEAD_fold)

lemma phash_empty_iff: "ptab m t \<Longrightarrow> phash_empty m 1024 \<longleftrightarrow> hash_nodes t = {}"
  using hlist_empty_iff [OF ptab_hlist] by (fastforce simp: phash_empty_def hash_nodes_def list_all_iff)

section \<open>Deletion\<close>

definition hash_del :: "u64 \<Rightarrow> hashtable \<Rightarrow> hashtable" where
  "hash_del n t = (\<lambda>b. removeAll n (t b))"

lemma hlist_unlink_frame:
  assumes "hlist m h (xs @ n # ys)" "hlist_unlink n m = Some m'" "hlist m h' zs" "h' \<noteq> h"
    and "set (xs @ n # ys) \<inter> set zs = {}"
  shows "hlist m' h' zs"
proof -
  obtain pp' where pre: "lseg m (HeadFirst h) (first m h) xs (pprev m n) n"
    and post: "lseg m (NodeNext n) (nxt m n) ys pp' 0"
    using assms(1) by (auto simp: hlist_def lseg_append)
  have pp: "pprev m n = (if xs = [] then HeadFirst h else NodeNext (last xs))"
    by (rule lseg_end [OF pre])
  have nn: "nxt m n = (case ys of [] \<Rightarrow> 0 | y # _ \<Rightarrow> y)" using post by (cases ys) auto
  have "last xs \<notin> set zs" if "xs \<noteq> []" using assms(5) last_in_set [OF that] by auto
  then show ?thesis
    using assms(4,5) pp nn hlist_unlink_mem [OF assms(2)]
    by (intro hlist_frame [OF assms(3)]) (auto split: if_splits list.splits)
qed

lemma ptab_del:
  assumes "ptab m t" "b < 1024" "n \<in> set (t b)"
  shows "\<exists>m'. phash_del n m = Some m' \<and> ptab m' (hash_del n t)"
proof -
  obtain xs ys where t: "t b = xs @ n # ys" using assms(3) by (meson split_list)
  have h: "hlist m b (xs @ n # ys)" using ptab_hlist [OF assms(1,2)] t by simp
  obtain m' where m': "hlist_del_init n m = Some m'" "hlist m' b (xs @ ys)"
    using hlist_del_init_hlist [OF h] by blast
  obtain m1 where m1: "hlist_unlink n m = Some m1" using hlist_unlink_hlist [OF h] by blast
  have "pprev m n \<noteq> PNull" using m1 by (auto simp: hlist_unlink_def Let_def)
  then have i: "m' = INIT_HLIST_NODE n m1" using m' m1 by (simp add: hlist_del_init_def)
  have "distinct (xs @ n # ys)" using h unfolding hlist_def by blast
  then have r: "removeAll n (t b) = xs @ ys" using t by simp
  have "hlist m' c (removeAll n (t c))" if c: "c < 1024" for c
  proof (cases "c = b")
    case True
    then show ?thesis using m'(2) r by metis
  next
    case False
    have d: "set (xs @ n # ys) \<inter> set (t c) = {}" using ptab_disjoint [OF assms(1) c assms(2) False] t by (metis inf_commute)
    have "hlist m1 c (t c)" by (rule hlist_unlink_frame [OF h m1 ptab_hlist [OF assms(1) c] False d])
    moreover have n: "n \<notin> set (t c)" using d by auto
    ultimately have "hlist m' c (t c)" unfolding i
      by (intro hlist_frame [where m = m1 and m' = "INIT_HLIST_NODE n m1"]) (auto simp: INIT_HLIST_NODE_def)
    then show ?thesis using n by (simp add: removeAll_id)
  qed
  moreover have "set (removeAll n (t c)) \<inter> set (removeAll n (t d)) = {}" if "c < 1024" "d < 1024" "c \<noteq> d" for c d
    using ptab_disjoint [OF assms(1) that] by (simp add: disjoint_iff)
  ultimately have "ptab m' (hash_del n t)" unfolding ptab_def hash_del_def by blast
  then show ?thesis using m'(1) by (simp add: phash_del_def)
qed

section \<open>Sequences of operations\<close>

datatype table_op = Add u64 u64 | Del u64

fun run_ptab :: "table_op list \<Rightarrow> hlist_mem \<Rightarrow> hlist_mem option" where
  "run_ptab [] m = Some m"
| "run_ptab (Add k n # ops) m = run_ptab ops (phash_add k n m)"
| "run_ptab (Del n # ops) m = do { m \<leftarrow> phash_del n m; run_ptab ops m }"

fun run_tab :: "table_op list \<Rightarrow> hashtable \<Rightarrow> hashtable" where
  "run_tab [] t = t"
| "run_tab (Add k n # ops) t = run_tab ops (hash_add k n t)"
| "run_tab (Del n # ops) t = run_tab ops (hash_del n t)"

text \<open>A node is added when it is in no chain and deleted when it is in one.\<close>

fun proper :: "table_op list \<Rightarrow> hashtable \<Rightarrow> bool" where
  "proper [] t \<longleftrightarrow> True"
| "proper (Add k n # ops) t \<longleftrightarrow> n \<noteq> 0 \<and> (\<forall>b < 1024. n \<notin> set (t b)) \<and> proper ops (hash_add k n t)"
| "proper (Del n # ops) t \<longleftrightarrow> (\<exists>b < 1024. n \<in> set (t b)) \<and> proper ops (hash_del n t)"

lemma run_ptab_simulates:
  "ptab m t \<Longrightarrow> proper ops t \<Longrightarrow> \<exists>m'. run_ptab ops m = Some m' \<and> ptab m' (run_tab ops t)"
proof (induction ops arbitrary: m t)
  case (Cons op ops)
  show ?case
  proof (cases op)
    case (Add k n)
    then show ?thesis using Cons ptab_add [of m t n k] by simp
  next
    case (Del n)
    then obtain m' where "phash_del n m = Some m'" "ptab m' (hash_del n t)"
      using Cons.prems ptab_del by fastforce
    then show ?thesis using Cons Del by simp
  qed
qed simp

text \<open>C7. Any proper sequence of insertions and deletions on an initialised table runs without touching a
  null pointer, and iterating over the bucket of a key at the end yields, in order, the nodes that the
  same sequence leaves in that bucket of the abstract table.\<close>

theorem hash_table_refines:
  assumes "proper ops hash_init"
  shows "\<exists>m'. run_ptab ops (phash_init 1024 m) = Some m' \<and>
    (\<forall>key. phash_for_each_possible m' key = Some (hash_for_each_possible (run_tab ops hash_init) key)) \<and>
    (phash_empty m' 1024 \<longleftrightarrow> hash_nodes (run_tab ops hash_init) = {})"
  using run_ptab_simulates [OF ptab_init assms] ptab_for_each phash_empty_iff by blast

theorem hash_table_refines_witness:
  "\<exists>m'. run_ptab [Add 5 0x1000, Add 5 0x2000, Del 0x1000]
       (phash_init 1024 \<lparr>first = (\<lambda>_. 7), nxt = (\<lambda>_. 7), pprev = (\<lambda>_. PNull)\<rparr>) = Some m' \<and>
     phash_for_each_possible m' 5 = Some [0x2000]"
proof -
  have "proper [Add 5 0x1000, Add 5 0x2000, Del 0x1000] hash_init"
    using bucket_less [of 5] by (auto simp: hash_init_def hash_add_def)
  moreover have "run_tab [Add 5 0x1000, Add 5 0x2000, Del 0x1000] hash_init (bucket 5) = [0x2000]"
    by (simp add: hash_init_def hash_add_def hash_del_def)
  ultimately show ?thesis
    using hash_table_refines unfolding hash_for_each_possible_def by metis
qed

end
