(* ===== verification/Errptr.thy ===== *)
theory Errptr
  imports Prelude
begin

text \<open>
  The encoding of error numbers in pointers of include/hsfs/err.h.  A pointer is a 64-bit word; the
  address \<open>bad\<close> of the object \<open>bad_hsfs_inode\<close> (lib/hsfs_inode.c) is chosen by the linker and is an
  argument of the definitions.
\<close>

text \<open>\<open>sizeof (struct hsfs_inode)\<close> under the LP64 layout: 8 (sb) + 72 (iattr) + 4 + 4 (i_state,
  i_nlink) + 8 (i_blocks) + 16 + 16 (hash nodes) + 8 (private) + 8 (i_count, padded) + 8 (real_ino) +
  8 (i_blkbits, padded) + 8 (ino) + 8 (i_rdev) + 8 (generation).\<close>

abbreviation sizeof_hsfs_inode :: u64 where
  "sizeof_hsfs_inode \<equiv> 184"

definition MAX_ERRNO :: u64 where
  "MAX_ERRNO = sizeof_hsfs_inode"

definition IS_ERR_VALUE :: "u64 \<Rightarrow> bool" where
  "IS_ERR_VALUE x \<longleftrightarrow> - MAX_ERRNO \<le> x"

text \<open>\<open>ERR_PTR\<close> ends in an assertion; \<open>None\<close> is its failure.\<close>

definition ERR_PTR :: "u64 \<Rightarrow> int \<Rightarrow> u64 option" where
  "ERR_PTR bad error =
     (let tmp = bad;
          tmp = (if error < 0 then tmp - word_of_int error else tmp - word_of_int error)
      in if tmp < bad + sizeof_hsfs_inode then Some tmp else None)"

definition PTR_ERR :: "u64 \<Rightarrow> u64 \<Rightarrow> int" where
  "PTR_ERR bad ptr = sint (ptr - bad)"

definition IS_ERR :: "u64 \<Rightarrow> bool" where
  "IS_ERR ptr \<longleftrightarrow> IS_ERR_VALUE ptr"

definition IS_ERR_OR_NULL :: "u64 \<Rightarrow> bool" where
  "IS_ERR_OR_NULL ptr \<longleftrightarrow> ptr = 0 \<or> IS_ERR_VALUE ptr"

text \<open>Where the linker puts an object of a user process: above the first page and, with its end,
  below the top half of the address space.\<close>

definition user_object :: "u64 \<Rightarrow> bool" where
  "user_object bad \<longleftrightarrow> 4096 \<le> bad \<and> bad \<le> 0x7fffffffff00"

text \<open>The numbers \<open>-183 .. -1\<close> are encoded as the addresses inside the object.\<close>

lemma unat_err: "0 \<le> e \<Longrightarrow> e < 184 \<Longrightarrow> unat (word_of_int e :: u64) = nat e"
  by (simp add: unsigned_of_int take_bit_int_eq_self)

lemma offset_less:
  assumes "user_object bad" "0 \<le> k" "k < 184"
  shows "bad + word_of_int k < bad + sizeof_hsfs_inode"
  using assms unat_err [of k]
  by (unfold user_object_def) (simp add: word_less_nat_alt word_le_nat_alt unat_word_ariths)

lemma ERR_PTR_negative:
  assumes "user_object bad" "-184 < e" "e < 0"
  shows "ERR_PTR bad e = Some (bad + word_of_int (- e))"
  using offset_less [of bad "- e"] assms by (simp add: ERR_PTR_def Let_def)

lemma IS_ERR_user_object:
  assumes "user_object bad" "0 \<le> e" "e < 184"
  shows "\<not> IS_ERR (bad + word_of_int e)" "bad + word_of_int e \<noteq> 0"
proof -
  have "unat (word_of_int e :: u64) = nat e"
    using assms by (intro unat_err) auto
  then have u: "unat (bad + word_of_int e) = unat bad + nat e" and b: "unat bad \<le> 0x7fffffffff00" "4096 \<le> unat bad"
    using assms by (auto simp: user_object_def word_less_nat_alt word_le_nat_alt unat_word_ariths)
  show "\<not> IS_ERR (bad + word_of_int e)"
    unfolding IS_ERR_def IS_ERR_VALUE_def MAX_ERRNO_def
    using u b assms(2,3) by (simp add: word_le_nat_alt)
  show "bad + word_of_int e \<noteq> 0"
    using u b by (metis add_is_0 not_numeral_le_zero unat_0)
qed

lemma PTR_ERR_offset:
  assumes "0 \<le> e" "e < 184"
  shows "PTR_ERR bad (bad + word_of_int e) = e"
  using assms by (simp add: PTR_ERR_def signed_of_int signed_take_bit_int_eq_self)

text \<open>C36. Every error number that \<open>ERR_PTR\<close> is given with the usual negative sign becomes an address inside
  \<open>bad_hsfs_inode\<close> that is neither null nor recognised by \<open>IS_ERR\<close> or \<open>IS_ERR_OR_NULL\<close>: no caller can tell
  it from an inode.  \<open>PTR_ERR\<close> turns it back into the number with the sign changed.\<close>

theorem ERR_PTR_undetected:
  assumes "user_object bad" "-184 < e" "e < 0"
  shows "\<exists>p. ERR_PTR bad e = Some p \<and> p \<noteq> 0 \<and> \<not> IS_ERR p \<and> \<not> IS_ERR_OR_NULL p \<and> PTR_ERR bad p = - e"
  using ERR_PTR_negative [OF assms] IS_ERR_user_object [OF assms(1), of "- e"] PTR_ERR_offset [of "- e" bad] assms
  by (simp add: IS_ERR_def IS_ERR_OR_NULL_def)

theorem ERR_PTR_undetected_witness:
  "\<exists>p. ERR_PTR 0x601000 (- 2) = Some p \<and> p \<noteq> 0 \<and> \<not> IS_ERR p \<and> \<not> IS_ERR_OR_NULL p \<and> PTR_ERR 0x601000 p = 2"
  using ERR_PTR_undetected [of "0x601000" "- 2"] by (simp add: user_object_def)

end
