(* ===== verification/Hsfs.thy ===== *)
theory Hsfs
  imports Hashtable Errptr
begin

text \<open>
  The data of the client: include/hsfs.h and include/hsfs/hsi_nfs.h.  \<open>nfs_inode\<close> embeds
  \<open>struct hsfs_inode\<close>, which the record extension mirrors; \<open>hsfs_super\<close> is the super block together
  with the heap of the inodes it owns.  The back pointer \<open>inode->sb\<close> is implicit, since a process has
  one super block.  The two tables hold the addresses of the inodes (of their embedded
  \<open>struct hsfs_inode\<close>) in the order of the chains.
\<close>

section \<open>Attributes\<close>

record timespec =
  tv_sec :: u64
  tv_nsec :: u64

record hsfs_iattr =
  ia_valid :: u32
  ia_mode :: u32
  ia_uid :: u32
  ia_gid :: u32
  ia_size :: u64
  ia_atime :: timespec
  ia_mtime :: timespec
  ia_ctime :: timespec

abbreviation HSFS_ATTR_MODE :: u32 where "HSFS_ATTR_MODE \<equiv> 1"
abbreviation HSFS_ATTR_UID :: u32 where "HSFS_ATTR_UID \<equiv> 2"
abbreviation HSFS_ATTR_GID :: u32 where "HSFS_ATTR_GID \<equiv> 4"
abbreviation HSFS_ATTR_SIZE :: u32 where "HSFS_ATTR_SIZE \<equiv> 8"
abbreviation HSFS_ATTR_ATIME :: u32 where "HSFS_ATTR_ATIME \<equiv> 16"
abbreviation HSFS_ATTR_MTIME :: u32 where "HSFS_ATTR_MTIME \<equiv> 32"
abbreviation HSFS_ATTR_CTIME :: u32 where "HSFS_ATTR_CTIME \<equiv> 64"
abbreviation HSFS_ATTR_ATIME_SET :: u32 where "HSFS_ATTR_ATIME_SET \<equiv> 128"
abbreviation HSFS_ATTR_MTIME_SET :: u32 where "HSFS_ATTR_MTIME_SET \<equiv> 256"

text \<open>\<open>x & bit\<close> as a condition.\<close>

definition has :: "u32 \<Rightarrow> u32 \<Rightarrow> bool" where
  "has flags b \<longleftrightarrow> flags AND b \<noteq> 0"

definition S_ISSETMODE :: "u32 \<Rightarrow> bool" where "S_ISSETMODE to_set = has to_set HSFS_ATTR_MODE"
definition S_ISSETUID :: "u32 \<Rightarrow> bool" where "S_ISSETUID to_set = has to_set HSFS_ATTR_UID"
definition S_ISSETGID :: "u32 \<Rightarrow> bool" where "S_ISSETGID to_set = has to_set HSFS_ATTR_GID"
definition S_ISSETSIZE :: "u32 \<Rightarrow> bool" where "S_ISSETSIZE to_set = has to_set HSFS_ATTR_SIZE"
definition S_ISSETATIME :: "u32 \<Rightarrow> bool" where "S_ISSETATIME to_set = has to_set HSFS_ATTR_ATIME_SET"
definition S_ISSETMTIME :: "u32 \<Rightarrow> bool" where "S_ISSETMTIME to_set = has to_set HSFS_ATTR_MTIME_SET"
definition S_ISSETATIMENOW :: "u32 \<Rightarrow> bool" where "S_ISSETATIMENOW to_set = has to_set HSFS_ATTR_ATIME"
definition S_ISSETMTIMENOW :: "u32 \<Rightarrow> bool" where "S_ISSETMTIMENOW to_set = has to_set HSFS_ATTR_MTIME"

section \<open>Inodes\<close>

record hsfs_inode =
  iattr :: hsfs_iattr
  i_state :: u32
  i_nlink :: u32
  i_blocks :: u64
  i_private :: u64
  i_count :: int
  real_ino :: u64
  i_blkbits :: u32
  ino :: u64
  i_rdev :: u64
  generation :: u64

abbreviation I_NEW :: u32 where "I_NEW \<equiv> 8"

abbreviation i_mode :: "'z hsfs_inode_scheme \<Rightarrow> u32" where "i_mode i \<equiv> ia_mode (iattr i)"
abbreviation i_size :: "'z hsfs_inode_scheme \<Rightarrow> u64" where "i_size i \<equiv> ia_size (iattr i)"
abbreviation i_uid :: "'z hsfs_inode_scheme \<Rightarrow> u32" where "i_uid i \<equiv> ia_uid (iattr i)"
abbreviation i_gid :: "'z hsfs_inode_scheme \<Rightarrow> u32" where "i_gid i \<equiv> ia_gid (iattr i)"

definition i_size_read :: "'z hsfs_inode_scheme \<Rightarrow> u64" where
  "i_size_read inode = i_size inode"

definition is_bad_inode :: "'z hsfs_inode_scheme \<Rightarrow> bool" where
  "is_bad_inode inode \<longleftrightarrow> ino inode = 0"

section \<open>File handles\<close>

abbreviation NFS_MAXFHSIZE :: nat where "NFS_MAXFHSIZE \<equiv> 128"

record nfs_fh =
  fh_size :: u16
  fh_data :: "u8 list"

definition nfs_compare_fh :: "nfs_fh \<Rightarrow> nfs_fh \<Rightarrow> bool" where
  "nfs_compare_fh a b \<longleftrightarrow>
     fh_size a \<noteq> fh_size b \<or>
     take (unat (fh_size a)) (fh_data a) \<noteq> take (unat (fh_size a)) (fh_data b)"

text \<open>\<open>memcpy\<close> of the first \<open>n\<close> bytes of \<open>src\<close> onto \<open>dst\<close>; out of bounds on either side is a fault.\<close>

definition memcpy :: "u8 list \<Rightarrow> u8 list \<Rightarrow> nat \<Rightarrow> u8 list option" where
  "memcpy dst src n = (if n \<le> length dst \<and> n \<le> length src then Some (take n src @ drop n dst) else None)"

definition nfs_copy_fh :: "nfs_fh \<Rightarrow> nfs_fh \<Rightarrow> nfs_fh option" where
  "nfs_copy_fh target source =
     do { d \<leftarrow> memcpy (fh_data target) (fh_data source) (unat (fh_size source));
          Some (target\<lparr>fh_size := fh_size source, fh_data := d\<rparr>) }"

definition nfs_copy_fh3 :: "nfs_fh \<Rightarrow> nat \<Rightarrow> u8 list \<Rightarrow> nfs_fh option" where
  "nfs_copy_fh3 target len source =
     do { d \<leftarrow> memcpy (fh_data target) source len;
          Some (target\<lparr>fh_size := of_nat len, fh_data := d\<rparr>) }"

text \<open>The live bytes of a handle, and handles that fit their array.\<close>

definition fh_bytes :: "nfs_fh \<Rightarrow> u8 list" where
  "fh_bytes fh = take (unat (fh_size fh)) (fh_data fh)"

definition fh_ok :: "nfs_fh \<Rightarrow> bool" where
  "fh_ok fh \<longleftrightarrow> length (fh_data fh) = NFS_MAXFHSIZE \<and> unat (fh_size fh) \<le> NFS_MAXFHSIZE"

definition zero_fh :: nfs_fh where
  "zero_fh = \<lparr>fh_size = 0, fh_data = replicate NFS_MAXFHSIZE 0\<rparr>"

lemma fh_ok_zero_fh [simp]: "fh_ok zero_fh"
  by (simp add: fh_ok_def zero_fh_def)

lemma nfs_compare_fh_iff:
  "fh_ok a \<Longrightarrow> fh_ok b \<Longrightarrow> nfs_compare_fh a b \<longleftrightarrow> fh_bytes a \<noteq> fh_bytes b"
proof (cases "fh_size a = fh_size b")
  case False
  assume "fh_ok a" "fh_ok b"
  then have "length (fh_bytes a) \<noteq> length (fh_bytes b)"
    using False unsigned_word_eqI by (fastforce simp: fh_bytes_def fh_ok_def)
  then show ?thesis using False by (auto simp: nfs_compare_fh_def)
qed (simp add: nfs_compare_fh_def fh_bytes_def)

lemma nfs_copy_fh_ok:
  assumes "fh_ok t" "fh_ok s"
  shows "\<exists>t'. nfs_copy_fh t s = Some t' \<and> fh_ok t' \<and> fh_bytes t' = fh_bytes s"
  using assms by (auto simp: nfs_copy_fh_def memcpy_def fh_ok_def fh_bytes_def)

lemma nfs_copy_fh3_ok:
  assumes "fh_ok t" "n = length s" "n \<le> NFS_MAXFHSIZE"
  shows "\<exists>t'. nfs_copy_fh3 t n s = Some t' \<and> fh_ok t' \<and> fh_bytes t' = s"
  using assms by (auto simp: nfs_copy_fh3_def memcpy_def fh_ok_def fh_bytes_def unsigned_of_nat
      take_bit_nat_eq_self)

section \<open>NFS attributes and inodes\<close>

record nfs_fattr =
  fa_valid :: u32
  fa_mode :: u32
  fa_nlink :: u32
  fa_uid :: u32
  fa_gid :: u32
  fa_rdev :: u64
  fa_size :: u64
  fa_used :: u64
  fa_fsid :: u64
  fa_fileid :: u64
  fa_atime :: timespec
  fa_mtime :: timespec
  fa_ctime :: timespec

abbreviation NFS_ATTR_FATTR_TYPE :: u32 where "NFS_ATTR_FATTR_TYPE \<equiv> 0x1"
abbreviation NFS_ATTR_FATTR_MODE :: u32 where "NFS_ATTR_FATTR_MODE \<equiv> 0x2"
abbreviation NFS_ATTR_FATTR_NLINK :: u32 where "NFS_ATTR_FATTR_NLINK \<equiv> 0x4"
abbreviation NFS_ATTR_FATTR_OWNER :: u32 where "NFS_ATTR_FATTR_OWNER \<equiv> 0x8"
abbreviation NFS_ATTR_FATTR_GROUP :: u32 where "NFS_ATTR_FATTR_GROUP \<equiv> 0x10"
abbreviation NFS_ATTR_FATTR_RDEV :: u32 where "NFS_ATTR_FATTR_RDEV \<equiv> 0x20"
abbreviation NFS_ATTR_FATTR_SIZE :: u32 where "NFS_ATTR_FATTR_SIZE \<equiv> 0x40"
abbreviation NFS_ATTR_FATTR_BLOCKS_USED :: u32 where "NFS_ATTR_FATTR_BLOCKS_USED \<equiv> 0x100"
abbreviation NFS_ATTR_FATTR_SPACE_USED :: u32 where "NFS_ATTR_FATTR_SPACE_USED \<equiv> 0x200"
abbreviation NFS_ATTR_FATTR_FSID :: u32 where "NFS_ATTR_FATTR_FSID \<equiv> 0x400"
abbreviation NFS_ATTR_FATTR_FILEID :: u32 where "NFS_ATTR_FATTR_FILEID \<equiv> 0x800"
abbreviation NFS_ATTR_FATTR_ATIME :: u32 where "NFS_ATTR_FATTR_ATIME \<equiv> 0x1000"
abbreviation NFS_ATTR_FATTR_MTIME :: u32 where "NFS_ATTR_FATTR_MTIME \<equiv> 0x2000"
abbreviation NFS_ATTR_FATTR_CTIME :: u32 where "NFS_ATTR_FATTR_CTIME \<equiv> 0x4000"

definition NFS_ATTR_FATTR :: u32 where
  "NFS_ATTR_FATTR = NFS_ATTR_FATTR_TYPE OR NFS_ATTR_FATTR_MODE OR NFS_ATTR_FATTR_NLINK OR
     NFS_ATTR_FATTR_OWNER OR NFS_ATTR_FATTR_GROUP OR NFS_ATTR_FATTR_RDEV OR NFS_ATTR_FATTR_SIZE OR
     NFS_ATTR_FATTR_FSID OR NFS_ATTR_FATTR_FILEID OR NFS_ATTR_FATTR_ATIME OR NFS_ATTR_FATTR_MTIME OR
     NFS_ATTR_FATTR_CTIME"

definition NFS_ATTR_FATTR_V3 :: u32 where
  "NFS_ATTR_FATTR_V3 = NFS_ATTR_FATTR OR NFS_ATTR_FATTR_SPACE_USED"

definition NFS_ATTR_FATTR_V4 :: u32 where
  "NFS_ATTR_FATTR_V4 = NFS_ATTR_FATTR OR NFS_ATTR_FATTR_SPACE_USED OR 0x20000"

definition nfs_init_fattr :: "nfs_fattr \<Rightarrow> nfs_fattr" where
  "nfs_init_fattr attr = attr\<lparr>fa_valid := 0\<rparr>"

record nfs_inode = hsfs_inode +
  fileid :: u64
  fh :: nfs_fh
  flags :: u64
  attrtimeo :: u64
  cookieverf :: u64

abbreviation NFS_INO_STALE :: u64 where "NFS_INO_STALE \<equiv> 2"

definition set_nfs_fileid :: "u64 \<Rightarrow> nfs_inode \<Rightarrow> nfs_inode" where
  "set_nfs_fileid n i = i\<lparr>fileid := n, real_ino := n\<rparr>"

definition NFS_STALE :: "nfs_inode \<Rightarrow> bool" where
  "NFS_STALE i \<longleftrightarrow> NFS_INO_STALE AND flags i \<noteq> 0"

definition nfs_size_to_off_t :: "u64 \<Rightarrow> u64" where
  "nfs_size_to_off_t sz = (if sz > LLONG_MAX - 1 then LLONG_MAX - 1 else sz)"

text \<open>\<open>blkcnt_t\<close> is signed, so the comparison with \<open>LLONG_MAX\<close> is a signed one.\<close>

definition nfs_calc_block_size :: "u64 \<Rightarrow> u64" where
  "nfs_calc_block_size tsize =
     (let used = drop_bit 9 (tsize + 511)
      in if sint LLONG_MAX < sint used then LLONG_MAX else used)"

definition zero_timespec :: timespec where
  "zero_timespec = \<lparr>tv_sec = 0, tv_nsec = 0\<rparr>"

definition zero_iattr :: hsfs_iattr where
  "zero_iattr = \<lparr>ia_valid = 0, ia_mode = 0, ia_uid = 0, ia_gid = 0, ia_size = 0,
     ia_atime = zero_timespec, ia_mtime = zero_timespec, ia_ctime = zero_timespec\<rparr>"

text \<open>What \<open>bzero\<close> leaves in a \<open>struct nfs_inode\<close>.\<close>

definition zero_nfs_inode :: nfs_inode where
  "zero_nfs_inode = \<lparr>iattr = zero_iattr, i_state = 0, i_nlink = 0, i_blocks = 0, i_private = 0,
     i_count = 0, real_ino = 0, i_blkbits = 0, ino = 0, i_rdev = 0, generation = 0,
     fileid = 0, fh = zero_fh, flags = 0, attrtimeo = 0, cookieverf = 0\<rparr>"

section \<open>The super block\<close>

text \<open>A client handle (\<open>CLIENT *\<close>) is an address, 0 for \<open>NULL\<close>.\<close>

record hsfs_super =
  fh_table :: hashtable
  id_table :: hashtable
  curr_id :: u64
  clntp :: u64
  acl_clntp :: u64
  sb_addr :: u32
  sb_flags :: u32
  rsize :: u32
  wsize :: u32
  timeo :: int
  retrans :: int
  acregmin :: int
  acregmax :: int
  acdirmin :: int
  acdirmax :: int
  namlen :: u32
  dtsize :: u32
  bsize :: u32
  bsize_bits :: u8
  root :: u64
  rtmax :: u32
  rtpref :: u32
  rtmult :: u32
  wtmax :: u32
  wtpref :: u32
  wtmult :: u32
  dtpref :: u32
  maxfilesize :: u64
  time_delta :: timespec
  properties :: u32
  tbytes :: u64
  fbytes :: u64
  abytes :: u64
  tfiles :: u64
  ffiles :: u64
  afiles :: u64
  heap :: "u64 \<Rightarrow> nfs_inode option"

text \<open>Reading and writing an inode through its address; \<open>None\<close> where no inode lives there.\<close>

definition upd_inode :: "u64 \<Rightarrow> (nfs_inode \<Rightarrow> nfs_inode) \<Rightarrow> 'z hsfs_super_scheme \<Rightarrow> 'z hsfs_super_scheme option" where
  "upd_inode p f s =
     do { i \<leftarrow> heap s p; Some (s\<lparr>heap := (heap s)(p := Some (f i))\<rparr>) }"

section \<open>Bounds of the conversions\<close>

lemma sint_nfs_size_to_off_t:
  "sint (nfs_size_to_off_t sz) = min (uint sz) (2 ^ 63 - 2)"
proof -
  have "uint (nfs_size_to_off_t sz) = min (uint sz) (2 ^ 63 - 2)"
    by (auto simp: nfs_size_to_off_t_def word_less_def min_def)
  then show ?thesis
    by (subst sint_eq_uint_if_small) auto
qed

lemma uint_nfs_calc_block_size:
  "uint tsize < 2 ^ 64 - 511 \<Longrightarrow> uint (nfs_calc_block_size tsize) = (uint tsize + 511) div 512"
proof -
  assume *: "uint tsize < 2 ^ 64 - 511"
  then have u: "uint (tsize + 511) = uint tsize + 511"
    by (subst uint_plus_if') auto
  then have d: "uint (drop_bit 9 (tsize + 511)) = (uint tsize + 511) div 512"
    using * by (simp add: unsigned_drop_bit_eq flip: drop_bit_eq_div)
      (simp add: drop_bit_eq_div take_bit_int_eq_self)
  then have "sint (drop_bit 9 (tsize + 511)) = (uint tsize + 511) div 512"
    using * by (subst sint_eq_uint_if_small) auto
  moreover have "sint LLONG_MAX = 2 ^ 63 - 1" by (subst sint_eq_uint_if_small) auto
  ultimately show ?thesis
    using * d by (auto simp: nfs_calc_block_size_def Let_def)
qed

end
