(* ===== verification/Icache.thy ===== *)
theory Icache
  imports Hsfs
begin

text \<open>
  The inode cache, lib/hsfs_inode.c.  \<open>None\<close> is a fault of the program (a pointer to no live inode is
  followed, a signed counter overflows).  The methods of \<open>struct hsfs_super_ops\<close> that the cache calls
  are the record \<open>super_ops\<close>; hsi_nfs_sop of nfs_common, the only instance, has \<open>alloc_inode\<close> and
  \<open>destroy_inode\<close>, so the fall-back branches on plain malloc and free are left out, and no
  \<open>drop_inode\<close>.  \<open>__iget\<close>, \<open>wait_on_inode\<close>, \<open>wake_up_inode\<close> and \<open>generic_delete_inode\<close> have empty bodies.
\<close>

section \<open>The operations\<close>

record 's super_ops =
  alloc_inode_op :: "'s \<Rightarrow> u64 \<times> 's"
  destroy_inode_op :: "u64 \<Rightarrow> 's \<Rightarrow> 's option"
  drop_inode_op :: "(u64 \<Rightarrow> 's \<Rightarrow> 's option) option"

definition hsfs_unlock_new_inode :: "nfs_inode \<Rightarrow> nfs_inode" where
  "hsfs_unlock_new_inode i = i\<lparr>i_state := i_state i AND NOT I_NEW\<rparr>"

definition hsfs_init_icache :: "'z hsfs_super_scheme \<Rightarrow> 'z hsfs_super_scheme" where
  "hsfs_init_icache s = s\<lparr>id_table := hash_init, fh_table := hash_init\<rparr>"

text \<open>The loop of \<open>hash_for_each_possible\<close> that stops at the first inode passing the test.\<close>

fun ifind :: "(u64 \<Rightarrow> nfs_inode option) \<Rightarrow> (nfs_inode \<Rightarrow> bool) \<Rightarrow> u64 list \<Rightarrow> u64 option" where
  "ifind h test [] = Some 0"
| "ifind h test (p # ps) = do { i \<leftarrow> h p; if test i then Some p else ifind h test ps }"

definition id_ifind :: "'z hsfs_super_scheme \<Rightarrow> u64 \<Rightarrow> u64 option" where
  "id_ifind s key = ifind (heap s) (\<lambda>i. ino i = key) (hash_for_each_possible (id_table s) key)"

definition fh_ifind :: "'z hsfs_super_scheme \<Rightarrow> u64 \<Rightarrow> (nfs_inode \<Rightarrow> bool) \<Rightarrow> u64 option" where
  "fh_ifind s key test = ifind (heap s) test (hash_for_each_possible (fh_table s) key)"

definition hsfs_ilookup :: "'z hsfs_super_scheme \<Rightarrow> u64 \<Rightarrow> u64 option" where
  "hsfs_ilookup s n = id_ifind s n"

definition destroy_inode :: "('z hsfs_super_scheme) super_ops \<Rightarrow> u64 \<Rightarrow> 'z hsfs_super_scheme \<Rightarrow> 'z hsfs_super_scheme option" where
  "destroy_inode sop p s = destroy_inode_op sop p s"

definition inode_init_always :: "'z hsfs_super_scheme \<Rightarrow> nfs_inode \<Rightarrow> nfs_inode" where
  "inode_init_always s i =
     i\<lparr>generation := 0, i_private := 0, ino := 0, i_blocks := 0, i_nlink := 1,
       i_blkbits := ucast (bsize_bits s)\<rparr>"

definition alloc_inode :: "('z hsfs_super_scheme) super_ops \<Rightarrow> 'z hsfs_super_scheme \<Rightarrow> (u64 \<times> 'z hsfs_super_scheme) option" where
  "alloc_inode sop s =
     (let (p, s) = alloc_inode_op sop s
      in if p = 0 then Some (0, s)
         else do { s \<leftarrow> upd_inode p (inode_init_always s) s; Some (p, s) })"

text \<open>The \<open>do ... while\<close> loop of \<open>__inode_add_to_lists\<close>.\<close>

definition next_id :: "u64 \<Rightarrow> u64" where
  "next_id c = (if c + 1 = 0 then 2 else c + 1)"

partial_function (option) new_id :: "'z hsfs_super_scheme \<Rightarrow> 'z hsfs_super_scheme option" where
  "new_id s =
     (let s = s\<lparr>curr_id := next_id (curr_id s)\<rparr>
      in do { p \<leftarrow> id_ifind s (curr_id s);
              if p \<noteq> 0 then new_id s else Some s })"

definition inode_add_to_lists :: "u64 \<Rightarrow> u64 \<Rightarrow> 'z hsfs_super_scheme \<Rightarrow> 'z hsfs_super_scheme option" where
  "inode_add_to_lists key p s =
     do { s \<leftarrow> new_id s;
          s \<leftarrow> upd_inode p (\<lambda>i. i\<lparr>ino := curr_id s\<rparr>) s;
          i \<leftarrow> heap s p;
          let s = s\<lparr>id_table := hash_add (ino i) p (id_table s)\<rparr>;
          Some (s\<lparr>fh_table := hash_add key p (fh_table s)\<rparr>) }"

text \<open>\<open>setf\<close>, the callback \<open>set\<close>, returns its result code with the inode it has filled in.\<close>

definition get_new_inode ::
  "('z hsfs_super_scheme) super_ops \<Rightarrow> u64 \<Rightarrow> (nfs_inode \<Rightarrow> (int \<times> nfs_inode) option) \<Rightarrow>
   'z hsfs_super_scheme \<Rightarrow> (u64 \<times> 'z hsfs_super_scheme) option" where
  "get_new_inode sop key setf s =
     do { (p, s) \<leftarrow> alloc_inode sop s;
          if p \<noteq> 0 then do {
            i \<leftarrow> heap s p;
            (r, i) \<leftarrow> setf i;
            let s = s\<lparr>heap := (heap s)(p \<mapsto> i)\<rparr>;
            if r \<noteq> 0 then do { s \<leftarrow> destroy_inode sop p s; Some (0, s) }
            else do {
              s \<leftarrow> inode_add_to_lists key p s;
              s \<leftarrow> upd_inode p (\<lambda>i. i\<lparr>i_state := I_NEW\<rparr>) s;
              Some (p, s) } }
          else Some (0, s) }"

definition hsfs_iget5_locked ::
  "('z hsfs_super_scheme) super_ops \<Rightarrow> u64 \<Rightarrow> (nfs_inode \<Rightarrow> bool) \<Rightarrow>
   (nfs_inode \<Rightarrow> (int \<times> nfs_inode) option) \<Rightarrow> 'z hsfs_super_scheme \<Rightarrow> (u64 \<times> 'z hsfs_super_scheme) option" where
  "hsfs_iget5_locked sop hashval test setf s =
     do { p \<leftarrow> fh_ifind s hashval test;
          if p \<noteq> 0 then Some (p, s) else get_new_inode sop hashval setf s }"

definition generic_drop_inode :: "('z hsfs_super_scheme) super_ops \<Rightarrow> u64 \<Rightarrow> 'z hsfs_super_scheme \<Rightarrow> 'z hsfs_super_scheme option" where
  "generic_drop_inode sop p s =
     do { i \<leftarrow> heap s p;
          if i_nlink i = 0 then Some s else destroy_inode sop p s }"

definition iput_final :: "('z hsfs_super_scheme) super_ops \<Rightarrow> u64 \<Rightarrow> 'z hsfs_super_scheme \<Rightarrow> 'z hsfs_super_scheme option" where
  "iput_final sop p s =
     (case drop_inode_op sop of Some dropf \<Rightarrow> dropf p s | None \<Rightarrow> generic_drop_inode sop p s)"

text \<open>\<open>i_count\<close> is an \<open>int\<close>: decrementing its least value is a signed overflow.\<close>

definition hsfs_iput :: "('z hsfs_super_scheme) super_ops \<Rightarrow> u64 \<Rightarrow> 'z hsfs_super_scheme \<Rightarrow> 'z hsfs_super_scheme option" where
  "hsfs_iput sop p s =
     (if p = 0 then Some s
      else do { i \<leftarrow> heap s p;
                if i_count i = - (2 ^ 31) then None
                else do {
                  s \<leftarrow> upd_inode p (\<lambda>i. i\<lparr>i_count := i_count i - 1\<rparr>) s;
                  if i_count i - 1 = 0 then iput_final sop p s else Some s } })"

section \<open>The invariant\<close>

text \<open>Every inode of the heap hangs in both tables, in the chains of its number and of its file
  identifier; no two share a number; no number and no address is 0; no reference is ever counted;
  addresses are aligned as the type requires.\<close>

definition hashed_by :: "(nfs_inode \<Rightarrow> u64) \<Rightarrow> (u64 \<Rightarrow> nfs_inode option) \<Rightarrow> hashtable \<Rightarrow> bool" where
  "hashed_by key h t \<longleftrightarrow>
     (\<forall>b < 1024. \<forall>p \<in> set (t b). \<exists>i. h p = Some i \<and> bucket (key i) = b) \<and>
     (\<forall>p i. h p = Some i \<longrightarrow> p \<in> set (t (bucket (key i))))"

definition unique_ino :: "(u64 \<Rightarrow> nfs_inode option) \<Rightarrow> bool" where
  "unique_ino h \<longleftrightarrow> (\<forall>p q i j. h p = Some i \<longrightarrow> h q = Some j \<longrightarrow> ino i = ino j \<longrightarrow> p = q)"

definition cells_ok :: "(u64 \<Rightarrow> nfs_inode option) \<Rightarrow> bool" where
  "cells_ok h \<longleftrightarrow> (\<forall>p i. h p = Some i \<longrightarrow> ino i \<noteq> 0 \<and> i_count i \<le> 0 \<and> p AND 7 = 0)"

definition icache_ok :: "'z hsfs_super_scheme \<Rightarrow> bool" where
  "icache_ok s \<longleftrightarrow>
     heap s 0 = None \<and>
     hashed_by ino (heap s) (id_table s) \<and> hashed_by fileid (heap s) (fh_table s) \<and>
     cells_ok (heap s) \<and> unique_ino (heap s)"


section \<open>Searching the chains\<close>

lemma ifind_live:
  "(\<And>p. p \<in> set ps \<Longrightarrow> h p \<noteq> None) \<Longrightarrow>
   ifind h test ps = Some (case find (\<lambda>p. test (the (h p))) ps of None \<Rightarrow> 0 | Some p \<Rightarrow> p)"
proof (induction ps)
  case (Cons p ps)
  then obtain i where "h p = Some i" by fastforce
  then show ?case using Cons by simp
qed simp

lemma hashed_by_live:
  "hashed_by key h t \<Longrightarrow> p \<in> set (t (bucket k)) \<Longrightarrow> \<exists>i. h p = Some i \<and> bucket (key i) = bucket k"
  using bucket_less by (auto simp: hashed_by_def)

lemma hashed_by_in: "hashed_by key h t \<Longrightarrow> h p = Some i \<Longrightarrow> p \<in> set (t (bucket (key i)))"
  by (auto simp: hashed_by_def)

lemma ifind_chain:
  assumes "hashed_by key h t"
  shows "ifind h test (hash_for_each_possible t k) =
    Some (case find (\<lambda>p. test (the (h p))) (t (bucket k)) of None \<Rightarrow> 0 | Some p \<Rightarrow> p)"
proof -
  have "h p \<noteq> None" if "p \<in> set (t (bucket k))" for p
    using hashed_by_live [OF assms that] by auto
  then show ?thesis by (simp add: hash_for_each_possible_def ifind_live)
qed

text \<open>A search for a test that pins the key finds the one inode that passes it, or nothing.\<close>

lemma ifind_unique:
  assumes "hashed_by key h t" "h p = Some i" "test i" "key i = k"
    and "\<And>q j. h q = Some j \<Longrightarrow> test j \<Longrightarrow> q = p"
  shows "ifind h test (hash_for_each_possible t k) = Some p"
proof -
  have "find (\<lambda>p. test (the (h p))) (t (bucket k)) \<noteq> None"
    using hashed_by_in [OF assms(1,2)] assms(2,3,4) by (auto simp: find_None_iff)
  then obtain q where q: "find (\<lambda>p. test (the (h p))) (t (bucket k)) = Some q" by blast
  then have "q \<in> set (t (bucket k))" "test (the (h q))"
    by (auto simp: find_Some_iff)
  then have "q = p"
    using hashed_by_live [OF assms(1)] assms(5) by fastforce
  then show ?thesis using q by (simp add: ifind_chain [OF assms(1)])
qed

lemma ifind_absent:
  assumes "hashed_by key h t" "\<And>q j. h q = Some j \<Longrightarrow> key j = k \<Longrightarrow> \<not> test j"
    and "\<And>j. test j \<Longrightarrow> key j = k"
  shows "ifind h test (hash_for_each_possible t k) = Some 0"
proof -
  have "\<not> test (the (h p))" if in_chain: "p \<in> set (t (bucket k))" for p
  proof -
    obtain i where "h p = Some i" using hashed_by_live [OF assms(1) in_chain] by blast
    then show ?thesis using assms(2) [of p i] assms(3) [of i] by auto
  qed
  then have "find (\<lambda>p. test (the (h p))) (t (bucket k)) = None"
    by (auto simp: find_None_iff)
  then show ?thesis by (simp add: ifind_chain [OF assms(1)])
qed

text \<open>A frame: what is outside the chains of the table does not matter to a search.\<close>

lemma ifind_cong:
  "(\<And>p. p \<in> set ps \<Longrightarrow> h p = h' p) \<Longrightarrow> ifind h test ps = ifind h' test ps"
  by (induction ps) (auto intro: Option.bind_cong)

lemma icache_ok_D:
  assumes "icache_ok s"
  shows "heap s p = Some i \<Longrightarrow> p AND 7 = 0" "heap s 0 = None" "hashed_by ino (heap s) (id_table s)"
    "hashed_by fileid (heap s) (fh_table s)" "heap s p = Some i \<Longrightarrow> ino i \<noteq> 0"
    "heap s p = Some i \<Longrightarrow> i_count i \<le> 0"
    "heap s p = Some i \<Longrightarrow> heap s q = Some j \<Longrightarrow> ino i = ino j \<Longrightarrow> p = q"
  using assms unfolding icache_ok_def cells_ok_def unique_ino_def by blast+

lemma id_ifind_hit:
  assumes "icache_ok s" "heap s p = Some i"
  shows "id_ifind s (ino i) = Some p"
  unfolding id_ifind_def
  using icache_ok_D(7) [OF assms(1) _ assms(2)]
  by (intro ifind_unique [where key = ino and i = i] icache_ok_D(3) assms) auto

lemma id_ifind_miss:
  assumes "icache_ok s" "\<And>p i. heap s p = Some i \<Longrightarrow> ino i \<noteq> n"
  shows "id_ifind s n = Some 0"
  unfolding id_ifind_def
  by (rule ifind_absent [where key = ino]) (use assms(2) icache_ok_D(3) [OF assms(1)] in auto)

text \<open>\<open>hsfs_ilookup\<close> is exactly "the inode with this number".\<close>

lemma ilookup_iff:
  assumes "icache_ok s" "p \<noteq> 0"
  shows "hsfs_ilookup s n = Some p \<longleftrightarrow> (\<exists>i. heap s p = Some i \<and> ino i = n)"
proof (cases "\<exists>q j. heap s q = Some j \<and> ino j = n")
  case True
  then obtain q j where q: "heap s q = Some j" "ino j = n" by blast
  have "p = q" if "heap s p = Some i" "ino i = n" for i
    using icache_ok_D(7) [OF assms(1) that(1) q(1)] that(2) q(2) by simp
  then show ?thesis
    using id_ifind_hit [OF assms(1) q(1)] q by (auto simp: hsfs_ilookup_def)
next
  case False
  then have "id_ifind s n = Some 0" by (intro id_ifind_miss [OF assms(1)]) blast
  then show ?thesis using False assms(2) by (auto simp: hsfs_ilookup_def)
qed

lemma hashed_by_nodes: "hashed_by key h t \<Longrightarrow> hash_nodes t = dom h"
proof (rule set_eqI)
  fix p
  assume h: "hashed_by key h t"
  show "p \<in> hash_nodes t \<longleftrightarrow> p \<in> dom h"
    using h bucket_less by (fastforce simp: hash_nodes_def hashed_by_def)
qed

lemma hashed_by_add:
  assumes "hashed_by key h t" "h p = None" "p \<noteq> 0" "key i = k"
  shows "hashed_by key (h(p \<mapsto> i)) (hash_add k p t)"
proof -
  have "\<exists>j. (h(p \<mapsto> i)) q = Some j \<and> bucket (key j) = b"
    if "b < 1024" "q \<in> set (hash_add k p t b)" for b q
  proof (cases "q = p")
    case True
    have "p \<notin> set (t b)" using assms(1,2) that(1) by (fastforce simp: hashed_by_def)
    then show ?thesis using True that assms(4) by (auto simp: hash_add_def split: if_splits)
  next
    case False
    then have "q \<in> set (t b)" using that by (auto simp: hash_add_def split: if_splits)
    then show ?thesis using False assms(1) that(1) by (auto simp: hashed_by_def)
  qed
  moreover have "q \<in> set (hash_add k p t (bucket (key j)))" if "(h(p \<mapsto> i)) q = Some j" for q j
    using that assms(4) hashed_by_in [OF assms(1), of q j]
    by (cases "q = p"; cases "bucket (key j) = bucket k") (simp_all add: hash_add_def)
  ultimately show ?thesis unfolding hashed_by_def by blast
qed

lemma hashed_by_upd:
  assumes "hashed_by key h t" "h p = Some i" "key i' = key i"
  shows "hashed_by key (h(p \<mapsto> i')) t"
proof -
  have "\<exists>j. (h(p \<mapsto> i')) q = Some j \<and> bucket (key j) = b" if "b < 1024" "q \<in> set (t b)" for b q
    using assms that by (cases "q = p") (fastforce simp: hashed_by_def)+
  moreover have "q \<in> set (t (bucket (key j)))" if "(h(p \<mapsto> i')) q = Some j" for q j
    using that assms hashed_by_in [OF assms(1)] by (auto split: if_splits)
  ultimately show ?thesis unfolding hashed_by_def by blast
qed


section \<open>The loop for a free number\<close>

text \<open>The numbers the loop tries run through all words but 0, skipping 1 after a wrap-around, so the
  first \<open>2^64 - 2\<close> of them are different.\<close>

definition nth_id :: "u64 \<Rightarrow> nat \<Rightarrow> nat" where
  "nth_id c k = (if unat c + k < 2 ^ 64 then unat c + k else unat c + k - 2 ^ 64 + 2)"

lemma unat_next_id: "unat (next_id c) = (if unat c + 1 < 2 ^ 64 then unat c + 1 else 2)"
proof (cases "c = - 1")
  case True
  then show ?thesis by (simp add: next_id_def unsigned_minus_1_eq_mask mask_eq_exp_minus_1)
next
  case False
  then have "c + 1 \<noteq> 0" by (metis add.inverse_unique add.commute)
  moreover from this have "unat (c + 1) = unat c + 1" by (simp add: unatSuc add.commute)
  moreover have "unat (c + 1) < 2 ^ 64" using unat_u64_less [of "c + 1"] by simp
  ultimately show ?thesis by (simp add: next_id_def)
qed

lemma unat_funpow_next_id: "k \<le> 2 ^ 64 - 2 \<Longrightarrow> unat ((next_id ^^ k) c) = nth_id c k"
proof (induction k)
  case 0
  then show ?case using unat_u64_less [of c] by (simp add: nth_id_def)
next
  case (Suc k)
  then have "unat ((next_id ^^ k) c) = nth_id c k" by simp
  then show ?case
    using Suc.prems unat_u64_less [of c] by (auto simp: unat_next_id nth_id_def)
qed

lemma inj_on_next_id: "inj_on (\<lambda>k. (next_id ^^ k) c) {1..2 ^ 64 - 2}"
proof (rule inj_onI)
  fix j k :: nat
  assume jk: "j \<in> {1..2 ^ 64 - 2}" "k \<in> {1..2 ^ 64 - 2}" "(next_id ^^ j) c = (next_id ^^ k) c"
  then have "nth_id c j = nth_id c k" by (metis atLeastAtMost_iff unat_funpow_next_id)
  then show "j = k"
    using jk(1,2) unat_u64_less [of c] by (auto simp: nth_id_def split: if_splits)
qed

lemma funpow_next_id_nonzero: "0 < k \<Longrightarrow> (next_id ^^ k) c \<noteq> 0"
  by (cases k) (simp_all add: next_id_def)

lemma free_id_exists:
  assumes "finite U" "card U < 2 ^ 64 - 2"
  shows "\<exists>k \<ge> 1. (next_id ^^ k) c \<notin> U"
proof (rule ccontr)
  assume "\<not> ?thesis"
  then have "(\<lambda>k. (next_id ^^ k) c) ` {1..2 ^ 64 - 2} \<subseteq> U" by auto
  then have "card ((\<lambda>k. (next_id ^^ k) c) ` {1..2 ^ 64 - 2}) \<le> card U"
    by (rule card_mono [OF assms(1)])
  then show False
    using assms(2) card_image [OF inj_on_next_id, of c] by simp
qed

text \<open>The loop runs until the first number that no inode has.\<close>

lemma new_id_steps:
  assumes "k \<ge> 1" "id_ifind s ((next_id ^^ k) (curr_id s)) = Some 0"
    and "\<And>j. 1 \<le> j \<Longrightarrow> j < k \<Longrightarrow> \<exists>p. p \<noteq> 0 \<and> id_ifind s ((next_id ^^ j) (curr_id s)) = Some p"
  shows "new_id s = Some (s\<lparr>curr_id := (next_id ^^ k) (curr_id s)\<rparr>)"
  using assms
proof (induction k arbitrary: s)
  case 0
  then show ?case by simp
next
  case (Suc k)
  let ?s = "s\<lparr>curr_id := next_id (curr_id s)\<rparr>"
  have find: "id_ifind ?s n = id_ifind s n" for n by (simp add: id_ifind_def)
  show ?case
  proof (cases "k = 0")
    case True
    then show ?thesis using Suc.prems(2) by (subst new_id.simps) (simp add: find)
  next
    case False
    obtain p where p: "p \<noteq> 0" "id_ifind s (next_id (curr_id s)) = Some p"
      using Suc.prems(3) [of 1] False by auto
    have "new_id ?s = Some (?s\<lparr>curr_id := (next_id ^^ k) (curr_id ?s)\<rparr>)"
    proof (rule Suc.IH)
      show "id_ifind ?s ((next_id ^^ k) (curr_id ?s)) = Some 0"
        using Suc.prems(2) by (simp add: find funpow_swap1)
      fix j
      assume "1 \<le> j" "j < k"
      then show "\<exists>p. p \<noteq> 0 \<and> id_ifind ?s ((next_id ^^ j) (curr_id ?s)) = Some p"
        using Suc.prems(3) [of "Suc j"] by (simp add: find funpow_swap1)
    qed (use False in simp)
    then show ?thesis
      using p by (subst new_id.simps) (simp add: find funpow_swap1)
  qed
qed


text \<open>An inode that is not yet hashed is invisible to the searches.\<close>

lemma id_ifind_unhashed:
  assumes "icache_ok s" "heap s p = None"
  shows "id_ifind (s\<lparr>heap := (heap s)(p \<mapsto> i)\<rparr>) n = id_ifind s n"
proof -
  have "p \<notin> set (id_table s (bucket n))"
    using hashed_by_live [OF icache_ok_D(3) [OF assms(1)], of p n] assms(2) by auto
  then have "ifind ((heap s)(p \<mapsto> i)) test (id_table s (bucket n)) =
      ifind (heap s) test (id_table s (bucket n))" for test
    by (intro ifind_cong) auto
  then show ?thesis by (simp add: id_ifind_def hash_for_each_possible_def)
qed

text \<open>\<open>k\<close> is the number of rounds the loop runs: every number tried before the last is in use.\<close>

definition free_round :: "'z hsfs_super_scheme \<Rightarrow> nat \<Rightarrow> bool" where
  "free_round s k \<longleftrightarrow> k \<ge> 1 \<and>
     (\<forall>q j. heap s q = Some j \<longrightarrow> ino j \<noteq> (next_id ^^ k) (curr_id s)) \<and>
     (\<forall>m. 1 \<le> m \<longrightarrow> m < k \<longrightarrow> (\<exists>q j. heap s q = Some j \<and> ino j = (next_id ^^ m) (curr_id s)))"

text \<open>Aligned addresses leave room for numbers: there are fewer inodes than numbers.\<close>

lemma card_even_words:
  assumes "\<And>p. p \<in> S \<Longrightarrow> \<not> bit (p :: u64) 0"
  shows "card S \<le> 2 ^ 63"
proof -
  have "p + 1 \<notin> S" if "p \<in> S" for p
    using assms [OF that] assms [of "p + 1"] by (auto simp: bit_0)
  then have "S \<inter> (\<lambda>p. p + 1) ` S = {}" by auto
  then have "card (S \<union> (\<lambda>p. p + 1) ` S) = card S + card ((\<lambda>p. p + 1) ` S)"
    by (intro card_Un_disjoint) auto
  also have "card ((\<lambda>p. p + 1) ` S) = card S" by (intro card_image inj_onI) simp
  finally have "2 * card S = card (S \<union> (\<lambda>p. p + 1) ` S)" by simp
  also have "\<dots> \<le> CARD(u64)" by (rule card_mono) auto
  also have "CARD(u64) = 2 ^ 64" by (simp add: card_word)
  finally show ?thesis by simp
qed

lemma card_aligned: "card {p :: u64. p AND 7 = 0} \<le> 2 ^ 63"
proof (rule card_even_words)
  fix p :: u64
  assume "p \<in> {p. p AND 7 = 0}"
  then have "bit (p AND 7) 0 = False" by simp
  then show "\<not> bit p 0" by (simp add: bit_and_iff)
qed

lemma icache_room: "icache_ok s \<Longrightarrow> card (dom (heap s)) < 2 ^ 64 - 2"
proof -
  assume "icache_ok s"
  then have "dom (heap s) \<subseteq> {p. p AND 7 = 0}" using icache_ok_D(1) by blast
  then have "card (dom (heap s)) \<le> card {p :: u64. p AND 7 = 0}" by (intro card_mono) auto
  also have "\<dots> \<le> 2 ^ 63" by (rule card_aligned)
  finally show ?thesis by simp
qed

lemma free_round_exists:
  assumes "icache_ok s"
  shows "\<exists>k. free_round s k"
proof -
  let ?U = "(\<lambda>q. ino (the (heap s q))) ` dom (heap s)"
  let ?P = "\<lambda>k. k \<ge> 1 \<and> (next_id ^^ k) (curr_id s) \<notin> ?U"
  have fin: "finite (dom (heap s))" by simp
  then have "card ?U < 2 ^ 64 - 2" using card_image_le [OF fin] icache_room [OF assms(1)] by (meson le_less_trans)
  then obtain k where "?P k" using free_id_exists [of ?U "curr_id s"] fin by blast
  then have "?P (LEAST k. ?P k)" "\<And>m. m < (LEAST k. ?P k) \<Longrightarrow> \<not> ?P m"
    by (rule LeastI, metis (mono_tags, lifting) not_less_Least)
  moreover have "n \<in> ?U \<longleftrightarrow> (\<exists>q j. heap s q = Some j \<and> ino j = n)" for n by force
  ultimately have "free_round s (LEAST k. ?P k)"
    unfolding free_round_def by blast
  then show ?thesis ..
qed

lemma new_id_ok:
  assumes "icache_ok s" "heap s p = None" "free_round s k"
  shows "new_id (s\<lparr>heap := (heap s)(p \<mapsto> i)\<rparr>) =
    Some (s\<lparr>heap := (heap s)(p \<mapsto> i), curr_id := (next_id ^^ k) (curr_id s)\<rparr>)"
proof -
  let ?s = "s\<lparr>heap := (heap s)(p \<mapsto> i)\<rparr>"
  have find: "id_ifind ?s n = id_ifind s n" for n
    by (rule id_ifind_unhashed [OF assms(1,2)])
  have "id_ifind s ((next_id ^^ k) (curr_id s)) = Some 0"
    using assms(3) by (intro id_ifind_miss [OF assms(1)]) (auto simp: free_round_def)
  moreover have "\<exists>q. q \<noteq> 0 \<and> id_ifind s ((next_id ^^ m) (curr_id s)) = Some q" if m: "1 \<le> m" "m < k" for m
  proof -
    obtain q j where q: "heap s q = Some j" "ino j = (next_id ^^ m) (curr_id s)"
      using assms(3) m unfolding free_round_def by blast
    then have "q \<noteq> 0" using icache_ok_D(2) [OF assms(1)] by auto
    then show ?thesis using q id_ifind_hit [OF assms(1) q(1)] by auto
  qed
  ultimately have "new_id ?s = Some (?s\<lparr>curr_id := (next_id ^^ k) (curr_id ?s)\<rparr>)"
    using assms(3) by (intro new_id_steps) (auto simp: find free_round_def)
  then show ?thesis by simp
qed

section \<open>Getting an inode\<close>

text \<open>The state after \<open>get_new_inode\<close> has put the inode \<open>i\<close> at the fresh address \<open>p\<close>.\<close>

definition with_new_inode :: "u64 \<Rightarrow> u64 \<Rightarrow> u64 \<Rightarrow> nfs_inode \<Rightarrow> 'z hsfs_super_scheme \<Rightarrow> 'z hsfs_super_scheme" where
  "with_new_inode key p c i s =
     s\<lparr>curr_id := c, heap := (heap s)(p \<mapsto> i\<lparr>ino := c, i_state := I_NEW\<rparr>),
       id_table := hash_add c p (id_table s), fh_table := hash_add key p (fh_table s)\<rparr>"

lemma get_new_inode_ok:
  assumes "icache_ok s" "free_round s k" "heap s p = None" "p \<noteq> 0"
    and "alloc_inode_op sop s = (p, s\<lparr>heap := (heap s)(p \<mapsto> i0)\<rparr>)"
    and "setf (inode_init_always s i0) = Some (0, i)"
  shows "get_new_inode sop key setf s = Some (p, with_new_inode key p ((next_id ^^ k) (curr_id s)) i s)"
proof -
  have "inode_init_always (s\<lparr>heap := h\<rparr>) = inode_init_always s" for h
    by (simp add: inode_init_always_def fun_eq_iff)
  then have "alloc_inode sop s = Some (p, s\<lparr>heap := (heap s)(p \<mapsto> inode_init_always s i0)\<rparr>)"
    using assms(4,5) by (simp add: alloc_inode_def upd_inode_def)
  then show ?thesis
    using assms(4,6) new_id_ok [OF assms(1,3,2), of i]
    by (simp add: get_new_inode_def inode_add_to_lists_def upd_inode_def with_new_inode_def)
qed

lemma unique_ino_upd:
  assumes "\<And>q r i j. h q = Some i \<Longrightarrow> h r = Some j \<Longrightarrow> ino i = ino j \<Longrightarrow> q = r"
    and "\<And>q j. q \<noteq> p \<Longrightarrow> h q = Some j \<Longrightarrow> ino j \<noteq> ino i'"
  shows "unique_ino (h(p \<mapsto> i'))"
  unfolding unique_ino_def
proof (intro allI impI)
  fix q r i j
  assume q: "(h(p \<mapsto> i')) q = Some i" and r: "(h(p \<mapsto> i')) r = Some j" and eq: "ino i = ino j"
  consider "q = p" "r = p" | "q = p" "r \<noteq> p" | "q \<noteq> p" "r = p" | "q \<noteq> p" "r \<noteq> p" by blast
  then show "q = r"
  proof cases
    case 2
    then show ?thesis using assms(2) [of r j] q r eq by simp
  next
    case 3
    then show ?thesis using assms(2) [of q i] q r eq by simp
  next
    case 4
    then show ?thesis using assms(1) [of q i r j] q r eq by simp
  qed simp
qed

lemma icache_ok_with_new_inode:
  assumes "icache_ok s" "free_round s k" "heap s p = None" "p \<noteq> 0"
    and "fileid i = key" "i_count i \<le> 0" "p AND 7 = 0"
  shows "icache_ok (with_new_inode key p ((next_id ^^ k) (curr_id s)) i s)"
proof -
  let ?c = "(next_id ^^ k) (curr_id s)"
  let ?h = "(heap s)(p \<mapsto> i\<lparr>ino := ?c, i_state := I_NEW\<rparr>)"
  have c: "?c \<noteq> 0" "\<And>q j. heap s q = Some j \<Longrightarrow> ino j \<noteq> ?c"
    using assms(2) funpow_next_id_nonzero by (auto simp: free_round_def)
  note D = icache_ok_D [OF assms(1)]
  have "hashed_by ino ?h (hash_add ?c p (id_table s))"
    by (rule hashed_by_add [OF D(3) assms(3,4)]) simp
  moreover have "hashed_by fileid ?h (hash_add key p (fh_table s))"
    by (rule hashed_by_add [OF D(4) assms(3,4)]) (simp add: assms(5))
  moreover have "cells_ok ?h"
    using c(1) assms(6,7) D(1,5,6) by (simp add: cells_ok_def)
  moreover have "unique_ino ?h"
    by (rule unique_ino_upd, rule D(7), assumption+) (simp add: c(2))
  ultimately show ?thesis
    using D(2) assms(4) unfolding icache_ok_def with_new_inode_def by simp
qed

text \<open>Rewriting an inode in place, keeping its number and file identifier.\<close>

lemma icache_ok_upd:
  assumes "icache_ok s" "heap s p = Some i"
    and "ino i' = ino i" "fileid i' = fileid i" "i_count i' \<le> 0"
  shows "icache_ok (s\<lparr>heap := (heap s)(p \<mapsto> i')\<rparr>)"
proof -
  note D = icache_ok_D [OF assms(1)]
  have "hashed_by ino ((heap s)(p \<mapsto> i')) (id_table s)"
    using hashed_by_upd [OF D(3) assms(2,3)] .
  moreover have "hashed_by fileid ((heap s)(p \<mapsto> i')) (fh_table s)"
    using hashed_by_upd [OF D(4) assms(2,4)] .
  moreover have "cells_ok ((heap s)(p \<mapsto> i'))"
    using assms(2,3,5) D(1,5,6) by (simp add: cells_ok_def)
  moreover have "unique_ino ((heap s)(p \<mapsto> i'))"
    by (rule unique_ino_upd, rule D(7), assumption+) (metis D(7) assms(2,3))
  moreover have "p \<noteq> 0" using assms(2) D(2) by auto
  ultimately show ?thesis using D(2) unfolding icache_ok_def by simp
qed

lemma icache_ok_init:
  "heap s = Map.empty \<Longrightarrow> icache_ok (hsfs_init_icache s)"
  by (simp add: icache_ok_def hsfs_init_icache_def hashed_by_def hash_init_def cells_ok_def unique_ino_def)

text \<open>The reference counter starts at 0 and is only ever decremented, so a put never frees.\<close>

lemma hsfs_iput_ok:
  assumes "icache_ok s" "heap s p = Some i" "- (2 ^ 31) < i_count i"
  shows "hsfs_iput sop p s = Some (s\<lparr>heap := (heap s)(p \<mapsto> i\<lparr>i_count := i_count i - 1\<rparr>)\<rparr>)"
    "icache_ok (s\<lparr>heap := (heap s)(p \<mapsto> i\<lparr>i_count := i_count i - 1\<rparr>)\<rparr>)"
proof -
  have "p \<noteq> 0" "i_count i \<le> 0" using assms icache_ok_D(2,6) [OF assms(1)] by auto
  then show "hsfs_iput sop p s = Some (s\<lparr>heap := (heap s)(p \<mapsto> i\<lparr>i_count := i_count i - 1\<rparr>)\<rparr>)"
    using assms(2,3) by (simp add: hsfs_iput_def upd_inode_def)
  show "icache_ok (s\<lparr>heap := (heap s)(p \<mapsto> i\<lparr>i_count := i_count i - 1\<rparr>)\<rparr>)"
    using \<open>i_count i \<le> 0\<close> by (intro icache_ok_upd [OF assms(1,2)]) auto
qed

end
