(* ===== verification/Nfs_Inode.thy ===== *)
theory Nfs_Inode
  imports Icache
begin

text \<open>
  The part of nfs_common/hsi_nfs_inode.c that is compiled: the bridge from file handles and server
  attributes to cached inodes.  \<open>malloc\<close> is a function of the state that gives the address of a new
  inode, 0 when there is no memory.  \<open>bad\<close> is the address of \<open>bad_hsfs_inode\<close>.
\<close>

section \<open>Finding and initialising\<close>

definition nfs_find_actor :: "nfs_fh \<Rightarrow> nfs_fattr \<Rightarrow> nfs_inode \<Rightarrow> bool" where
  "nfs_find_actor f fattr i \<longleftrightarrow>
     \<not> fileid i \<noteq> fa_fileid fattr \<and> \<not> nfs_compare_fh (fh i) f \<and> \<not> (is_bad_inode i \<or> NFS_STALE i)"

definition nfs_init_locked :: "nfs_fh \<Rightarrow> nfs_fattr \<Rightarrow> nfs_inode \<Rightarrow> (int \<times> nfs_inode) option" where
  "nfs_init_locked f fattr i =
     (let i = set_nfs_fileid (fa_fileid fattr) i
      in do { g \<leftarrow> nfs_copy_fh (fh i) f; Some (0, i\<lparr>fh := g\<rparr>) })"

definition nfs_alloc_inode :: "('z hsfs_super_scheme \<Rightarrow> u64) \<Rightarrow> 'z hsfs_super_scheme \<Rightarrow> u64 \<times> 'z hsfs_super_scheme" where
  "nfs_alloc_inode malloc s =
     (let p = malloc s
      in if p = 0 then (0, s) else (p, s\<lparr>heap := (heap s)(p \<mapsto> zero_nfs_inode)\<rparr>))"

definition nfs_destroy_inode :: "u64 \<Rightarrow> 'z hsfs_super_scheme \<Rightarrow> 'z hsfs_super_scheme option" where
  "nfs_destroy_inode p s = do { _ \<leftarrow> heap s p; Some (s\<lparr>heap := (heap s)(p := None)\<rparr>) }"

definition hsi_nfs_sop :: "('z hsfs_super_scheme \<Rightarrow> u64) \<Rightarrow> ('z hsfs_super_scheme) super_ops" where
  "hsi_nfs_sop malloc =
     \<lparr>alloc_inode_op = nfs_alloc_inode malloc, destroy_inode_op = nfs_destroy_inode, drop_inode_op = None\<rparr>"

section \<open>Attributes\<close>

text \<open>\<open>du\<close> is a union: \<open>du.nfs2.blocks\<close> is the upper half of \<open>du.nfs3.used\<close>.\<close>

definition fattr_blocks :: "nfs_fattr \<Rightarrow> u64" where
  "fattr_blocks fattr =
     (if fa_valid fattr AND (NFS_ATTR_FATTR_V3 OR NFS_ATTR_FATTR_V4) \<noteq> 0
      then nfs_calc_block_size (fa_used fattr) else drop_bit 32 (fa_used fattr))"

definition nfs_update_inode :: "nfs_fattr \<Rightarrow> nfs_inode \<Rightarrow> int \<times> nfs_inode" where
  "nfs_update_inode fattr i =
     (if fileid i \<noteq> fa_fileid fattr then (- ESTALE, i)
      else if i_mode i AND S_IFMT \<noteq> fa_mode fattr AND S_IFMT then (- ESTALE, i)
      else (0, i\<lparr>iattr := (iattr i)\<lparr>ia_size := nfs_size_to_off_t (fa_size fattr),
                   ia_mtime := fa_mtime fattr, ia_ctime := fa_ctime fattr, ia_atime := fa_atime fattr,
                   ia_mode := fa_mode fattr, ia_uid := fa_uid fattr, ia_gid := fa_gid fattr\<rparr>,
                 i_nlink := fa_nlink fattr, i_blocks := fattr_blocks fattr\<rparr>))"

definition refresh :: "nfs_fattr \<Rightarrow> nfs_inode \<Rightarrow> int \<times> nfs_inode" where
  "refresh fattr i =
     (if fa_valid fattr AND NFS_ATTR_FATTR = 0 then (0, i) else nfs_update_inode fattr i)"

definition nfs_refresh_inode :: "u64 \<Rightarrow> nfs_fattr \<Rightarrow> 'z hsfs_super_scheme \<Rightarrow> (int \<times> 'z hsfs_super_scheme) option" where
  "nfs_refresh_inode p fattr s =
     do { i \<leftarrow> heap s p;
          let (status, i) = refresh fattr i;
          Some (status, s\<lparr>heap := (heap s)(p \<mapsto> i)\<rparr>) }"

text \<open>The branch of \<open>hsi_nfs_fhget\<close> for an inode in state \<open>I_NEW\<close>.\<close>

definition fill_new :: "nfs_fattr \<Rightarrow> nfs_inode \<Rightarrow> nfs_inode" where
  "fill_new fattr i =
     (let i = set_nfs_fileid (fa_fileid fattr) i;
          i = i\<lparr>iattr := (iattr i)\<lparr>ia_mode := fa_mode fattr, ia_atime := fa_atime fattr,
                  ia_mtime := fa_mtime fattr, ia_ctime := fa_ctime fattr,
                  ia_size := nfs_size_to_off_t (fa_size fattr),
                  ia_uid := fa_uid fattr, ia_gid := fa_gid fattr\<rparr>,
                i_nlink := fa_nlink fattr, i_blocks := fattr_blocks fattr\<rparr>
      in hsfs_unlock_new_inode i)"

definition hsi_nfs_fhget ::
  "u64 \<Rightarrow> ('z hsfs_super_scheme) super_ops \<Rightarrow> nfs_fh \<Rightarrow> nfs_fattr \<Rightarrow> 'z hsfs_super_scheme \<Rightarrow>
   (u64 \<times> 'z hsfs_super_scheme) option" where
  "hsi_nfs_fhget bad sop f fattr s =
     do { inode \<leftarrow> ERR_PTR bad (- ENOENT);
          if fa_valid fattr AND NFS_ATTR_FATTR = 0 then Some (inode, s)
          else if fa_nlink fattr = 0 then Some (inode, s)
          else do {
            (inode, s) \<leftarrow> hsfs_iget5_locked sop (fa_fileid fattr) (nfs_find_actor f fattr)
                            (nfs_init_locked f fattr) s;
            if inode = 0 then do { inode \<leftarrow> ERR_PTR bad (- ENOMEM); Some (inode, s) }
            else do {
              i \<leftarrow> heap s inode;
              if i_state i AND I_NEW \<noteq> 0
              then do { s \<leftarrow> upd_inode inode (fill_new fattr) s; Some (inode, s) }
              else do { (_, s) \<leftarrow> nfs_refresh_inode inode fattr s; Some (inode, s) } } } }"

definition NFS_VALID_ATTRS :: u32 where
  "NFS_VALID_ATTRS = HSFS_ATTR_MODE OR HSFS_ATTR_UID OR HSFS_ATTR_GID OR HSFS_ATTR_SIZE OR
     HSFS_ATTR_ATIME OR HSFS_ATTR_ATIME_SET OR HSFS_ATTR_MTIME OR HSFS_ATTR_MTIME_SET"

text \<open>The first half of \<open>hsi_nfs_setattr\<close>: what is left of the request.  The request is the caller's
  object, changed in place.\<close>

definition trim_attr :: "nfs_inode \<Rightarrow> hsfs_iattr \<Rightarrow> hsfs_iattr" where
  "trim_attr i attr =
     (let attr = (if has (ia_valid attr) HSFS_ATTR_SIZE \<and>
                     (\<not> S_ISREG (i_mode i) \<or> ia_size attr = i_size_read i)
                  then attr\<lparr>ia_valid := ia_valid attr AND NOT HSFS_ATTR_SIZE\<rparr> else attr)
      in attr\<lparr>ia_valid := ia_valid attr AND NFS_VALID_ATTRS\<rparr>)"

text \<open>\<open>setattr\<close> is the method of the same name of \<open>struct hsfs_super_ops\<close>: it returns the error, the
  attributes the server reported and the state.\<close>

definition hsi_nfs_setattr ::
  "(u64 \<Rightarrow> hsfs_iattr \<Rightarrow> 'z hsfs_super_scheme \<Rightarrow> ((int \<times> nfs_fattr) \<times> 'z hsfs_super_scheme) option) \<Rightarrow>
   u64 \<Rightarrow> hsfs_iattr \<Rightarrow> 'z hsfs_super_scheme \<Rightarrow> (int \<times> 'z hsfs_super_scheme) option" where
  "hsi_nfs_setattr setattr p attr s =
     do { i \<leftarrow> heap s p;
          let attr = trim_attr i attr;
          if ia_valid attr = 0 then Some (0, s)
          else do {
            ((error, fattr), s) \<leftarrow> setattr p attr s;
            if error = 0 then do { (_, s) \<leftarrow> nfs_refresh_inode p fattr s; Some (error, s) }
            else Some (error, s) } }"

abbreviation S_IALLUGO :: u32 where
  "S_IALLUGO \<equiv> 0xfff"

definition nfs_setattr_update_inode :: "hsfs_iattr \<Rightarrow> nfs_inode \<Rightarrow> nfs_inode" where
  "nfs_setattr_update_inode attr i =
     (let i = (if ia_valid attr AND (HSFS_ATTR_MODE OR HSFS_ATTR_UID OR HSFS_ATTR_GID) \<noteq> 0 then
            let i = (if has (ia_valid attr) HSFS_ATTR_MODE
                     then i\<lparr>iattr := (iattr i)\<lparr>ia_mode :=
                            (ia_mode attr AND S_IALLUGO) OR (i_mode i AND NOT S_IALLUGO)\<rparr>\<rparr> else i);
                i = (if has (ia_valid attr) HSFS_ATTR_UID
                     then i\<lparr>iattr := (iattr i)\<lparr>ia_uid := ia_uid attr\<rparr>\<rparr> else i)
            in if has (ia_valid attr) HSFS_ATTR_GID
               then i\<lparr>iattr := (iattr i)\<lparr>ia_gid := ia_gid attr\<rparr>\<rparr> else i
          else i)
      in if has (ia_valid attr) HSFS_ATTR_SIZE
         then i\<lparr>iattr := (iattr i)\<lparr>ia_size := ia_size attr\<rparr>\<rparr> else i)"

section \<open>\<open>struct stat\<close>\<close>

record stat =
  st_ino :: u64
  st_mode :: u32
  st_nlink :: u64
  st_uid :: u32
  st_gid :: u32
  st_rdev :: u64
  st_atim :: timespec
  st_mtim :: timespec
  st_ctim :: timespec
  st_size :: u64
  st_blocks :: u64
  st_blksize :: u64

text \<open>\<open>1 << i_blkbits\<close> is an \<open>int\<close> shift: \<open>None\<close> where it has no defined value.\<close>

definition hsfs_generic_fillattr :: "nfs_inode \<Rightarrow> stat option" where
  "hsfs_generic_fillattr i =
     (if unat (i_blkbits i) < 31 then
        Some \<lparr>st_ino = real_ino i, st_mode = i_mode i, st_nlink = ucast (i_nlink i), st_uid = i_uid i,
          st_gid = i_gid i, st_rdev = i_rdev i, st_atim = ia_atime (iattr i), st_mtim = ia_mtime (iattr i),
          st_ctim = ia_ctime (iattr i), st_size = i_size i, st_blocks = i_blocks i,
          st_blksize = push_bit (unat (i_blkbits i)) 1\<rparr>
      else None)"


section \<open>The invariant of the cache\<close>

definition unique_fh :: "(u64 \<Rightarrow> nfs_inode option) \<Rightarrow> bool" where
  "unique_fh h \<longleftrightarrow> (\<forall>p q i j. h p = Some i \<longrightarrow> h q = Some j \<longrightarrow> fileid i = fileid j \<longrightarrow>
      fh_bytes (fh i) = fh_bytes (fh j) \<longrightarrow> p = q)"

definition settled :: "nfs_inode \<Rightarrow> bool" where
  "settled i \<longleftrightarrow> fh_ok (fh i) \<and> \<not> NFS_STALE i \<and> i_state i AND I_NEW = 0"

definition nfs_cache_ok :: "'z hsfs_super_scheme \<Rightarrow> bool" where
  "nfs_cache_ok s \<longleftrightarrow> icache_ok s \<and> (\<forall>p i. heap s p = Some i \<longrightarrow> settled i) \<and> unique_fh (heap s)"

lemma nfs_cache_ok_D:
  assumes "nfs_cache_ok s"
  shows "icache_ok s" "heap s p = Some i \<Longrightarrow> settled i" "unique_fh (heap s)"
  using assms unfolding nfs_cache_ok_def by blast+

lemma unique_fh_D:
  "unique_fh h \<Longrightarrow> h p = Some i \<Longrightarrow> h q = Some j \<Longrightarrow> fileid i = fileid j \<Longrightarrow>
   fh_bytes (fh i) = fh_bytes (fh j) \<Longrightarrow> p = q"
  unfolding unique_fh_def by blast

lemma nfs_cache_ok_init: "heap s = Map.empty \<Longrightarrow> nfs_cache_ok (hsfs_init_icache s)"
  using icache_ok_init [of s] by (simp add: nfs_cache_ok_def unique_fh_def hsfs_init_icache_def)

lemma unique_fh_upd:
  assumes "unique_fh h"
    and "\<And>q j. q \<noteq> p \<Longrightarrow> h q = Some j \<Longrightarrow> fileid j = fileid i' \<Longrightarrow> fh_bytes (fh j) \<noteq> fh_bytes (fh i')"
  shows "unique_fh (h(p \<mapsto> i'))"
  unfolding unique_fh_def
proof (intro allI impI)
  fix q r i j
  assume q: "(h(p \<mapsto> i')) q = Some i" and r: "(h(p \<mapsto> i')) r = Some j"
    and eq: "fileid i = fileid j" "fh_bytes (fh i) = fh_bytes (fh j)"
  consider "q = p" "r = p" | "q = p" "r \<noteq> p" | "q \<noteq> p" "r = p" | "q \<noteq> p" "r \<noteq> p" by blast
  then show "q = r"
  proof cases
    case 2
    then show ?thesis using assms(2) [of r j] q r eq by simp
  next
    case 3
    then show ?thesis using assms(2) [of q i] q r eq by simp
  next
    case 4
    then show ?thesis using unique_fh_D [OF assms(1), of q i r j] q r eq by simp
  qed simp
qed

text \<open>Rewriting the attributes of one inode keeps the invariant.\<close>

lemma nfs_cache_ok_upd:
  assumes "nfs_cache_ok s" "heap s p = Some i" "ino i' = ino i" "fileid i' = fileid i"
    and "i_count i' \<le> 0" "fh i' = fh i" "settled i'"
  shows "nfs_cache_ok (s\<lparr>heap := (heap s)(p \<mapsto> i')\<rparr>)"
proof -
  note D = nfs_cache_ok_D [OF assms(1)]
  have "icache_ok (s\<lparr>heap := (heap s)(p \<mapsto> i')\<rparr>)"
    by (rule icache_ok_upd [OF D(1) assms(2-5)])
  moreover have "unique_fh ((heap s)(p \<mapsto> i'))"
    by (rule unique_fh_upd [OF D(3)]) (metis assms(2,4,6) unique_fh_D [OF D(3)])
  ultimately show ?thesis
    using assms(7) D(2) by (simp add: nfs_cache_ok_def)
qed

lemma refresh_frame:
  assumes "refresh fattr i = (r, i')"
  shows "ino i' = ino i" "fileid i' = fileid i" "i_count i' = i_count i" "fh i' = fh i" "flags i' = flags i"
    "i_state i' = i_state i" "i_private i' = i_private i" "i_blkbits i' = i_blkbits i" "real_ino i' = real_ino i"
    "i_rdev i' = i_rdev i" "i_mode i' AND S_IFMT = i_mode i AND S_IFMT"
  using assms by (auto simp: refresh_def nfs_update_inode_def split: if_splits)

lemma refresh_settled:
  assumes "refresh fattr i = (r, i')" "settled i"
  shows "settled i'"
  using assms refresh_frame [OF assms(1)]
  by (auto simp: settled_def NFS_STALE_def refresh_def nfs_update_inode_def split: if_splits)

lemma nfs_cache_ok_refresh:
  assumes "nfs_cache_ok s" "heap s p = Some i" "refresh fattr i = (r, i')"
  shows "nfs_cache_ok (s\<lparr>heap := (heap s)(p \<mapsto> i')\<rparr>)"
  by (rule nfs_cache_ok_upd [OF assms(1,2)])
     (use refresh_frame [OF assms(3)] refresh_settled [OF assms(3)]
        nfs_cache_ok_D [OF assms(1)] icache_ok_D(6) assms(2) in auto)

section \<open>\<open>hsi_nfs_fhget\<close>\<close>

text \<open>The cached inode of a file, by identifier and handle.\<close>

definition caches :: "'z hsfs_super_scheme \<Rightarrow> nfs_fh \<Rightarrow> nfs_fattr \<Rightarrow> u64 \<Rightarrow> bool" where
  "caches s f fattr p \<longleftrightarrow>
     (\<exists>i. heap s p = Some i \<and> fileid i = fa_fileid fattr \<and> fh_bytes (fh i) = fh_bytes f)"

lemma nfs_find_actor_iff:
  assumes "nfs_cache_ok s" "heap s p = Some i" "fh_ok f"
  shows "nfs_find_actor f fattr i \<longleftrightarrow> fileid i = fa_fileid fattr \<and> fh_bytes (fh i) = fh_bytes f"
  using nfs_cache_ok_D(2) [OF assms(1,2)] icache_ok_D(5) [OF nfs_cache_ok_D(1) [OF assms(1)] assms(2)] assms(3)
  by (auto simp: nfs_find_actor_def settled_def nfs_compare_fh_iff is_bad_inode_def)

lemma fh_ifind_hit:
  assumes "nfs_cache_ok s" "fh_ok f" "caches s f fattr p"
  shows "fh_ifind s (fa_fileid fattr) (nfs_find_actor f fattr) = Some p"
proof -
  obtain i where i: "heap s p = Some i" "fileid i = fa_fileid fattr" "fh_bytes (fh i) = fh_bytes f"
    using assms(3) by (auto simp: caches_def)
  note D = nfs_cache_ok_D [OF assms(1)]
  show ?thesis
    unfolding fh_ifind_def
  proof (rule ifind_unique [OF icache_ok_D(4) [OF D(1)] i(1) _ i(2)])
    show "nfs_find_actor f fattr i"
      using i nfs_find_actor_iff [OF assms(1) i(1) assms(2)] by simp
    fix q j
    assume "heap s q = Some j" "nfs_find_actor f fattr j"
    then show "q = p"
      using i nfs_find_actor_iff [OF assms(1) _ assms(2)] unique_fh_D [OF D(3)] by metis
  qed
qed

lemma fh_ifind_miss:
  assumes "nfs_cache_ok s" "fh_ok f" "\<nexists>p. caches s f fattr p"
  shows "fh_ifind s (fa_fileid fattr) (nfs_find_actor f fattr) = Some 0"
  unfolding fh_ifind_def
proof (rule ifind_absent [OF icache_ok_D(4) [OF nfs_cache_ok_D(1) [OF assms(1)]]])
  fix q j
  assume "heap s q = Some j" "fileid j = fa_fileid fattr"
  then show "\<not> nfs_find_actor f fattr j"
    using assms(3) nfs_find_actor_iff [OF assms(1) _ assms(2)] by (metis caches_def)
qed (simp add: nfs_find_actor_def)

lemma caches_unique:
  "nfs_cache_ok s \<Longrightarrow> caches s f fattr p \<Longrightarrow> caches s f fattr q \<Longrightarrow> p = q"
  unfolding caches_def using unique_fh_D nfs_cache_ok_D(3) by metis

text \<open>An attribute set with which \<open>hsi_nfs_fhget\<close> does not give up.\<close>

definition usable :: "nfs_fattr \<Rightarrow> bool" where
  "usable fattr \<longleftrightarrow> fa_valid fattr AND NFS_ATTR_FATTR \<noteq> 0 \<and> fa_nlink fattr \<noteq> 0"

lemma ERR_PTR_errno [simp]:
  assumes "user_object bad"
  shows "ERR_PTR bad (- 2) = Some (bad + 2)" "ERR_PTR bad (- 12) = Some (bad + 12)"
  using ERR_PTR_negative [OF assms, of "- 2"] ERR_PTR_negative [OF assms, of "- 12"] by simp_all

lemma hsi_nfs_fhget_unusable:
  "user_object bad \<Longrightarrow> \<not> usable fattr \<Longrightarrow> hsi_nfs_fhget bad sop f fattr s = Some (bad + 2, s)"
  by (auto simp: hsi_nfs_fhget_def usable_def)

lemma hsi_nfs_fhget_hit:
  assumes "user_object bad" "nfs_cache_ok s" "fh_ok f" "usable fattr" "caches s f fattr p" "heap s p = Some i"
  shows "hsi_nfs_fhget bad sop f fattr s = Some (p, s\<lparr>heap := (heap s)(p \<mapsto> snd (refresh fattr i))\<rparr>)"
proof -
  have "p \<noteq> 0" "i_state i AND I_NEW = 0"
    using assms(6) icache_ok_D(2) [OF nfs_cache_ok_D(1) [OF assms(2)]] nfs_cache_ok_D(2) [OF assms(2,6)]
    by (auto simp: settled_def)
  then show ?thesis
    using assms fh_ifind_hit [OF assms(2,3,5)]
    by (auto simp: hsi_nfs_fhget_def hsfs_iget5_locked_def usable_def nfs_refresh_inode_def Let_def
        split: prod.splits)
qed


text \<open>\<open>malloc\<close> gives an aligned address at which nothing lives, or 0.\<close>

definition fresh_malloc :: "('z hsfs_super_scheme \<Rightarrow> u64) \<Rightarrow> bool" where
  "fresh_malloc malloc \<longleftrightarrow> (\<forall>s. malloc s \<noteq> 0 \<longrightarrow> heap s (malloc s) = None \<and> malloc s AND 7 = 0)"

text \<open>The inode that a miss creates: zeroed, initialised, numbered and filled from the reply.\<close>

definition new_inode :: "'z hsfs_super_scheme \<Rightarrow> nfs_fh \<Rightarrow> nfs_fattr \<Rightarrow> u64 \<Rightarrow> nfs_inode" where
  "new_inode s f fattr c =
     fill_new fattr ((set_nfs_fileid (fa_fileid fattr) (inode_init_always s zero_nfs_inode))
       \<lparr>fh := the (nfs_copy_fh zero_fh f), ino := c, i_state := I_NEW\<rparr>)"

definition with_inode :: "nfs_fh \<Rightarrow> nfs_fattr \<Rightarrow> u64 \<Rightarrow> u64 \<Rightarrow> 'z hsfs_super_scheme \<Rightarrow> 'z hsfs_super_scheme" where
  "with_inode f fattr p c s =
     s\<lparr>curr_id := c, heap := (heap s)(p \<mapsto> new_inode s f fattr c),
       id_table := hash_add c p (id_table s), fh_table := hash_add (fa_fileid fattr) p (fh_table s)\<rparr>"

lemma new_inode_fields:
  assumes "fh_ok f"
  shows "fileid (new_inode s f fattr c) = fa_fileid fattr" "ino (new_inode s f fattr c) = c"
    "fh_bytes (fh (new_inode s f fattr c)) = fh_bytes f" "settled (new_inode s f fattr c)"
    "i_count (new_inode s f fattr c) = 0"
  using nfs_copy_fh_ok [OF fh_ok_zero_fh assms]
  by (auto simp: new_inode_def fill_new_def set_nfs_fileid_def hsfs_unlock_new_inode_def settled_def
      NFS_STALE_def inode_init_always_def zero_nfs_inode_def Let_def)

lemma hsi_nfs_fhget_miss:
  assumes "user_object bad" "nfs_cache_ok s" "fh_ok f" "usable fattr" "\<nexists>p. caches s f fattr p"
    and "malloc s \<noteq> 0" "heap s (malloc s) = None" "free_round s k"
  shows "hsi_nfs_fhget bad (hsi_nfs_sop malloc) f fattr s =
    Some (malloc s, with_inode f fattr (malloc s) ((next_id ^^ k) (curr_id s)) s)"
proof -
  let ?c = "(next_id ^^ k) (curr_id s)"
  obtain g where g: "nfs_copy_fh zero_fh f = Some g" using nfs_copy_fh_ok [OF fh_ok_zero_fh assms(3)] by blast
  let ?i = "(set_nfs_fileid (fa_fileid fattr) (inode_init_always s zero_nfs_inode))\<lparr>fh := g\<rparr>"
  have set: "nfs_init_locked f fattr (inode_init_always s zero_nfs_inode) = Some (0, ?i)"
    using g by (simp add: nfs_init_locked_def set_nfs_fileid_def inode_init_always_def zero_nfs_inode_def)
  have "get_new_inode (hsi_nfs_sop malloc) (fa_fileid fattr) (nfs_init_locked f fattr) s =
      Some (malloc s, with_new_inode (fa_fileid fattr) (malloc s) ?c ?i s)"
    by (rule get_new_inode_ok [where setf = "nfs_init_locked f fattr" and ?i0.0 = zero_nfs_inode])
       (simp_all add: hsi_nfs_sop_def nfs_alloc_inode_def Let_def assms set nfs_cache_ok_D(1) [OF assms(2)])
  then show ?thesis
    using assms(1,4,6) fh_ifind_miss [OF assms(2,3,5)] g
    by (simp add: hsi_nfs_fhget_def hsfs_iget5_locked_def usable_def with_new_inode_def upd_inode_def
        with_inode_def new_inode_def)
qed

lemma hsi_nfs_fhget_nomem:
  assumes "user_object bad" "nfs_cache_ok s" "fh_ok f" "usable fattr" "\<nexists>p. caches s f fattr p" "malloc s = 0"
  shows "hsi_nfs_fhget bad (hsi_nfs_sop malloc) f fattr s = Some (bad + 12, s)"
  using assms fh_ifind_miss [OF assms(2,3,5)]
  by (simp add: hsi_nfs_fhget_def hsfs_iget5_locked_def usable_def get_new_inode_def alloc_inode_def
      hsi_nfs_sop_def nfs_alloc_inode_def)

lemma nfs_cache_ok_with_inode:
  assumes "nfs_cache_ok s" "fh_ok f" "\<nexists>p. caches s f fattr p"
    and "p \<noteq> 0" "heap s p = None" "free_round s k" "p AND 7 = 0"
  shows "nfs_cache_ok (with_inode f fattr p ((next_id ^^ k) (curr_id s)) s)"
proof -
  let ?c = "(next_id ^^ k) (curr_id s)"
  let ?n = "new_inode s f fattr ?c"
  note n = new_inode_fields [OF assms(2), of s fattr ?c] and D = nfs_cache_ok_D [OF assms(1)]
  have "icache_ok (with_new_inode (fa_fileid fattr) p ?c ?n s)"
    by (rule icache_ok_with_new_inode [OF D(1) assms(6,5,4)]) (simp_all add: n assms(7))
  then have "icache_ok ((with_new_inode (fa_fileid fattr) p ?c ?n s)
      \<lparr>heap := (heap (with_new_inode (fa_fileid fattr) p ?c ?n s))(p \<mapsto> ?n)\<rparr>)"
    by (rule icache_ok_upd [where i = "?n\<lparr>ino := ?c, i_state := I_NEW\<rparr>"])
       (simp_all add: with_new_inode_def n)
  moreover have "(with_new_inode (fa_fileid fattr) p ?c ?n s)
      \<lparr>heap := (heap (with_new_inode (fa_fileid fattr) p ?c ?n s))(p \<mapsto> ?n)\<rparr> = with_inode f fattr p ?c s"
    by (simp add: with_new_inode_def with_inode_def)
  ultimately have "icache_ok (with_inode f fattr p ?c s)" by simp
  moreover have "unique_fh ((heap s)(p \<mapsto> ?n))"
    by (rule unique_fh_upd [OF D(3)]) (metis assms(3) caches_def n(1,3))
  ultimately show ?thesis
    using n D(2) by (simp add: nfs_cache_ok_def with_inode_def)
qed


text \<open>A hit and a miss together: what one call does to the cache.\<close>

definition got :: "'z hsfs_super_scheme \<Rightarrow> nfs_fh \<Rightarrow> nfs_fattr \<Rightarrow> u64 \<Rightarrow> 'z hsfs_super_scheme \<Rightarrow> bool" where
  "got s f fattr p s' \<longleftrightarrow>
     nfs_cache_ok s' \<and> caches s' f fattr p \<and> (\<forall>q. q \<noteq> p \<longrightarrow> heap s' q = heap s q) \<and>
     (if \<exists>q. caches s f fattr q then caches s f fattr p \<and> map_option ino (heap s' p) = map_option ino (heap s p)
      else heap s p = None \<and> (\<exists>i. heap s' p = Some i \<and> (\<forall>q j. heap s q = Some j \<longrightarrow> ino j \<noteq> ino i)))"

lemma got_hit:
  assumes "nfs_cache_ok s" "caches s f fattr p" "heap s p = Some i"
  shows "got s f fattr p (s\<lparr>heap := (heap s)(p \<mapsto> snd (refresh fattr i))\<rparr>)"
proof -
  obtain r i' where r: "refresh fattr i = (r, i')" by fastforce
  have "nfs_cache_ok (s\<lparr>heap := (heap s)(p \<mapsto> i')\<rparr>)"
    by (rule nfs_cache_ok_refresh [OF assms(1,3) r])
  then show ?thesis
    using assms r refresh_frame(1,2,4) [OF r] by (auto simp: got_def caches_def)
qed

lemma got_miss:
  assumes "nfs_cache_ok s" "fh_ok f" "\<nexists>p. caches s f fattr p" "p \<noteq> 0" "heap s p = None" "free_round s k"
    and "p AND 7 = 0"
  shows "got s f fattr p (with_inode f fattr p ((next_id ^^ k) (curr_id s)) s)"
  using nfs_cache_ok_with_inode [OF assms] assms(3,5,6)
  by (auto simp: got_def caches_def with_inode_def free_round_def new_inode_fields(1-3) [OF assms(2)])

lemma hsi_nfs_fhget_got:
  assumes "user_object bad" "nfs_cache_ok s" "fh_ok f" "usable fattr"
    and "fresh_malloc malloc" "malloc s \<noteq> 0"
  shows "\<exists>p s'. hsi_nfs_fhget bad (hsi_nfs_sop malloc) f fattr s = Some (p, s') \<and> got s f fattr p s'"
proof (cases "\<exists>p. caches s f fattr p")
  case True
  then obtain p i where p: "caches s f fattr p" "heap s p = Some i" by (auto simp: caches_def)
  show ?thesis
    using hsi_nfs_fhget_hit [OF assms(1-4) p] got_hit [OF assms(2) p] by blast
next
  case False
  obtain k where k: "free_round s k"
    using free_round_exists [OF nfs_cache_ok_D(1) [OF assms(2)]] by blast
  have "heap s (malloc s) = None" "malloc s AND 7 = 0" using assms(5,6) by (simp_all add: fresh_malloc_def)
  then show ?thesis
    using hsi_nfs_fhget_miss [where malloc = malloc, OF assms(1-4) False assms(6) _ k]
      got_miss [OF assms(2,3) False assms(6) _ k] by blast
qed

section \<open>Properties\<close>

text \<open>A super block with an empty cache, and an allocator that hands out the first free of four
  addresses: the inputs of the witnesses.\<close>

definition empty_super :: hsfs_super where
  "empty_super = \<lparr>fh_table = hash_init, id_table = hash_init, curr_id = 0, clntp = 1, acl_clntp = 0,
     sb_addr = 0, sb_flags = 0, rsize = 4096, wsize = 4096, timeo = 600, retrans = 3, acregmin = 3, acregmax = 60,
     acdirmin = 30, acdirmax = 60, namlen = 255, dtsize = 4096, bsize = 4096, bsize_bits = 12, root = 0,
     rtmax = 4096, rtpref = 4096, rtmult = 512, wtmax = 4096, wtpref = 4096, wtmult = 512, dtpref = 4096,
     maxfilesize = 0, time_delta = zero_timespec, properties = 0, tbytes = 0, fbytes = 0, abytes = 0,
     tfiles = 0, ffiles = 0, afiles = 0, heap = Map.empty\<rparr>"

definition first_free :: "'z hsfs_super_scheme \<Rightarrow> u64" where
  "first_free s =
     (case find (\<lambda>p. heap s p = None) [0x10000, 0x10200, 0x10400, 0x10600] of Some p \<Rightarrow> p | None \<Rightarrow> 0)"

definition some_fattr :: "u64 \<Rightarrow> u32 \<Rightarrow> nfs_fattr" where
  "some_fattr n mode = \<lparr>fa_valid = NFS_ATTR_FATTR_V3, fa_mode = mode, fa_nlink = 1, fa_uid = 0, fa_gid = 0,
     fa_rdev = 0, fa_size = 10, fa_used = 512, fa_fsid = 1, fa_fileid = n, fa_atime = zero_timespec,
     fa_mtime = zero_timespec, fa_ctime = zero_timespec\<rparr>"

lemma first_free_fresh: "fresh_malloc first_free"
  by (auto simp: fresh_malloc_def first_free_def split: option.splits if_splits)

lemma empty_super_ok: "nfs_cache_ok empty_super"
  using nfs_cache_ok_init [of empty_super] by (simp add: empty_super_def hsfs_init_icache_def)

lemma empty_super_facts:
  "heap empty_super = Map.empty" "first_free empty_super = 0x10000"
  by (simp_all add: empty_super_def first_free_def)

lemma some_fattr_usable [simp]: "usable (some_fattr n mode)"
  by (simp add: usable_def some_fattr_def NFS_ATTR_FATTR_V3_def NFS_ATTR_FATTR_def)

lemma user_object_0x601000 [simp]: "user_object 0x601000"
  by (simp add: user_object_def)

text \<open>C5. \<open>hsi_nfs_fhget\<close> implements "get or create" on the cache seen as a map from (file identifier,
  handle) to inodes.  With attributes and memory it never fails; the inode it returns is
  the cached one of the file with its number kept, or, if there is none, a new one with a number no
  other inode has; every other inode is untouched and the invariant of the cache holds afterwards.\<close>

theorem hsi_nfs_fhget_correct:
  assumes "user_object bad" "nfs_cache_ok s" "fh_ok f" "usable fattr"
    and "fresh_malloc malloc" "malloc s \<noteq> 0"
  shows "\<exists>p s'. hsi_nfs_fhget bad (hsi_nfs_sop malloc) f fattr s = Some (p, s') \<and>
    nfs_cache_ok s' \<and> caches s' f fattr p \<and> (\<forall>q. q \<noteq> p \<longrightarrow> heap s' q = heap s q) \<and>
    (if \<exists>q. caches s f fattr q then caches s f fattr p \<and> map_option ino (heap s' p) = map_option ino (heap s p)
     else heap s p = None \<and> (\<exists>i. heap s' p = Some i \<and> (\<forall>q j. heap s q = Some j \<longrightarrow> ino j \<noteq> ino i)))"
  using hsi_nfs_fhget_got [OF assms] unfolding got_def .

theorem hsi_nfs_fhget_correct_witness:
  "\<exists>p s'. hsi_nfs_fhget 0x601000 (hsi_nfs_sop first_free) zero_fh (some_fattr 7 S_IFREG) empty_super = Some (p, s') \<and>
     nfs_cache_ok s' \<and> caches s' zero_fh (some_fattr 7 S_IFREG) p"
  using hsi_nfs_fhget_correct [where bad = "0x601000" and s = empty_super and f = zero_fh and
      fattr = "some_fattr 7 S_IFREG" and malloc = first_free]
  by (auto simp: empty_super_ok first_free_fresh empty_super_facts)

text \<open>The cache with one regular file, number 1.\<close>

definition one_super :: hsfs_super where
  "one_super = with_inode zero_fh (some_fattr 7 S_IFREG) 0x10000 1 empty_super"

lemma with_first_inode:
  fixes s :: "'z hsfs_super_scheme"
  assumes "nfs_cache_ok s" "heap s = Map.empty" "curr_id s = 0" "fh_ok f" "p \<noteq> 0" "p AND 7 = 0"
  shows "nfs_cache_ok (with_inode f fattr p 1 s)"
proof -
  have "free_round s 1" using assms(2) by (simp add: free_round_def)
  then show ?thesis
    using nfs_cache_ok_with_inode [of s f fattr p 1] assms by (simp add: caches_def next_id_def)
qed

lemma one_super_ok: "nfs_cache_ok one_super"
  unfolding one_super_def
  by (rule with_first_inode) (simp_all add: empty_super_ok, simp_all add: empty_super_def)

lemma one_super_heap: "heap one_super = [0x10000 \<mapsto> new_inode empty_super zero_fh (some_fattr 7 S_IFREG) 1]"
  by (simp add: one_super_def with_inode_def empty_super_def)

section \<open>Properties of the cache\<close>

text \<open>C26. Looking up an inode number never runs into a stale pointer: \<open>hsfs_ilookup\<close> returns the address of
  the one inode with that number, or \<open>NULL\<close> when no cached inode has it.\<close>

theorem hsfs_ilookup_correct:
  assumes "icache_ok s"
  shows "\<exists>p. hsfs_ilookup s n = Some p \<and>
    (if p = 0 then \<forall>q j. heap s q = Some j \<longrightarrow> ino j \<noteq> n
     else (\<exists>i. heap s p = Some i \<and> ino i = n) \<and> (\<forall>q j. heap s q = Some j \<and> ino j = n \<longrightarrow> q = p))"
proof (cases "\<exists>q j. heap s q = Some j \<and> ino j = n")
  case True
  then obtain q j where q: "heap s q = Some j" "ino j = n" by blast
  then have q0: "q \<noteq> 0" using icache_ok_D(2) [OF assms] by auto
  have "hsfs_ilookup s n = Some q" using q ilookup_iff [OF assms q0, of n] by simp
  moreover have "r = q" if "heap s r = Some i" "ino i = n" for r i
    using icache_ok_D(7) [OF assms that(1) q(1)] that(2) q(2) by simp
  ultimately have "hsfs_ilookup s n = Some q \<and> (\<forall>r i. heap s r = Some i \<and> ino i = n \<longrightarrow> r = q)" by blast
  then show ?thesis using q q0 by (intro exI [of _ q]) simp
next
  case False
  then have "hsfs_ilookup s n = Some 0"
    unfolding hsfs_ilookup_def by (intro id_ifind_miss [OF assms]) blast
  then show ?thesis using False by (intro exI [of _ 0]) simp
qed

theorem hsfs_ilookup_correct_witness:
  "\<exists>p. hsfs_ilookup one_super 1 = Some p \<and>
    (if p = 0 then \<forall>q j. heap one_super q = Some j \<longrightarrow> ino j \<noteq> 1
     else (\<exists>i. heap one_super p = Some i \<and> ino i = 1) \<and> (\<forall>q j. heap one_super q = Some j \<and> ino j = 1 \<longrightarrow> q = p))"
  by (rule hsfs_ilookup_correct) (rule nfs_cache_ok_D(1) [OF one_super_ok])

text \<open>C27. The loop that looks for the next inode number ends, however the counter wraps around: it stops at a
  number that is not 0 and that no cached inode has.\<close>

theorem new_id_terminates:
  assumes "icache_ok s"
  shows "\<exists>c. new_id s = Some (s\<lparr>curr_id := c\<rparr>) \<and> c \<noteq> 0 \<and> (\<forall>q j. heap s q = Some j \<longrightarrow> ino j \<noteq> c)"
proof -
  obtain k where k: "free_round s k" using free_round_exists [OF assms] by blast
  have "id_ifind s ((next_id ^^ k) (curr_id s)) = Some 0"
    using k by (intro id_ifind_miss [OF assms]) (auto simp: free_round_def)
  moreover have "\<exists>q. q \<noteq> 0 \<and> id_ifind s ((next_id ^^ m) (curr_id s)) = Some q" if m: "1 \<le> m" "m < k" for m
  proof -
    obtain q j where q: "heap s q = Some j" "ino j = (next_id ^^ m) (curr_id s)"
      using k m unfolding free_round_def by blast
    then have "q \<noteq> 0" using icache_ok_D(2) [OF assms] by auto
    then show ?thesis using id_ifind_hit [OF assms q(1)] q(2) by auto
  qed
  ultimately have "new_id s = Some (s\<lparr>curr_id := (next_id ^^ k) (curr_id s)\<rparr>)"
    using k by (intro new_id_steps) (auto simp: free_round_def)
  then show ?thesis using k funpow_next_id_nonzero [of k] by (auto simp: free_round_def)
qed

theorem new_id_terminates_witness:
  "\<exists>c. new_id (one_super\<lparr>curr_id := 0xFFFFFFFFFFFFFFFF\<rparr>) = Some (one_super\<lparr>curr_id := c\<rparr>) \<and> c \<noteq> 0 \<and>
     (\<forall>q j. heap one_super q = Some j \<longrightarrow> ino j \<noteq> c)"
proof -
  have "icache_ok (one_super\<lparr>curr_id := 0xFFFFFFFFFFFFFFFF\<rparr>)"
    using nfs_cache_ok_D(1) [OF one_super_ok] by (simp add: icache_ok_def)
  from new_id_terminates [OF this] show ?thesis by simp
qed

text \<open>C37. Dropping a reference never frees an inode: nothing ever counts one up, so that the counter goes
  from 0 to negative values, and the cache keeps every inode for as long as the process lives.\<close>

theorem hsfs_iput_never_frees:
  assumes "icache_ok s" "heap s p = Some i" "- (2 ^ 31) < i_count i"
  shows "\<exists>s'. hsfs_iput sop p s = Some s' \<and> icache_ok s' \<and> dom (heap s') = dom (heap s) \<and>
    (\<exists>j. heap s' p = Some j \<and> i_count j = i_count i - 1 \<and> i_count j < 0)"
  using hsfs_iput_ok [OF assms] icache_ok_D(6) [OF assms(1,2)] assms(2)
  by (auto simp: insert_absorb domI)

theorem hsfs_iput_never_frees_witness:
  "\<exists>s'. hsfs_iput (hsi_nfs_sop first_free) 0x10000 one_super = Some s' \<and> dom (heap s') = {0x10000}"
proof -
  have "i_count (new_inode empty_super zero_fh (some_fattr 7 S_IFREG) 1) = 0"
    by (simp add: new_inode_fields)
  then show ?thesis
    using hsfs_iput_never_frees [OF nfs_cache_ok_D(1) [OF one_super_ok], of "0x10000" _ "hsi_nfs_sop first_free"]
    by (auto simp: one_super_heap)
qed

end
