(* ===== verification/Nfs3_Attr.thy ===== *)
theory Nfs3_Attr
  imports Nfs_Inode
begin

text \<open>
  The NFSv3 data that the XDR routines generated from nfs3/nfs3.x exchange, as far as the client reads
  or fills it, and the conversions of attributes: nfs3/hsi_nfs3_lookup.c, hsi_nfs3_fattr2stat.c,
  hsi_nfs3_setattr.c and include/hsi_nfs3.h.  A file handle on the wire is its bytes, at most
  \<open>NFS3_FHSIZE\<close> of them; an optional value (\<open>post_op_attr\<close>, \<open>set_uint32\<close>) is an \<open>option\<close>.
\<close>

section \<open>Wire data\<close>

type_synonym nfs_fh3 = "u8 list"

abbreviation NFS3_FHSIZE :: nat where "NFS3_FHSIZE \<equiv> 64"

record nfstime3 =
  seconds :: u32
  nseconds :: u32

record fattr3 =
  f3_type :: u32
  f3_mode :: u32
  f3_nlink :: u32
  f3_uid :: u32
  f3_gid :: u32
  f3_size :: u64
  f3_used :: u64
  f3_major :: u32
  f3_minor :: u32
  f3_fsid :: u64
  f3_fileid :: u64
  f3_atime :: nfstime3
  f3_mtime :: nfstime3
  f3_ctime :: nfstime3

abbreviation NF3REG :: u32 where "NF3REG \<equiv> 1"
abbreviation NF3DIR :: u32 where "NF3DIR \<equiv> 2"
abbreviation NF3BLK :: u32 where "NF3BLK \<equiv> 3"
abbreviation NF3CHR :: u32 where "NF3CHR \<equiv> 4"
abbreviation NF3LNK :: u32 where "NF3LNK \<equiv> 5"
abbreviation NF3SOCK :: u32 where "NF3SOCK \<equiv> 6"
abbreviation NF3FIFO :: u32 where "NF3FIFO \<equiv> 7"

datatype set_time = DONT_CHANGE | SET_TO_SERVER_TIME | SET_TO_CLIENT_TIME nfstime3

record sattr3 =
  sa_mode :: "u32 option"
  sa_uid :: "u32 option"
  sa_gid :: "u32 option"
  sa_size :: "u64 option"
  sa_atime :: set_time
  sa_mtime :: set_time

text \<open>What \<open>memset\<close> to 0 leaves in a \<open>struct sattr3\<close>.\<close>

definition zero_sattr3 :: sattr3 where
  "zero_sattr3 = \<lparr>sa_mode = None, sa_uid = None, sa_gid = None, sa_size = None,
     sa_atime = DONT_CHANGE, sa_mtime = DONT_CHANGE\<rparr>"

section \<open>Device numbers\<close>

text \<open>\<open>makedev\<close>, \<open>major\<close> and \<open>minor\<close> of the C library.\<close>

definition makedev :: "u32 \<Rightarrow> u32 \<Rightarrow> u64" where
  "makedev ma mi =
     (push_bit 8 (ucast (ma AND 0xfff)) OR push_bit 32 (ucast (ma AND 0xfffff000))) OR
     (ucast (mi AND 0xff) OR push_bit 12 (ucast (mi AND 0xffffff00)))"

definition major_of :: "u64 \<Rightarrow> u32" where
  "major_of d = ucast (drop_bit 8 (d AND 0xfff00)) OR ucast (drop_bit 32 (d AND 0xfffff00000000000))"

definition minor_of :: "u64 \<Rightarrow> u32" where
  "minor_of d = ucast (d AND 0xff) OR ucast (drop_bit 12 (d AND 0xffffff00000))"

section \<open>Conversions\<close>

definition nfs_type2fmt :: "u32 list" where
  "nfs_type2fmt = [0, S_IFREG, S_IFDIR, S_IFBLK, S_IFCHR, S_IFLNK, S_IFSOCK, S_IFIFO]"

definition hsi_nfs3_time2spec :: "nfstime3 \<Rightarrow> timespec" where
  "hsi_nfs3_time2spec f = \<lparr>tv_sec = ucast (seconds f), tv_nsec = ucast (nseconds f)\<rparr>"

definition hsi_nfs3_fattr2fattr :: "fattr3 \<Rightarrow> nfs_fattr \<Rightarrow> nfs_fattr" where
  "hsi_nfs3_fattr2fattr f t =
     (let type = (if f3_type f > NF3FIFO then 0 else f3_type f);
          fmode = nfs_type2fmt ! unat type;
          rdev = makedev (f3_major f) (f3_minor f);
          rdev = (if major_of rdev \<noteq> f3_major f \<or> minor_of rdev \<noteq> f3_minor f then 0 else rdev)
      in t\<lparr>fa_mode := (f3_mode f AND NOT S_IFMT) OR fmode, fa_nlink := f3_nlink f, fa_uid := f3_uid f,
           fa_gid := f3_gid f, fa_size := f3_size f, fa_used := f3_used f, fa_rdev := rdev,
           fa_fsid := f3_fsid f, fa_fileid := f3_fileid f,
           fa_atime := hsi_nfs3_time2spec (f3_atime f), fa_mtime := hsi_nfs3_time2spec (f3_mtime f),
           fa_ctime := hsi_nfs3_time2spec (f3_ctime f),
           fa_valid := fa_valid t OR NFS_ATTR_FATTR_V3\<rparr>)"

definition hsi_nfs3_post2fattr :: "fattr3 option \<Rightarrow> nfs_fattr \<Rightarrow> bool \<times> nfs_fattr" where
  "hsi_nfs3_post2fattr p t =
     (case p of Some f \<Rightarrow> (True, hsi_nfs3_fattr2fattr f t) | None \<Rightarrow> (False, t))"

definition hsi_nfs3_wcc2fattr :: "fattr3 option \<Rightarrow> nfs_fattr \<Rightarrow> bool \<times> nfs_fattr" where
  "hsi_nfs3_wcc2fattr after t = hsi_nfs3_post2fattr after t"

text \<open>\<open>st\<close> is the caller's object; the type is checked half way, so an unknown one leaves a half-filled
  object.  The file is built with \<open>st_atim\<close>, where \<open>ST_MTIM_NSEC_SET\<close> sets the nanoseconds of \<open>st_mtim\<close>.\<close>

definition hsi_nfs3_fattr2stat :: "fattr3 \<Rightarrow> stat \<Rightarrow> int \<times> stat" where
  "hsi_nfs3_fattr2stat attr st =
     (let st = st\<lparr>st_ino := f3_fileid attr, st_mode := f3_mode attr AND 0xfff\<rparr>;
          type = f3_type attr
      in if 1 \<le> type \<and> type \<le> NF3FIFO then
           (0, st\<lparr>st_mode := st_mode st OR nfs_type2fmt ! unat type, st_nlink := ucast (f3_nlink attr),
                  st_uid := f3_uid attr, st_gid := f3_gid attr,
                  st_rdev := makedev (f3_major attr) (f3_minor attr), st_size := f3_size attr,
                  st_blksize := 0, st_blocks := f3_used attr div 512,
                  st_atim := \<lparr>tv_sec = ucast (seconds (f3_atime attr)), tv_nsec = ucast (nseconds (f3_atime attr))\<rparr>,
                  st_mtim := \<lparr>tv_sec = ucast (seconds (f3_mtime attr)), tv_nsec = ucast (nseconds (f3_atime attr))\<rparr>,
                  st_ctim := (st_ctim st)\<lparr>tv_sec := ucast (seconds (f3_ctime attr))\<rparr>\<rparr>)
         else (EINVAL, st))"

definition hsi_nfs3_getfh3 :: "nfs_inode \<Rightarrow> nfs_fh3" where
  "hsi_nfs3_getfh3 inode = fh_bytes (fh inode)"

text \<open>The first half of \<open>hsi_nfs3_setattr\<close>: the attributes of the request.  A time of the client is
  truncated to 32 bits; the "now" bits come last and win.\<close>

definition iattr_to_sattr3 :: "hsfs_iattr \<Rightarrow> sattr3" where
  "iattr_to_sattr3 attr =
     (let v = ia_valid attr in
      \<lparr>sa_mode = (if S_ISSETMODE v then Some (ia_mode attr) else None),
       sa_uid = (if S_ISSETUID v then Some (ia_uid attr) else None),
       sa_gid = (if S_ISSETGID v then Some (ia_gid attr) else None),
       sa_size = (if S_ISSETSIZE v then Some (ia_size attr) else None),
       sa_atime = (if S_ISSETATIMENOW v then SET_TO_SERVER_TIME
                   else if S_ISSETATIME v
                   then SET_TO_CLIENT_TIME \<lparr>seconds = ucast (tv_sec (ia_atime attr)),
                                            nseconds = ucast (tv_nsec (ia_atime attr))\<rparr>
                   else DONT_CHANGE),
       sa_mtime = (if S_ISSETMTIMENOW v then SET_TO_SERVER_TIME
                   else if S_ISSETMTIME v
                   then SET_TO_CLIENT_TIME \<lparr>seconds = ucast (tv_sec (ia_mtime attr)),
                                            nseconds = ucast (tv_nsec (ia_mtime attr))\<rparr>
                   else DONT_CHANGE)\<rparr>)"

section \<open>Lemmas\<close>

text \<open>The masks of the device number macros as bit ranges.\<close>

lemma dev_masks:
  "0xfff = (mask 12 :: u32)" "0xfffff000 = (push_bit 12 (mask 20) :: u32)" "0xff = (mask 8 :: u32)"
  "0xffffff00 = (push_bit 8 (mask 24) :: u32)" "0xfff00 = (push_bit 8 (mask 12) :: u64)"
  "0xfffff00000000000 = (push_bit 44 (mask 20) :: u64)" "0xff = (mask 8 :: u64)"
  "0xffffff00000 = (push_bit 20 (mask 24) :: u64)"
  by (simp_all add: mask_eq_exp_minus_1 push_bit_eq_mult)

lemma bit_makedev:
  "bit (makedev ma mi) n \<longleftrightarrow>
     (if n < 8 then bit mi n else if n < 20 then bit ma (n - 8)
      else if n < 44 then bit mi (n - 12) else n < 64 \<and> bit ma (n - 32))"
  unfolding makedev_def dev_masks
  by (auto simp: bit_simps dest: bit_imp_le_length)

lemma major_makedev: "major_of (makedev ma mi) = ma"
  unfolding major_of_def dev_masks
  by (rule bit_word_eqI) (auto simp: bit_simps bit_makedev)

lemma minor_makedev: "minor_of (makedev ma mi) = mi"
  unfolding minor_of_def dev_masks
  by (rule bit_word_eqI) (auto simp: bit_simps bit_makedev)

end
