(* ===== verification/Nfs_Path.thy ===== *)
theory Nfs_Path
  imports Prelude
begin

text \<open>
  Paths of the libnfs part of the sources: \<open>nfs_normalize_path\<close> (lib/libnfs.c) and the functions of
  lib/nfs_v4.c that resolve, split and count paths.  The normalisation rewrites the string in place; the
  reference is a walk over the components of the path with a stack.
\<close>

section \<open>Searching\<close>

abbreviation SLASH :: char where "SLASH \<equiv> CHR ''/''"

text \<open>\<open>strstr\<close>: what stands before the first occurrence, and the rest from there on.\<close>

fun strstr :: "string \<Rightarrow> string \<Rightarrow> (string \<times> string) option" where
  "strstr [] pat = (if pat = [] then Some ([], []) else None)"
| "strstr (c # cs) pat =
     (if take (length pat) (c # cs) = pat then Some ([], c # cs)
      else map_option (\<lambda>(a, b). (c # a, b)) (strstr cs pat))"

lemma strstr_Some:
  "strstr p pat = Some (a, b) \<Longrightarrow> p = a @ b \<and> take (length pat) b = pat"
  by (induction p arbitrary: a) (auto split: if_splits)

lemma strstr_shrinks:
  "strstr p (c # pat) = Some (a, b) \<Longrightarrow> 0 < m \<Longrightarrow> length (a @ drop m b) < length p"
  using strstr_Some [of p "c # pat" a b] by (cases b) auto

lemma strstr_found: "strstr (a @ pat @ b) pat \<noteq> None"
  by (induction a) (cases pat; cases b; auto)+

text \<open>No earlier occurrence.\<close>

lemma strstr_first:
  "strstr p pat = Some (a, b) \<Longrightarrow> a = x @ y \<Longrightarrow> take (length pat) (y @ b) = pat \<Longrightarrow> y = []"
proof (induction p arbitrary: a x)
  case (Cons c cs)
  show ?case
  proof (cases "take (length pat) (c # cs) = pat")
    case True
    then show ?thesis using Cons.prems by simp
  next
    case False
    then obtain a' where a: "a = c # a'" "strstr cs pat = Some (a', b)" using Cons.prems(1) by auto
    show ?thesis
    proof (cases x)
      case Nil
      then have "y @ b = c # cs" using strstr_Some [OF Cons.prems(1)] Cons.prems(2) by simp
      then show ?thesis using Cons.prems(3) False by simp
    next
      case (Cons d x')
      then show ?thesis using Cons.IH [OF a(2)] Cons.prems a(1) by simp
    qed
  qed
qed (auto split: if_splits)

section \<open>\<open>nfs_normalize_path\<close>\<close>

datatype path_error = Starts_dotdot | Not_absolute | Became_empty | Is_dotdot

text \<open>The inner loop moves the rest of the string one character to the left, resp. two.\<close>

function del_slashes :: "string \<Rightarrow> string" where
  "del_slashes p = (case strstr p ''//'' of None \<Rightarrow> p | Some (a, b) \<Rightarrow> del_slashes (a @ drop 1 b))"
  by pat_completeness auto
termination
proof (relation "measure length")
  show "wf (measure length)" by simp
  fix p x a b assume "strstr p ''//'' = Some x" "(a, b) = x"
  then show "(a @ drop 1 b, p) \<in> measure length"
    using strstr_shrinks [of p "CHR ''/''" "''/''" a b 1] by simp
qed

function del_dots :: "string \<Rightarrow> string" where
  "del_dots p = (case strstr p ''/./'' of None \<Rightarrow> p | Some (a, b) \<Rightarrow> del_dots (a @ drop 2 b))"
  by pat_completeness auto
termination
proof (relation "measure length")
  show "wf (measure length)" by simp
  fix p x a b assume "strstr p ''/./'' = Some x" "(a, b) = x"
  then show "(a @ drop 2 b, p) \<in> measure length"
    using strstr_shrinks [of p "CHR ''/''" "''./''" a b 2] by simp
qed

text \<open>The search backwards for a slash, \<open>None\<close> if it runs over the beginning: the part before that slash.\<close>

definition before_slash :: "string \<Rightarrow> string option" where
  "before_slash a =
     (case dropWhile (\<lambda>c. c \<noteq> SLASH) (rev a) of [] \<Rightarrow> None | _ # r \<Rightarrow> Some (rev r))"

lemma before_slash_length: "before_slash a = Some a' \<Longrightarrow> length a' < length a"
proof -
  assume "before_slash a = Some a'"
  then obtain c r where "dropWhile (\<lambda>c. c \<noteq> SLASH) (rev a) = c # r" "a' = rev r"
    by (auto simp: before_slash_def split: list.splits)
  moreover have "length (dropWhile (\<lambda>c. c \<noteq> SLASH) (rev a)) \<le> length a"
    using length_dropWhile_le [of _ "rev a"] by simp
  ultimately show ?thesis by simp
qed

function del_dotdots :: "string \<Rightarrow> (path_error + string) option" where
  "del_dotdots p =
     (case strstr p ''/../'' of
        None \<Rightarrow> Some (Inr p)
      | Some (a, b) \<Rightarrow>
          if take 4 p = ''/../'' then Some (Inl Starts_dotdot)
          else case before_slash a of None \<Rightarrow> None | Some a' \<Rightarrow> del_dotdots (a' @ drop 3 b))"
  by pat_completeness auto
termination
  by (relation "measure length") (auto dest!: strstr_Some before_slash_length)

declare del_slashes.simps [simp del] del_dots.simps [simp del] del_dotdots.simps [simp del]

text \<open>The three cases at the end of the string.\<close>

definition normalize_end :: "string \<Rightarrow> (path_error + string) option" where
  "normalize_end path =
     (let path = (if length path > 1 \<and> last path = SLASH then butlast path else path) in
      if path = [] then Some (Inl Became_empty)
      else
        let path = (if length path \<ge> 2 \<and> drop (length path - 2) path = ''/.'' then take (length path - 2) path else path) in
        if path = ''/..'' then Some (Inl Is_dotdot)
        else if length path \<ge> 3 \<and> drop (length path - 3) path = ''/..''
        then map_option Inr (before_slash (take (length path - 3) path))
        else Some (Inr path))"

definition nfs_normalize_path :: "string \<Rightarrow> (path_error + string) option" where
  "nfs_normalize_path path =
     (let path = del_dots (del_slashes path) in
      if take 4 path = ''/../'' then Some (Inl Starts_dotdot)
      else if path = [] \<or> hd path \<noteq> SLASH then Some (Inl Not_absolute)
      else case del_dotdots path of
        None \<Rightarrow> None
      | Some (Inl e) \<Rightarrow> Some (Inl e)
      | Some (Inr path) \<Rightarrow> normalize_end path)"

section \<open>Components\<close>

fun comps :: "string \<Rightarrow> string list" where
  "comps [] = [[]]"
| "comps (c # cs) = (if c = SLASH then [] # comps cs else case comps cs of [] \<Rightarrow> [[c]] | x # xs \<Rightarrow> (c # x) # xs)"

fun join_path :: "string list \<Rightarrow> string" where
  "join_path [] = []"
| "join_path [c] = c"
| "join_path (c # d # cs) = c @ SLASH # join_path (d # cs)"

lemma comps_ne [simp]: "comps p \<noteq> []"
  by (cases p) (auto split: list.splits)

lemma comps_plain: "SLASH \<notin> set c \<Longrightarrow> comps c = [c]"
  by (induction c) auto

lemma comps_slash: "comps (a @ SLASH # b) = comps a @ comps b"
  by (induction a) (auto split: list.splits)

lemma join_comps: "join_path (comps p) = p"
proof (induction p)
  case (Cons c cs)
  then show ?case by (cases "comps cs"; cases "tl (comps cs)") auto
qed simp

lemma join_append: "xs \<noteq> [] \<Longrightarrow> ys \<noteq> [] \<Longrightarrow> join_path (xs @ ys) = join_path xs @ SLASH # join_path ys"
proof (induction xs rule: join_path.induct)
  case (2 c)
  then show ?case by (cases ys) auto
qed auto

lemma comps_no_slash: "c \<in> set (comps p) \<Longrightarrow> SLASH \<notin> set c"
  by (induction p arbitrary: c) (auto split: if_splits list.splits)

lemma comps_join: "xs \<noteq> [] \<Longrightarrow> \<forall>c \<in> set xs. SLASH \<notin> set c \<Longrightarrow> comps (join_path xs) = xs"
  by (induction xs rule: join_path.induct) (auto simp: comps_plain comps_slash)

text \<open>The components that have a slash on both sides.\<close>

definition inner :: "string \<Rightarrow> string list" where
  "inner p = butlast (tl (comps p))"

lemma comps_inner: "hd (comps p) = [] \<Longrightarrow> tl (comps p) \<noteq> [] \<Longrightarrow> comps p = [] # inner p @ [last (comps p)]"
  by (cases "comps p") (auto simp: inner_def)

lemma inner_slash: "inner (a @ SLASH # b) = tl (comps a) @ butlast (comps b)"
  by (simp add: inner_def comps_slash butlast_append)

lemma inner_found:
  assumes "m \<in> set (inner p)"
  shows "strstr p (SLASH # m @ [SLASH]) \<noteq> None"
proof -
  obtain xs ys where "inner p = xs @ m # ys" using assms by (meson split_list)
  then have "comps p = (hd (comps p) # xs) @ [m] @ (ys @ [last (comps p)])"
    unfolding inner_def by (cases "comps p"; cases "tl (comps p)" rule: rev_cases) auto
  then have "p = join_path ((hd (comps p) # xs) @ [m] @ (ys @ [last (comps p)]))" using join_comps by metis
  also have "\<dots> = join_path (hd (comps p) # xs) @ (SLASH # m @ [SLASH]) @ join_path (ys @ [last (comps p)])"
    by (simp add: join_append del: append_Cons)
  finally show ?thesis using strstr_found by metis
qed

lemma last_not_slash: "c \<noteq> [] \<Longrightarrow> SLASH \<notin> set c \<Longrightarrow> last c \<noteq> SLASH"
  by (metis last_in_set)

lemma last_comps: "p \<noteq> [] \<Longrightarrow> last (comps p) = [] \<longleftrightarrow> last p = SLASH"
proof (cases "SLASH \<in> set p")
  case True
  then obtain a c where "p = a @ SLASH # c" "SLASH \<notin> set c" using split_list_last [of SLASH p] by auto
  then show ?thesis using last_not_slash [of c] by (auto simp: comps_slash comps_plain)
next
  case False
  assume "p \<noteq> []"
  then show ?thesis using False last_not_slash [of p] by (simp add: comps_plain)
qed

section \<open>The reference: a walk over the components\<close>

fun walk :: "string list \<Rightarrow> string list \<Rightarrow> string list option" where
  "walk st [] = Some st"
| "walk st (c # cs) =
     (if c = [] \<or> c = ''.'' then walk st cs
      else if c = ''..'' then (if st = [] then None else walk (butlast st) cs)
      else walk (st @ [c]) cs)"

definition plain :: "string \<Rightarrow> bool" where
  "plain c \<longleftrightarrow> c \<noteq> [] \<and> c \<noteq> ''.'' \<and> c \<noteq> ''..''"

lemma walk_append: "walk st (xs @ ys) = Option.bind (walk st xs) (\<lambda>st. walk st ys)"
  by (induction st xs rule: walk.induct) auto

lemma walk_plain: "\<forall>c \<in> set cs. plain c \<Longrightarrow> walk st cs = Some (st @ cs)"
  by (induction cs arbitrary: st) (auto simp: plain_def)

lemma walk_skip: "c = [] \<or> c = ''.'' \<Longrightarrow> walk st (xs @ c # ys) = walk st (xs @ ys)"
  by (auto simp: walk_append)

lemma walk_up: "plain c \<Longrightarrow> walk st (xs @ c # ''..'' # ys) = walk st (xs @ ys)"
  by (auto simp: walk_append plain_def)

lemma walk_keeps_no_slash:
  "walk st cs = Some r \<Longrightarrow> \<forall>c \<in> set st \<union> set cs. SLASH \<notin> set c \<Longrightarrow> \<forall>c \<in> set r. SLASH \<notin> set c"
  by (induction st cs rule: walk.induct) (auto split: if_splits dest: in_set_butlastD)

lemma walk_keeps_plain:
  "walk st cs = Some r \<Longrightarrow> \<forall>c \<in> set st. plain c \<Longrightarrow> \<forall>c \<in> set r. plain c"
proof (induction st cs rule: walk.induct)
  case (2 st c cs)
  consider "c = [] \<or> c = ''.''" | "c = ''..''" | "plain c" unfolding plain_def by blast
  then show ?case
  proof cases
    case 2
    then have "st \<noteq> []" "walk (butlast st) cs = Some r" using "2.prems"(1) by (auto split: if_splits)
    then show ?thesis using "2.IH"(2) "2.prems"(2) 2 by (auto dest: in_set_butlastD)
  next
    case 3
    then have c: "c \<noteq> []" "c \<noteq> ''.''" "c \<noteq> ''..''" by (simp_all add: plain_def)
    then have "walk (st @ [c]) cs = Some r" using "2.prems"(1) by simp
    moreover have "\<forall>d \<in> set (st @ [c]). plain d" using "2.prems"(2) 3 by simp
    ultimately show ?thesis using "2.IH"(3) c by blast
  qed (use "2.IH"(1) "2.prems" in auto)
qed simp

definition render :: "string list \<Rightarrow> string" where
  "render cs = concat (map (\<lambda>c. SLASH # c) cs)"

lemma render_join: "join_path ([] # cs) = render cs"
proof (induction cs)
  case (Cons c cs)
  then show ?case by (cases cs) (auto simp: render_def)
qed (simp add: render_def)

lemma comps_render: "\<forall>c \<in> set cs. SLASH \<notin> set c \<Longrightarrow> comps (render cs) = [] # cs"
  using comps_join [of "[] # cs"] by (simp add: render_join)

section \<open>What the loops do to the components\<close>

text \<open>One step of the first two loops: a component between two slashes goes.\<close>

lemma hit_comps:
  assumes "strstr p (SLASH # m @ [SLASH]) = Some (a, b)" "SLASH \<notin> set m"
  shows "comps p = comps a @ m # comps (drop (length m + 2) b)"
    and "comps (a @ drop (length m + 1) b) = comps a @ comps (drop (length m + 2) b)"
proof -
  have "p = a @ b" "take (length m + 2) b = SLASH # m @ [SLASH]"
    using strstr_Some [OF assms(1)] by auto
  then have b: "b = SLASH # m @ SLASH # drop (length m + 2) b" "p = a @ b"
    using append_take_drop_id [of "length m + 2" b] by (auto simp del: append_take_drop_id)
  have "drop (length m + 1) b = SLASH # drop (length m + 2) b"
    by (subst b(1)) simp
  then show "comps (a @ drop (length m + 1) b) = comps a @ comps (drop (length m + 2) b)"
    by (simp add: comps_slash)
  have "comps p = comps (a @ SLASH # m @ SLASH # drop (length m + 2) b)" using b by simp
  then show "comps p = comps a @ m # comps (drop (length m + 2) b)"
    by (simp add: comps_slash comps_plain assms(2))
qed

text \<open>What a step keeps of a path: the two ends of its components, and no new components in between.\<close>

definition keeps :: "string \<Rightarrow> string \<Rightarrow> bool" where
  "keeps p q \<longleftrightarrow>
     hd (comps q) = hd (comps p) \<and> last (comps q) = last (comps p) \<and>
     (tl (comps q) = [] \<longleftrightarrow> tl (comps p) = []) \<and> set (inner q) \<subseteq> set (inner p)"

lemma keeps_refl: "keeps p p"
  by (simp add: keeps_def)

lemma keeps_trans: "keeps p q \<Longrightarrow> keeps q r \<Longrightarrow> keeps p r"
  by (auto simp: keeps_def)

lemma keeps_cut:
  assumes "comps p = xs @ ms @ ys" "comps q = xs @ ys" "xs \<noteq> []" "ys \<noteq> []"
  shows "keeps p q"
  using assms by (cases xs) (auto simp: keeps_def inner_def butlast_append)

lemma del_slashes_comps:
  "keeps p (del_slashes p) \<and> walk st (comps (del_slashes p)) = walk st (comps p) \<and>
   [] \<notin> set (inner (del_slashes p))"
proof (induction p rule: del_slashes.induct)
  case (1 p)
  show ?case
  proof (cases "strstr p ''//''")
    case None
    then show ?thesis using inner_found [of "[]" p] by (subst (1 2 3) del_slashes.simps) (auto simp: keeps_refl)
  next
    case (Some ab)
    obtain a b where ab: "ab = (a, b)" by (cases ab)
    have hit: "comps p = comps a @ [[]] @ comps (drop 2 b)" "comps (a @ drop 1 b) = comps a @ comps (drop 2 b)"
      using hit_comps [of p "[]" a b] Some ab by (auto simp: numeral_eq_Suc)
    have "del_slashes p = del_slashes (a @ drop 1 b)" by (subst del_slashes.simps) (simp add: Some ab)
    moreover have "keeps p (a @ drop 1 b)" by (rule keeps_cut [OF hit]) auto
    moreover have "walk st (comps (a @ drop 1 b)) = walk st (comps p)" using hit walk_skip [of "[]"] by simp
    ultimately show ?thesis using 1 [OF Some ab [symmetric]] by (auto intro: keeps_trans)
  qed
qed

lemma del_dots_comps:
  "keeps p (del_dots p) \<and> walk st (comps (del_dots p)) = walk st (comps p) \<and>
   ''.'' \<notin> set (inner (del_dots p))"
proof (induction p rule: del_dots.induct)
  case (1 p)
  show ?case
  proof (cases "strstr p ''/./''")
    case None
    then show ?thesis using inner_found [of "''.''" p] by (subst (1 2 3) del_dots.simps) (auto simp: keeps_refl)
  next
    case (Some ab)
    obtain a b where ab: "ab = (a, b)" by (cases ab)
    have hit: "comps p = comps a @ [''.''] @ comps (drop 3 b)" "comps (a @ drop 2 b) = comps a @ comps (drop 3 b)"
      using hit_comps [of p "''.''" a b] Some ab by (auto simp: numeral_eq_Suc)
    have "del_dots p = del_dots (a @ drop 2 b)" by (subst del_dots.simps) (simp add: Some ab)
    moreover have "keeps p (a @ drop 2 b)" by (rule keeps_cut [OF hit]) auto
    moreover have "walk st (comps (a @ drop 2 b)) = walk st (comps p)" using hit walk_skip [of "''.''"] by simp
    ultimately show ?thesis using 1 [OF Some ab [symmetric]] by (auto intro: keeps_trans)
  qed
qed

lemma before_slash_Some: "SLASH \<notin> set c \<Longrightarrow> before_slash (a @ SLASH # c) = Some a"
proof -
  assume "SLASH \<notin> set c"
  then have "dropWhile (\<lambda>x. x \<noteq> SLASH) (rev c @ SLASH # rev a) = SLASH # rev a"
    by (subst dropWhile_append2) auto
  then show ?thesis by (simp add: before_slash_def)
qed

lemma last_slash: "SLASH \<in> set a \<Longrightarrow> \<exists>a' c. a = a' @ SLASH # c \<and> SLASH \<notin> set c"
  using split_list_last [of SLASH a] by auto

lemma absolute_comps: "p \<noteq> [] \<and> hd p = SLASH \<longleftrightarrow> hd (comps p) = [] \<and> tl (comps p) \<noteq> []"
  by (cases p) (auto split: list.splits)

text \<open>A step of the third loop, on a path without empty and dot components inside.\<close>

lemma dotdot_step:
  assumes hit: "strstr p ''/../'' = Some (a, b)" and abs: "hd (comps p) = []" "tl (comps p) \<noteq> []"
    and clean: "[] \<notin> set (inner p)" "''.'' \<notin> set (inner p)" and first: "take 4 p \<noteq> ''/../''"
  shows "\<exists>a'. before_slash a = Some a' \<and> keeps p (a' @ drop 3 b) \<and>
           walk st (comps (a' @ drop 3 b)) = walk st (comps p)"
proof -
  have pab: "p = a @ b" "take 4 b = ''/../''" using strstr_Some [OF hit] by (auto simp: numeral_eq_Suc)
  have "a \<noteq> []" using pab first by auto
  moreover have "p \<noteq> []" "hd p = SLASH" using abs absolute_comps by auto
  ultimately have "SLASH \<in> set a" using pab(1) by (cases a) auto
  then obtain a' c where a: "a = a' @ SLASH # c" "SLASH \<notin> set c" using last_slash by blast
  have X: "comps p = comps a @ ''..'' # comps (drop 4 b)"
    using hit_comps(1) [of p "''..''" a b] hit by (simp add: numeral_eq_Suc)
  have cp: "comps p = comps a' @ [c, ''..''] @ comps (drop 4 b)" using X a by (simp add: comps_slash comps_plain)
  have "c \<in> set (inner p)" using cp by (cases "comps a'") (auto simp: inner_def butlast_append)
  then have "c \<noteq> []" "c \<noteq> ''.''" using clean by auto
  moreover have "c \<noteq> ''..''"
  proof
    assume "c = ''..''"
    then have "take (length ''/../'') ((SLASH # c) @ b) = ''/../''" using pab(2) by (cases b) auto
    then show False using strstr_first [OF hit a(1)] by simp
  qed
  ultimately have "plain c" by (simp add: plain_def)
  obtain b' where b': "b = ''/..'' @ SLASH # b'" using pab(2) by (cases b; cases "tl b"; cases "tl (tl b)"; cases "tl (tl (tl b))") auto
  have q: "comps (a' @ drop 3 b) = comps a' @ comps (drop 4 b)" by (simp add: b' comps_slash)
  have "keeps p (a' @ drop 3 b)" by (rule keeps_cut [OF cp q]) auto
  moreover have "walk st (comps (a' @ drop 3 b)) = walk st (comps p)"
    using q cp walk_up [OF \<open>plain c\<close>] by simp
  ultimately show ?thesis using a before_slash_Some by auto
qed

lemma dotdot_error: "take 4 p = ''/../'' \<Longrightarrow> walk [] (comps p) = None"
proof -
  assume "take 4 p = ''/../''"
  then obtain b where "p = [] @ SLASH # ''..'' @ SLASH # b"
    using append_take_drop_id [of 4 p] by (metis append_Cons append_Nil)
  then have "comps p = [] # ''..'' # comps b" by (simp add: comps_slash)
  then show ?thesis by simp
qed

lemma del_dotdots_comps:
  assumes "hd (comps p) = []" "tl (comps p) \<noteq> []" "[] \<notin> set (inner p)" "''.'' \<notin> set (inner p)"
  shows "(\<exists>q. del_dotdots p = Some (Inr q) \<and> keeps p q \<and> walk [] (comps q) = walk [] (comps p) \<and>
            ''..'' \<notin> set (inner q)) \<or>
         del_dotdots p = Some (Inl Starts_dotdot) \<and> walk [] (comps p) = None"
  using assms
proof (induction p rule: del_dotdots.induct)
  case (1 p)
  show ?case
  proof (cases "strstr p ''/../''")
    case None
    then have "del_dotdots p = Some (Inr p)" by (subst del_dotdots.simps) simp
    then show ?thesis using inner_found [of "''..''" p] None keeps_refl by auto
  next
    case (Some ab)
    obtain a b where ab: "ab = (a, b)" by (cases ab)
    show ?thesis
    proof (cases "take 4 p = ''/../''")
      case True
      then have "del_dotdots p = Some (Inl Starts_dotdot)" by (subst del_dotdots.simps) (simp add: Some ab)
      then show ?thesis using dotdot_error [OF True] by simp
    next
      case False
      obtain a' where a': "before_slash a = Some a'" "keeps p (a' @ drop 3 b)"
        "walk [] (comps (a' @ drop 3 b)) = walk [] (comps p)"
        using dotdot_step [OF _ 1(2-5) False] Some ab by blast
      have "del_dotdots p = del_dotdots (a' @ drop 3 b)"
        by (subst del_dotdots.simps) (simp add: Some ab False a')
      moreover have "hd (comps (a' @ drop 3 b)) = []" "tl (comps (a' @ drop 3 b)) \<noteq> []"
        "[] \<notin> set (inner (a' @ drop 3 b))" "''.'' \<notin> set (inner (a' @ drop 3 b))"
        using a'(2) 1(2-5) unfolding keeps_def by auto
      ultimately show ?thesis
        using 1(1) [OF Some ab [symmetric] False a'(1)] keeps_trans [OF a'(2)] a'(3) by metis
    qed
  qed
qed

lemma ends_comps: "drop n p = SLASH # m \<Longrightarrow> SLASH \<notin> set m \<Longrightarrow> last (comps p) = m"
  using append_take_drop_id [of n p] by (metis comps_slash comps_plain last_snoc)

text \<open>Nothing changes at the end when the last component is a proper name.\<close>

lemma render_end:
  assumes "cs = [] \<or> plain (last cs)" "\<forall>c \<in> set cs. SLASH \<notin> set c"
  shows "drop n (render cs) \<noteq> ''/.''" "drop n (render cs) \<noteq> ''/..''"
  using ends_comps [of n "render cs" "''.''"] ends_comps [of n "render cs" "''..''"] assms
  by (cases "cs = []"; auto simp: comps_render plain_def; simp add: render_def)+

lemma render_snoc: "render (cs @ [c]) = render cs @ SLASH # c"
  by (simp add: render_def)

lemma render_last: "c \<noteq> [] \<Longrightarrow> SLASH \<notin> set c \<Longrightarrow> last (render cs @ SLASH # c) \<noteq> SLASH"
  using last_not_slash [of c] by simp

lemma normalize_end_render:
  assumes "cs = [] \<or> plain (last cs)" "\<forall>c \<in> set cs. SLASH \<notin> set c"
  shows "normalize_end (render cs @ ''/.'') = Some (Inr (render cs))"
    and "cs \<noteq> [] \<Longrightarrow> normalize_end (render cs) = Some (Inr (render cs))"
    and "cs \<noteq> [] \<Longrightarrow> normalize_end (render cs @ ''/'') = Some (Inr (render cs))"
proof -
  note re = render_end [OF assms]
  have dd: "render cs \<noteq> ''/..''" using re(2) [of 0] by simp
  show "normalize_end (render cs @ ''/.'') = Some (Inr (render cs))"
    using re dd by (simp add: normalize_end_def)
  assume ne: "cs \<noteq> []"
  then have "render cs \<noteq> []" by (cases cs) (auto simp: render_def)
  moreover have "last (render cs) \<noteq> SLASH"
    using ne assms render_last [of "last cs" "butlast cs"]
    by (cases cs rule: rev_cases) (auto simp: render_snoc plain_def)
  ultimately show "normalize_end (render cs) = Some (Inr (render cs))"
    "normalize_end (render cs @ ''/'') = Some (Inr (render cs))"
    using re dd by (simp_all add: normalize_end_def)
qed

text \<open>The end of the path against the walk.\<close>

lemma normalize_end_walk:
  assumes "comps q = [] # mids @ [l]" "\<forall>c \<in> set mids. plain c"
  shows "case walk [] (comps q) of
           None \<Rightarrow> \<exists>e. normalize_end q = Some (Inl e)
         | Some cs \<Rightarrow> normalize_end q = Some (Inr (if cs = [] \<and> l = [] then ''/'' else render cs))"
proof -
  have q: "q = render mids @ SLASH # l" using assms(1) join_comps [of q] render_join [of "mids @ [l]"] by (simp add: render_snoc)
  have ns: "\<forall>c \<in> set (mids @ [l]). SLASH \<notin> set c" using comps_no_slash assms(1) by (metis list.set_intros(2))
  have pl: "mids = [] \<or> plain (last mids)" using assms(2) by (cases mids rule: rev_cases) auto
  have w: "walk [] (comps q) = walk mids [l]" using assms by (simp add: walk_append walk_plain)
  consider "l = []" | "l = ''.''" | "l = ''..''" | "plain l" unfolding plain_def by blast
  then show ?thesis
  proof cases
    case 1
    then show ?thesis using w q normalize_end_render(3) [OF pl] ns
      by (cases "mids = []") (auto simp: normalize_end_def render_def)
  next
    case 2
    then show ?thesis using w q normalize_end_render(1) [OF pl] ns by simp
  next
    case 3
    show ?thesis
    proof (cases mids rule: rev_cases)
      case Nil
      then show ?thesis using w q 3 by (simp add: normalize_end_def render_def)
    next
      case (snoc ms m)
      then have "before_slash (render mids) = Some (render ms)" using ns by (simp add: render_snoc before_slash_Some)
      moreover have "render mids \<noteq> []" using snoc by (simp add: render_snoc)
      ultimately show ?thesis using w q 3 snoc by (simp add: normalize_end_def)
    qed
  next
    case 4
    then have "l \<noteq> []" "walk mids [l] = Some (mids @ [l])" by (auto simp: plain_def)
    then show ?thesis using w q normalize_end_render(2) [of "mids @ [l]"] ns 4 by (simp add: render_snoc)
  qed
qed

lemma cleaned_comps:
  fixes path :: string
  defines "q \<equiv> del_dots (del_slashes path)"
  shows "keeps path q" "walk [] (comps q) = walk [] (comps path)"
    "[] \<notin> set (inner q)" "''.'' \<notin> set (inner q)"
proof -
  note ds = del_slashes_comps [of path "[]"] and dd = del_dots_comps [of "del_slashes path" "[]"]
  show "keeps path q" using ds dd keeps_trans unfolding q_def by metis
  show "walk [] (comps q) = walk [] (comps path)" using ds dd unfolding q_def by simp
  show "[] \<notin> set (inner q)" "''.'' \<notin> set (inner q)" using ds dd unfolding q_def keeps_def by auto
qed

lemma absolute_normalize:
  assumes k: "keeps path q" and w: "walk [] (comps q) = walk [] (comps path)"
    and clean: "[] \<notin> set (inner q)" "''.'' \<notin> set (inner q)"
    and abs: "hd (comps q) = []" "tl (comps q) \<noteq> []" and ne: "path \<noteq> []"
  shows "case (case del_dotdots q of None \<Rightarrow> None | Some (Inl e) \<Rightarrow> Some (Inl e) | Some (Inr p) \<Rightarrow> normalize_end p) of
           None \<Rightarrow> False
         | Some (Inl e) \<Rightarrow> walk [] (comps path) = None
         | Some (Inr p) \<Rightarrow> \<exists>cs. walk [] (comps path) = Some cs \<and>
                                 p = (if cs = [] \<and> last path = SLASH then ''/'' else render cs)"
proof (cases "walk [] (comps q) = None \<and> del_dotdots q = Some (Inl Starts_dotdot)")
  case True
  then show ?thesis using w by simp
next
  case False
  then obtain r where r: "del_dotdots q = Some (Inr r)" "keeps q r" "walk [] (comps r) = walk [] (comps q)" "''..'' \<notin> set (inner r)"
    using del_dotdots_comps [OF abs clean] by metis
  have "keeps path r" using keeps_trans [OF k r(2)] .
  then have l: "last (comps r) = last (comps path)" by (simp add: keeps_def)
  have "hd (comps r) = []" "tl (comps r) \<noteq> []" using r(2) abs by (auto simp: keeps_def)
  then have c: "comps r = [] # inner r @ [last (comps path)]" using comps_inner [of r] unfolding l by blast
  have "set (inner r) \<subseteq> set (inner q)" using r(2) by (simp add: keeps_def)
  then have "\<forall>c \<in> set (inner r). plain c" using r(4) clean by (auto simp: plain_def)
  note e = normalize_end_walk [OF c this]
  have w': "walk [] (comps r) = walk [] (comps path)" using r(3) w by simp
  show ?thesis
  proof (cases "walk [] (comps path)")
    case None
    then show ?thesis using e w' r(1) by auto
  next
    case (Some cs)
    then have "normalize_end r = Some (Inr (if cs = [] \<and> last path = SLASH then ''/'' else render cs))"
      using e w' last_comps [OF ne] by simp
    then show ?thesis using r(1) Some by simp
  qed
qed

lemma normalize_walk:
  "case nfs_normalize_path path of
     None \<Rightarrow> False
   | Some (Inl e) \<Rightarrow> path = [] \<or> hd path \<noteq> SLASH \<or> walk [] (comps path) = None
   | Some (Inr p) \<Rightarrow>
       path \<noteq> [] \<and> hd path = SLASH \<and>
       (\<exists>cs. walk [] (comps path) = Some cs \<and>
             p = (if cs = [] \<and> last path = SLASH then ''/'' else render cs))"
proof -
  define q where "q = del_dots (del_slashes path)"
  note q = cleaned_comps [of path, folded q_def]
  consider "take 4 q = ''/../''" | "take 4 q \<noteq> ''/../''" "q = [] \<or> hd q \<noteq> SLASH"
    | "take 4 q \<noteq> ''/../''" "q \<noteq> []" "hd q = SLASH" by blast
  then show ?thesis
  proof cases
    case 1
    then show ?thesis using dotdot_error [OF 1] q(2) by (simp add: nfs_normalize_path_def q_def [symmetric])
  next
    case 2
    then have "path = [] \<or> hd path \<noteq> SLASH" using q(1) absolute_comps unfolding keeps_def by metis
    then show ?thesis using 2 by (auto simp: nfs_normalize_path_def q_def [symmetric])
  next
    case 3
    then have abs: "hd (comps q) = []" "tl (comps q) \<noteq> []" using absolute_comps by auto
    then have pabs: "path \<noteq> []" "hd path = SLASH" using q(1) absolute_comps unfolding keeps_def by metis+
    have n: "nfs_normalize_path path =
        (case del_dotdots q of None \<Rightarrow> None | Some (Inl e) \<Rightarrow> Some (Inl e) | Some (Inr p) \<Rightarrow> normalize_end p)"
      using 3 by (simp add: nfs_normalize_path_def q_def [symmetric])
    note a = absolute_normalize [OF q abs pabs(1), folded n]
    show ?thesis
    proof (cases "nfs_normalize_path path")
      case (Some r)
      then show ?thesis using a pabs by (cases r) simp_all
    qed (use a in simp)
  qed
qed

section \<open>Canonical paths\<close>

text \<open>A path without NUL, empty, dot and dot-dot components, absolute and without a slash at the end.\<close>

definition proper :: "string \<Rightarrow> bool" where
  "proper c \<longleftrightarrow> plain c \<and> SLASH \<notin> set c \<and> CHR 0x00 \<notin> set c"

definition canon :: "string \<Rightarrow> string list \<Rightarrow> bool" where
  "canon p cs \<longleftrightarrow> (\<forall>c \<in> set cs. proper c) \<and> p = (if cs = [] then ''/'' else render cs)"

lemma comps_subset: "c \<in> set (comps p) \<Longrightarrow> set c \<subseteq> set p"
  by (induction p arbitrary: c) (fastforce split: if_splits list.splits)+

lemma walk_subset: "walk st cs = Some r \<Longrightarrow> set r \<subseteq> set st \<union> set cs"
  by (induction st cs rule: walk.induct) (auto split: if_splits dest: in_set_butlastD)

lemma walk_comps_proper:
  assumes "walk [] (comps p) = Some cs" "CHR 0x00 \<notin> set p"
  shows "\<forall>c \<in> set cs. proper c"
proof
  fix c assume c: "c \<in> set cs"
  then have "c \<in> set (comps p)" using walk_subset [OF assms(1)] by auto
  then have "SLASH \<notin> set c" "CHR 0x00 \<notin> set c" using comps_no_slash comps_subset assms(2) by blast+
  moreover have "plain c" using walk_keeps_plain [OF assms(1)] c by simp
  ultimately show "proper c" by (simp add: proper_def)
qed

lemma walk_last: "walk st (cs @ [c]) = Some r \<Longrightarrow> plain c \<Longrightarrow> r \<noteq> []"
  by (auto simp: walk_append plain_def split: Option.bind_splits)

text \<open>What a successful normalisation gives, the empty string apart.\<close>

lemma normalize_canon:
  assumes "nfs_normalize_path p = Some (Inr q)" "CHR 0x00 \<notin> set p"
  shows "q = [] \<or> (\<exists>cs. canon q cs)"
proof -
  obtain cs where cs: "walk [] (comps p) = Some cs" "q = (if cs = [] \<and> last p = SLASH then ''/'' else render cs)"
    using normalize_walk [of p] assms(1) by auto
  show ?thesis
  proof (cases "cs = []")
    case False
    then show ?thesis using cs walk_comps_proper [OF cs(1) assms(2)] unfolding canon_def by auto
  next
    case True
    then have "q = [] \<or> canon q []" using cs(2) by (auto simp: canon_def render_def)
    then show ?thesis by blast
  qed
qed

lemma normalize_nonempty:
  assumes "nfs_normalize_path p = Some (Inr q)" "last (comps p) = [] \<or> plain (last (comps p))"
  shows "q \<noteq> []"
proof -
  obtain cs where p: "p \<noteq> []"
    and cs: "walk [] (comps p) = Some cs" "q = (if cs = [] \<and> last p = SLASH then ''/'' else render cs)"
    using normalize_walk [of p] assms(1) by auto
  show ?thesis
  proof (cases "last (comps p) = []")
    case True
    then have "last p = SLASH" using last_comps [OF p] by simp
    then show ?thesis using cs(2) by (cases cs) (auto simp: render_def)
  next
    case False
    then have "plain (last (comps p))" using assms(2) by simp
    then have "cs \<noteq> []" using walk_last [of "[]" "butlast (comps p)" "last (comps p)"] cs(1) by simp
    then show ?thesis using cs(2) by (cases cs) (auto simp: render_def)
  qed
qed

lemma normalize_not_faulty: "nfs_normalize_path p \<noteq> None"
  using normalize_walk [of p] by (cases "nfs_normalize_path p") auto

lemma canon_normalize: "canon q cs \<Longrightarrow> nfs_normalize_path q = Some (Inr q)"
proof (cases "cs = []")
  case True
  assume "canon q cs"
  then have "q = ''/''" using True by (simp add: canon_def)
  moreover have "nfs_normalize_path ''/'' = Some (Inr ''/'')" by code_simp
  ultimately show ?thesis by simp
next
  case False
  assume "canon q cs"
  then have q: "q = render cs" and pl: "\<forall>c \<in> set cs. plain c" and ns: "\<forall>c \<in> set cs. SLASH \<notin> set c"
    using False by (auto simp: canon_def proper_def)
  have w: "walk [] (comps q) = Some cs" using q ns pl by (simp add: comps_render walk_plain)
  have a: "q \<noteq> [] \<and> hd q = SLASH" using q False by (cases cs) (auto simp: render_def)
  obtain r where r: "nfs_normalize_path q = Some r" using normalize_not_faulty by blast
  show ?thesis
  proof (cases r)
    case (Inl e)
    then show ?thesis using normalize_walk [of q] r w a by simp
  next
    case (Inr p)
    then show ?thesis using normalize_walk [of q] r w q False by simp
  qed
qed



end
