(* ===== verification/Nfs4_Op.thy ===== *)
theory Nfs4_Op
  imports Nfs4_Attr Nfs3_Attr Nfs_Path
begin

text \<open>
  The operations of an NFSv4 compound as lib/nfs_v4.c builds them: the argument records, one definition
  for each \<open>nfs4_op_\<close> function, and \<open>nfs4_allocate_op\<close> with the path of a request.  A builder that fills
  \<open>op[0]\<close> onwards and returns how many it filled is a list of operations.
\<close>

section \<open>State of the client and of an open file\<close>

record stateid =
  sid_seqid :: u32
  sid_other :: "u8 list"

definition zero_stateid :: stateid where
  "zero_stateid = \<lparr>sid_seqid = 0, sid_other = replicate 12 0\<rparr>"

record nfsfh =
  fh_val :: "u8 list"
  is_sync :: bool
  is_append :: bool
  is_dirty :: bool
  fh_offset :: u64
  fh_stateid :: stateid
  fh_open_owner :: u32
  open_seqid :: u32
  lock_seqid :: u32
  lock_stateid :: stateid

definition zero_nfsfh :: nfsfh where
  "zero_nfsfh = \<lparr>fh_val = [], is_sync = False, is_append = False, is_dirty = False, fh_offset = 0,
     fh_stateid = zero_stateid, fh_open_owner = 0, open_seqid = 0, lock_seqid = 0, lock_stateid = zero_stateid\<rparr>"

record nfs_context_internal =
  ni_server :: "string option"
  ni_export :: string
  ni_cwd :: string
  ni_rootfh :: "nat \<times> u8 list option"
  ni_nfsport :: int
  readdir_dircount :: u32
  readdir_maxcount :: u32
  ni_verifier :: "u8 list"
  ni_client_name :: string
  ni_clientid :: u64
  ni_setclientid_confirm :: "u8 list"
  open_counter :: u32
  has_lock_owner :: bool

section \<open>Attribute masks\<close>

abbreviation attr_bit :: "nat \<Rightarrow> u32" where "attr_bit n \<equiv> push_bit n 1"

definition standard_attributes :: "u32 list" where
  "standard_attributes =
     [attr_bit 1 OR attr_bit 4 OR attr_bit 20,
      attr_bit (33 - 32) OR attr_bit (35 - 32) OR attr_bit (36 - 32) OR attr_bit (37 - 32) OR
      attr_bit (45 - 32) OR attr_bit (47 - 32) OR attr_bit (52 - 32) OR attr_bit (53 - 32)]"

definition statvfs_attributes :: "u32 list" where
  "statvfs_attributes =
     [attr_bit 8 OR attr_bit 21 OR attr_bit 22 OR attr_bit 23 OR attr_bit 29,
      attr_bit (42 - 32) OR attr_bit (43 - 32) OR attr_bit (44 - 32)]"

definition getacl_attributes :: "u32 list" where
  "getacl_attributes = [attr_bit 12]"

section \<open>Arguments of the operations\<close>

record createtype4 =
  ct_type :: u32
  ct_linkdata :: "string option"
  ct_devdata :: "(u32 \<times> u32) option"

datatype locker4 =
    Lock_owner stateid u32
  | Open_owner u32 stateid u64 string u32

datatype createhow4 =
    Unchecked "u32 list" "u8 list"
  | Exclusive "u8 list"

record open4args =
  oa_seqid :: u32
  oa_share_access :: u32
  oa_share_deny :: u32
  oa_clientid :: u64
  oa_owner :: u32
  oa_openhow :: "createhow4 option"
  oa_file :: string

text \<open>\<open>A_UNINIT\<close> is an element of the array that nobody filled.  In \<open>A_SETATTR\<close> the state identifier is
  \<open>None\<close> where the code leaves that member as it was.\<close>

datatype nfs_argop4 =
    A_ACCESS u32
  | A_CLOSE u32 stateid
  | A_COMMIT u64 u32
  | A_CREATE createtype4 string "u32 list" "u8 list"
  | A_GETATTR "u32 list"
  | A_GETFH
  | A_LINK string
  | A_LOCK u32 bool u64 u64 locker4
  | A_LOCKT u32 u64 u64 u64 string
  | A_LOCKU u32 u32 stateid u64 u64
  | A_LOOKUP string
  | A_OPEN open4args
  | A_OPEN_CONFIRM stateid u32
  | A_PUTFH "u8 list"
  | A_PUTROOTFH
  | A_READ stateid u64 u32
  | A_READDIR u64 u32 u32 "u32 list"
  | A_READLINK
  | A_REMOVE string
  | A_RENAME string string
  | A_SAVEFH
  | A_SETATTR "stateid option" "u32 list" "u8 list"
  | A_SETCLIENTID "u8 list" string
  | A_SETCLIENTID_CONFIRM u64 "u8 list"
  | A_WRITE stateid u64 u32 "u8 list"
  | A_UNINIT

section \<open>The builders\<close>

abbreviation NF4BLK :: u32 where "NF4BLK \<equiv> 3"
abbreviation NF4CHR :: u32 where "NF4CHR \<equiv> 4"
abbreviation NF4LNK :: u32 where "NF4LNK \<equiv> 5"
abbreviation NF4DIR :: u32 where "NF4DIR \<equiv> 2"

definition nfs4_op_create ::
  "string \<Rightarrow> u32 \<Rightarrow> u32 list option \<Rightarrow> u8 list option \<Rightarrow> string option \<Rightarrow> u32 \<Rightarrow> nfs_argop4 list" where
  "nfs4_op_create name type attrmask attr_vals linkdata dev =
     [A_CREATE
        \<lparr>ct_type = type, ct_linkdata = linkdata,
         ct_devdata = (if type = NF4CHR \<or> type = NF4BLK
                       then Some (major_of (scast dev), minor_of (scast dev)) else None)\<rparr>
        name
        (case attrmask of None \<Rightarrow> [] | Some m \<Rightarrow> m)
        (case attr_vals of None \<Rightarrow> [] | Some v \<Rightarrow> v)]"

definition nfs4_op_commit :: "nfs_argop4 list" where
  "nfs4_op_commit = [A_COMMIT 0 0]"

definition nfs4_op_close :: "nfsfh \<Rightarrow> nfs_argop4 list" where
  "nfs4_op_close nfh = (if is_dirty nfh then nfs4_op_commit else []) @ [A_CLOSE (open_seqid nfh) (fh_stateid nfh)]"

definition nfs4_op_access :: "u32 \<Rightarrow> nfs_argop4 list" where
  "nfs4_op_access access_mask = [A_ACCESS access_mask]"

definition nfs4_op_setclientid :: "u8 list \<Rightarrow> string \<Rightarrow> nfs_argop4 list" where
  "nfs4_op_setclientid verifier client_name = [A_SETCLIENTID verifier client_name]"

definition nfs4_op_open_confirm :: "nfsfh \<Rightarrow> nfs_argop4 list" where
  "nfs4_op_open_confirm nfh = [A_OPEN_CONFIRM (fh_stateid nfh) (open_seqid nfh)]"

definition nfs4_op_truncate :: "nfsfh \<Rightarrow> u8 list \<Rightarrow> nfs_argop4 list" where
  "nfs4_op_truncate nfh sabuf =
     [A_SETATTR (Some (fh_stateid nfh)) [attr_bit 4, attr_bit (54 - 32)] (take 12 sabuf)]"

definition nfs4_op_chmod :: "nfsfh option \<Rightarrow> u8 list \<Rightarrow> nfs_argop4 list" where
  "nfs4_op_chmod nfh sabuf =
     [A_SETATTR (map_option fh_stateid nfh) [0, attr_bit (33 - 32)] (take 4 sabuf)]"

definition nfs4_op_chown :: "nfsfh option \<Rightarrow> u8 list \<Rightarrow> nat \<Rightarrow> nfs_argop4 list" where
  "nfs4_op_chown nfh sabuf len =
     [A_SETATTR (map_option fh_stateid nfh) [0, attr_bit (36 - 32) OR attr_bit (37 - 32)] (take len sabuf)]"

definition nfs4_op_utimes :: "nfsfh option \<Rightarrow> u8 list \<Rightarrow> nat \<Rightarrow> nfs_argop4 list" where
  "nfs4_op_utimes nfh sabuf len =
     [A_SETATTR (map_option fh_stateid nfh) [0, attr_bit (48 - 32) OR attr_bit (54 - 32)] (take len sabuf)]"

definition nfs4_op_readdir :: "nfs_context_internal \<Rightarrow> u64 \<Rightarrow> nfs_argop4 list" where
  "nfs4_op_readdir nfsi cookie =
     [A_READDIR cookie (readdir_dircount nfsi) (readdir_maxcount nfsi) standard_attributes]"

definition nfs4_op_rename :: "string \<Rightarrow> string \<Rightarrow> nfs_argop4 list" where
  "nfs4_op_rename oldname newname = [A_RENAME oldname newname]"

definition nfs4_op_read :: "nfsfh \<Rightarrow> u64 \<Rightarrow> u64 \<Rightarrow> nfs_argop4 list" where
  "nfs4_op_read nfh offset cnt = [A_READ (fh_stateid nfh) offset (ucast cnt)]"

abbreviation DATA_SYNC4 :: u32 where "DATA_SYNC4 \<equiv> 1"
abbreviation UNSTABLE4 :: u32 where "UNSTABLE4 \<equiv> 0"

definition nfs4_op_write :: "nfsfh \<Rightarrow> u64 \<Rightarrow> u64 \<Rightarrow> u8 list \<Rightarrow> nfs_argop4 list \<times> nfsfh" where
  "nfs4_op_write nfh offset cnt buf =
     (if is_sync nfh then ([A_WRITE (fh_stateid nfh) offset DATA_SYNC4 (take (unat (ucast cnt :: u32)) buf)], nfh)
      else ([A_WRITE (fh_stateid nfh) offset UNSTABLE4 (take (unat (ucast cnt :: u32)) buf)], nfh\<lparr>is_dirty := True\<rparr>))"

definition nfs4_op_getfh :: "nfs_argop4 list" where
  "nfs4_op_getfh = [A_GETFH]"

definition nfs4_op_savefh :: "nfs_argop4 list" where
  "nfs4_op_savefh = [A_SAVEFH]"

definition nfs4_op_link :: "string \<Rightarrow> nfs_argop4 list" where
  "nfs4_op_link newname = [A_LINK newname]"

definition nfs4_op_putfh :: "u8 list \<Rightarrow> nfs_argop4 list" where
  "nfs4_op_putfh nfh = [A_PUTFH nfh]"

abbreviation READ_LT :: u32 where "READ_LT \<equiv> 1"
abbreviation WRITE_LT :: u32 where "WRITE_LT \<equiv> 2"
abbreviation READW_LT :: u32 where "READW_LT \<equiv> 3"
abbreviation WRITEW_LT :: u32 where "WRITEW_LT \<equiv> 4"

text \<open>The lock owner is new for the client only until its first lock succeeded, on whichever file.\<close>

definition nfs4_op_lock ::
  "nfs_context_internal \<Rightarrow> nfsfh \<Rightarrow> u32 \<Rightarrow> bool \<Rightarrow> u64 \<Rightarrow> u64 \<Rightarrow> nfs_argop4 list \<times> nfsfh" where
  "nfs4_op_lock nfsi nfh locktype reclaim offset len =
     ([A_LOCK locktype reclaim offset len
        (if has_lock_owner nfsi then Lock_owner (lock_stateid nfh) (lock_seqid nfh)
         else Open_owner (open_seqid nfh) (fh_stateid nfh) (ni_clientid nfsi) (ni_client_name nfsi) (lock_seqid nfh))],
      nfh\<lparr>lock_seqid := lock_seqid nfh + 1\<rparr>)"

definition nfs4_op_locku :: "nfsfh \<Rightarrow> u32 \<Rightarrow> u64 \<Rightarrow> u64 \<Rightarrow> nfs_argop4 list \<times> nfsfh" where
  "nfs4_op_locku nfh locktype offset len =
     ([A_LOCKU locktype (lock_seqid nfh) (lock_stateid nfh) offset len], nfh\<lparr>lock_seqid := lock_seqid nfh + 1\<rparr>)"

definition nfs4_op_lockt :: "nfs_context_internal \<Rightarrow> u32 \<Rightarrow> u64 \<Rightarrow> u64 \<Rightarrow> nfs_argop4 list" where
  "nfs4_op_lockt nfsi locktype offset len =
     [A_LOCKT locktype offset len (ni_clientid nfsi) (ni_client_name nfsi)]"

definition nfs4_op_lookup :: "string \<Rightarrow> nfs_argop4 list" where
  "nfs4_op_lookup path = [A_LOOKUP path]"

definition nfs4_op_setclientid_confirm :: "u64 \<Rightarrow> u8 list \<Rightarrow> nfs_argop4 list" where
  "nfs4_op_setclientid_confirm clientid verifier = [A_SETCLIENTID_CONFIRM clientid verifier]"

definition nfs4_op_putrootfh :: "nfs_argop4 list" where
  "nfs4_op_putrootfh = [A_PUTROOTFH]"

definition nfs4_op_readlink :: "nfs_argop4 list" where
  "nfs4_op_readlink = [A_READLINK]"

definition nfs4_op_remove :: "string \<Rightarrow> nfs_argop4 list" where
  "nfs4_op_remove name = [A_REMOVE name]"

definition nfs4_op_getattr :: "u32 list \<Rightarrow> nfs_argop4 list" where
  "nfs4_op_getattr attributes = [A_GETATTR attributes]"

lemmas nfs4_op_defs =
  nfs4_op_create_def nfs4_op_commit_def nfs4_op_close_def nfs4_op_access_def nfs4_op_setclientid_def
  nfs4_op_open_confirm_def nfs4_op_truncate_def nfs4_op_chmod_def nfs4_op_chown_def nfs4_op_utimes_def
  nfs4_op_readdir_def nfs4_op_rename_def nfs4_op_read_def nfs4_op_write_def nfs4_op_getfh_def
  nfs4_op_savefh_def nfs4_op_link_def nfs4_op_putfh_def nfs4_op_lock_def nfs4_op_locku_def
  nfs4_op_lockt_def nfs4_op_lookup_def nfs4_op_setclientid_confirm_def nfs4_op_putrootfh_def
  nfs4_op_readlink_def nfs4_op_remove_def nfs4_op_getattr_def

section \<open>The path of a request\<close>

text \<open>The C string at the start of a buffer.\<close>

definition cstr :: "string \<Rightarrow> string" where
  "cstr = takeWhile (\<lambda>c. c \<noteq> CHR 0x00)"

definition nfs4_num_path_components :: "string \<Rightarrow> nat" where
  "nfs4_num_path_components path = length (filter (\<lambda>c. c = SLASH) path)"

text \<open>The loop over the components: \<open>ptr\<close> is the rest of the string.\<close>

function lookup_ops :: "string \<Rightarrow> nfs_argop4 list" where
  "lookup_ops ptr =
     (if ptr = [] then []
      else nfs4_op_lookup (takeWhile (\<lambda>c. c \<noteq> SLASH) ptr) @
        (case dropWhile (\<lambda>c. c \<noteq> SLASH) ptr of [] \<Rightarrow> [] | _ # tmp \<Rightarrow> lookup_ops tmp))"
  by pat_completeness auto
termination
proof (relation "measure length")
  fix ptr c tmp assume "dropWhile (\<lambda>c. c \<noteq> SLASH) ptr = c # tmp"
  then show "(tmp, ptr) \<in> measure length" using length_dropWhile_le [of "\<lambda>c. c \<noteq> SLASH" ptr] by simp
qed simp

declare lookup_ops.simps [simp del]

text \<open>
  The argument is the buffer of the path, which may hold more behind a NUL; reading \<open>path[1]\<close> of an
  empty string is the fault \<open>None\<close>, as is copying the file handle of the root when there is none.  The array has room for
  \<open>2 + 2 * count + num_extra\<close> operations; filling more is a fault.  The result pairs the operations with
  the room of the array.
\<close>

definition nfs4_allocate_op ::
  "nfs_context_internal \<Rightarrow> string \<Rightarrow> nat \<Rightarrow> (nfs_argop4 list \<times> nat) option" where
  "nfs4_allocate_op nfsi path num_extra =
     (let room = 2 + 2 * nfs4_num_path_components (cstr path) + num_extra;
          start = (if fst (ni_rootfh nfsi) \<noteq> 0 then map_option nfs4_op_putfh (snd (ni_rootfh nfsi))
                   else Some nfs4_op_putrootfh)
      in case (start, path) of
           (Some st, _ # ptr) \<Rightarrow>
             let op = st @ lookup_ops (cstr ptr) @ nfs4_op_getattr standard_attributes in
             if length op \<le> room then Some (op, room) else None
         | _ \<Rightarrow> None)"

lemma cstr_id: "CHR 0x00 \<notin> set s \<Longrightarrow> cstr s = s"
  by (auto simp: cstr_def takeWhile_eq_all_conv)

lemma lookup_ops_Nil [simp]: "lookup_ops [] = []"
  by (simp add: lookup_ops.simps)

lemma lookup_ops_step: "SLASH \<notin> set c \<Longrightarrow> c \<noteq> [] \<Longrightarrow> lookup_ops (c @ SLASH # p) = A_LOOKUP c # lookup_ops p"
  by (subst lookup_ops.simps) (auto simp: takeWhile_append dropWhile_append nfs4_op_lookup_def)

lemma lookup_ops_last: "SLASH \<notin> set c \<Longrightarrow> c \<noteq> [] \<Longrightarrow> lookup_ops c = [A_LOOKUP c]"
proof -
  assume c: "SLASH \<notin> set c" "c \<noteq> []"
  then have t: "takeWhile (\<lambda>x. x \<noteq> SLASH) c = c" and d: "dropWhile (\<lambda>x. x \<noteq> SLASH) c = []"
    by (auto simp: takeWhile_eq_all_conv)
  show ?thesis using c(2) by (subst lookup_ops.simps, subst t, subst d) (simp add: nfs4_op_lookup_def)
qed

lemma lookup_ops_render:
  assumes "\<forall>c \<in> set cs. SLASH \<notin> set c \<and> c \<noteq> []"
  shows "lookup_ops (tl (render cs)) = map A_LOOKUP cs"
  using assms
proof (induction cs)
  case (Cons c cs)
  show ?case
  proof (cases cs)
    case Nil
    then show ?thesis using Cons.prems by (simp add: render_def lookup_ops_last)
  next
    case cs: (Cons d ds)
    then have "lookup_ops (tl (render (c # cs))) = A_LOOKUP c # lookup_ops (tl (render cs))"
      using Cons.prems by (simp add: render_def lookup_ops_step)
    then show ?thesis using Cons.IH Cons.prems by simp
  qed
qed (simp add: render_def)

lemma count_slashes: "SLASH \<notin> set c \<Longrightarrow> filter (\<lambda>c. c = SLASH) c = []"
  by (auto simp: filter_empty_conv)

lemma num_components_render:
  "\<forall>c \<in> set cs. SLASH \<notin> set c \<Longrightarrow> nfs4_num_path_components (render cs) = length cs"
  by (induction cs) (auto simp: nfs4_num_path_components_def render_def count_slashes)

lemma render_no_nul: "\<forall>c \<in> set cs. CHR 0x00 \<notin> set c \<Longrightarrow> CHR 0x00 \<notin> set (render cs)"
  by (auto simp: render_def)

text \<open>For the components of a path the compound looks them up one by one, from the root of the export or,
  once it is known, from its file handle.  The array has room for all of it and for what is asked for.\<close>

definition start_op :: "nfs_context_internal \<Rightarrow> nfs_argop4" where
  "start_op nfsi = (if fst (ni_rootfh nfsi) \<noteq> 0 then A_PUTFH (the (snd (ni_rootfh nfsi))) else A_PUTROOTFH)"

text \<open>A file handle of the root that has a length is there.\<close>

definition rootfh_ok :: "nfs_context_internal \<Rightarrow> bool" where
  "rootfh_ok nfsi \<longleftrightarrow> fst (ni_rootfh nfsi) = 0 \<or> snd (ni_rootfh nfsi) \<noteq> None"

lemma nfs4_allocate_op_render:
  assumes "\<forall>c \<in> set cs. SLASH \<notin> set c \<and> CHR 0x00 \<notin> set c \<and> c \<noteq> []" "cs \<noteq> []" "rootfh_ok nfsi"
  shows "nfs4_allocate_op nfsi (render cs) extra =
     Some (start_op nfsi # map A_LOOKUP cs @ [A_GETATTR standard_attributes], 2 + 2 * length cs + extra)"
proof -
  obtain p where p: "render cs = SLASH # p" using assms(2) by (cases cs) (auto simp: render_def)
  have "CHR 0x00 \<notin> set (render cs)" using assms(1) by (simp add: render_no_nul)
  then have n: "cstr (render cs) = render cs" "cstr p = p" using p by (auto intro: cstr_id)
  have l: "lookup_ops p = map A_LOOKUP cs" using lookup_ops_render [of cs] assms(1) p by simp
  have c: "nfs4_num_path_components (SLASH # p) = length cs" using num_components_render [of cs] assms(1) p by simp
  show ?thesis using n c l assms(3) unfolding nfs4_allocate_op_def p
    by (auto simp: Let_def start_op_def rootfh_ok_def nfs4_op_putfh_def nfs4_op_putrootfh_def nfs4_op_getattr_def)
qed

lemma nfs4_allocate_op_root:
  "rootfh_ok nfsi \<Longrightarrow> nfs4_allocate_op nfsi ''/'' extra = Some ([start_op nfsi, A_GETATTR standard_attributes], 4 + extra)"
  "nfs4_allocate_op nfsi [] extra = None"
  by (auto simp: rootfh_ok_def nfs4_allocate_op_def start_op_def nfs4_op_putfh_def nfs4_op_putrootfh_def
      nfs4_op_getattr_def cstr_def nfs4_num_path_components_def split: option.splits)

end
