(* ===== verification/Nfs4_Req.thy ===== *)
theory Nfs4_Req
  imports Nfs4_Op
begin

text \<open>
  A request of the NFSv4 client of lib/nfs_v4.c: the structure \<open>nfs4_cb_data\<close> that lives from the call of
  an \<open>nfs4_..._async\<close> function to the callback of the application, and what the functions do with it.
  The callbacks of the code are the values of the type \<open>cont\<close>.  The state of the model holds one request;
  freeing it makes it \<open>None\<close>, so that using or freeing it again is a fault.  Allocation, the queue of the
  RPC layer and the tables of libnfs that are not in the sources are functions of the world.
\<close>

abbreviation EINTR :: int where "EINTR \<equiv> 4"
abbreviation EFAULT :: int where "EFAULT \<equiv> 14"
abbreviation ELOOP :: int where "ELOOP \<equiv> 40"

section \<open>Replies\<close>

datatype rpc_status = RPC_STATUS_SUCCESS | RPC_STATUS_ERROR | RPC_STATUS_CANCEL | RPC_STATUS_TIMEOUT

datatype nfs_opnum4 =
    OP_ACCESS | OP_CLOSE | OP_COMMIT | OP_CREATE | OP_GETATTR | OP_GETFH | OP_LINK | OP_LOCK | OP_LOCKT
  | OP_LOCKU | OP_LOOKUP | OP_OPEN | OP_OPEN_CONFIRM | OP_PUTFH | OP_PUTROOTFH | OP_READ | OP_READDIR
  | OP_READLINK | OP_REMOVE | OP_RENAME | OP_SAVEFH | OP_SETATTR | OP_SETCLIENTID
  | OP_SETCLIENTID_CONFIRM | OP_WRITE | OP_ILLEGAL

record entry4 =
  e_cookie :: u64
  e_name :: string
  e_attrs :: "u8 list"

text \<open>Operations of whose results the code reads nothing.\<close>

datatype plain_op =
    P_CLOSE | P_COMMIT | P_CREATE | P_LINK | P_LOCKT | P_PUTFH | P_PUTROOTFH | P_REMOVE | P_RENAME
  | P_SAVEFH | P_SETATTR | P_SETCLIENTID_CONFIRM | P_ILLEGAL

primrec plain_num :: "plain_op \<Rightarrow> nfs_opnum4" where
  "plain_num P_CLOSE = OP_CLOSE"
| "plain_num P_COMMIT = OP_COMMIT"
| "plain_num P_CREATE = OP_CREATE"
| "plain_num P_LINK = OP_LINK"
| "plain_num P_LOCKT = OP_LOCKT"
| "plain_num P_PUTFH = OP_PUTFH"
| "plain_num P_PUTROOTFH = OP_PUTROOTFH"
| "plain_num P_REMOVE = OP_REMOVE"
| "plain_num P_RENAME = OP_RENAME"
| "plain_num P_SAVEFH = OP_SAVEFH"
| "plain_num P_SETATTR = OP_SETATTR"
| "plain_num P_SETCLIENTID_CONFIRM = OP_SETCLIENTID_CONFIRM"
| "plain_num P_ILLEGAL = OP_ILLEGAL"

text \<open>The result of an operation: its status and the members of the union the code reads.\<close>

datatype nfs_resop4 =
    R_ACCESS u32 u32 u32
  | R_GETATTR u32 "u8 list"
  | R_GETFH u32 "u8 list"
  | R_LOCK u32 stateid
  | R_LOCKU u32 stateid
  | R_LOOKUP u32
  | R_OPEN u32 stateid u32
  | R_OPEN_CONFIRM u32 stateid
  | R_READ u32 "u8 list"
  | R_READDIR u32 "entry4 list" bool
  | R_READLINK u32 string
  | R_SETCLIENTID u32 u64 "u8 list"
  | R_WRITE u32 u32
  | R_PLAIN plain_op u32

primrec resop :: "nfs_resop4 \<Rightarrow> nfs_opnum4" where
  "resop (R_ACCESS _ _ _) = OP_ACCESS"
| "resop (R_GETATTR _ _) = OP_GETATTR"
| "resop (R_GETFH _ _) = OP_GETFH"
| "resop (R_LOCK _ _) = OP_LOCK"
| "resop (R_LOCKU _ _) = OP_LOCKU"
| "resop (R_LOOKUP _) = OP_LOOKUP"
| "resop (R_OPEN _ _ _) = OP_OPEN"
| "resop (R_OPEN_CONFIRM _ _) = OP_OPEN_CONFIRM"
| "resop (R_READ _ _) = OP_READ"
| "resop (R_READDIR _ _ _) = OP_READDIR"
| "resop (R_READLINK _ _) = OP_READLINK"
| "resop (R_SETCLIENTID _ _ _) = OP_SETCLIENTID"
| "resop (R_WRITE _ _) = OP_WRITE"
| "resop (R_PLAIN p _) = plain_num p"

text \<open>The number of an operation of a compound.\<close>

primrec argop :: "nfs_argop4 \<Rightarrow> nfs_opnum4" where
  "argop (A_ACCESS _) = OP_ACCESS"
| "argop (A_CLOSE _ _) = OP_CLOSE"
| "argop (A_COMMIT _ _) = OP_COMMIT"
| "argop (A_CREATE _ _ _ _) = OP_CREATE"
| "argop (A_GETATTR _) = OP_GETATTR"
| "argop A_GETFH = OP_GETFH"
| "argop (A_LINK _) = OP_LINK"
| "argop (A_LOCK _ _ _ _ _) = OP_LOCK"
| "argop (A_LOCKT _ _ _ _ _) = OP_LOCKT"
| "argop (A_LOCKU _ _ _ _ _) = OP_LOCKU"
| "argop (A_LOOKUP _) = OP_LOOKUP"
| "argop (A_OPEN _) = OP_OPEN"
| "argop (A_OPEN_CONFIRM _ _) = OP_OPEN_CONFIRM"
| "argop (A_PUTFH _) = OP_PUTFH"
| "argop A_PUTROOTFH = OP_PUTROOTFH"
| "argop (A_READ _ _ _) = OP_READ"
| "argop (A_READDIR _ _ _ _) = OP_READDIR"
| "argop A_READLINK = OP_READLINK"
| "argop (A_REMOVE _) = OP_REMOVE"
| "argop (A_RENAME _ _) = OP_RENAME"
| "argop A_SAVEFH = OP_SAVEFH"
| "argop (A_SETATTR _ _ _) = OP_SETATTR"
| "argop (A_SETCLIENTID _ _) = OP_SETCLIENTID"
| "argop (A_SETCLIENTID_CONFIRM _ _) = OP_SETCLIENTID_CONFIRM"
| "argop (A_WRITE _ _ _ _) = OP_WRITE"
| "argop A_UNINIT = OP_ILLEGAL"

text \<open>A result with the number of an operation whose members the code reads has those members.\<close>

lemma resop_cases:
  "resop r = OP_ACCESS \<Longrightarrow> \<exists>a b c. r = R_ACCESS a b c"
  "resop r = OP_GETATTR \<Longrightarrow> \<exists>a b. r = R_GETATTR a b"
  "resop r = OP_GETFH \<Longrightarrow> \<exists>a b. r = R_GETFH a b"
  "resop r = OP_LOCK \<Longrightarrow> \<exists>a b. r = R_LOCK a b"
  "resop r = OP_LOCKU \<Longrightarrow> \<exists>a b. r = R_LOCKU a b"
  "resop r = OP_LOOKUP \<Longrightarrow> \<exists>a. r = R_LOOKUP a"
  "resop r = OP_OPEN \<Longrightarrow> \<exists>a b c. r = R_OPEN a b c"
  "resop r = OP_OPEN_CONFIRM \<Longrightarrow> \<exists>a b. r = R_OPEN_CONFIRM a b"
  "resop r = OP_READ \<Longrightarrow> \<exists>a b. r = R_READ a b"
  "resop r = OP_READDIR \<Longrightarrow> \<exists>a b c. r = R_READDIR a b c"
  "resop r = OP_READLINK \<Longrightarrow> \<exists>a b. r = R_READLINK a b"
  "resop r = OP_SETCLIENTID \<Longrightarrow> \<exists>a b c. r = R_SETCLIENTID a b c"
  "resop r = OP_WRITE \<Longrightarrow> \<exists>a b. r = R_WRITE a b"
proof -
  have p: "plain_num q \<notin> {OP_ACCESS, OP_GETATTR, OP_GETFH, OP_LOCK, OP_LOCKU, OP_LOOKUP, OP_OPEN, OP_OPEN_CONFIRM,
      OP_READ, OP_READDIR, OP_READLINK, OP_SETCLIENTID, OP_WRITE}" for q
    by (cases q) simp_all
  show "resop r = OP_ACCESS \<Longrightarrow> \<exists>a b c. r = R_ACCESS a b c"
    "resop r = OP_GETATTR \<Longrightarrow> \<exists>a b. r = R_GETATTR a b"
    "resop r = OP_GETFH \<Longrightarrow> \<exists>a b. r = R_GETFH a b"
    "resop r = OP_LOCK \<Longrightarrow> \<exists>a b. r = R_LOCK a b"
    "resop r = OP_LOCKU \<Longrightarrow> \<exists>a b. r = R_LOCKU a b"
    "resop r = OP_LOOKUP \<Longrightarrow> \<exists>a. r = R_LOOKUP a"
    "resop r = OP_OPEN \<Longrightarrow> \<exists>a b c. r = R_OPEN a b c"
    "resop r = OP_OPEN_CONFIRM \<Longrightarrow> \<exists>a b. r = R_OPEN_CONFIRM a b"
    "resop r = OP_READ \<Longrightarrow> \<exists>a b. r = R_READ a b"
    "resop r = OP_READDIR \<Longrightarrow> \<exists>a b c. r = R_READDIR a b c"
    "resop r = OP_READLINK \<Longrightarrow> \<exists>a b. r = R_READLINK a b"
    "resop r = OP_SETCLIENTID \<Longrightarrow> \<exists>a b c. r = R_SETCLIENTID a b c"
    "resop r = OP_WRITE \<Longrightarrow> \<exists>a b. r = R_WRITE a b"
    using p by (cases r; force)+
qed

record compound4res =
  cr_status :: u32
  resarray :: "nfs_resop4 list"

type_synonym reply = "rpc_status \<times> compound4res option"

abbreviation NFS4_OK :: u32 where "NFS4_OK \<equiv> 0"
abbreviation NFS4ERR_SYMLINK :: u32 where "NFS4ERR_SYMLINK \<equiv> 10029"

section \<open>The request\<close>

text \<open>Functions that are called back.\<close>

datatype cont =
    Lookup_1 | Lookup_2 | Mount_1 | Mount_2 | Mount_3 | Mount_4 | Chdir_1 | Xstat64 | Mkdir | Remove
  | Open_setattr | Open_truncate | Open_chmod | Open_confirm | Open | Open_readlink | Getacl | Close
  | Pread | Symlink | Readlink | Pwrite | Write_append | Link_1 | Link_2 | Rename_1 | Rename_2 | Mknod
  | Opendir | Opendir_2 | Truncate_close | Truncate_open | Fsync | Lseek | Lockf | Fcntl | Fcntl_stat
  | Statvfs | Chmod | Chown | Access | Utimes

text \<open>Functions that append the operations of a request to the lookup of its path.\<close>

datatype op_filler =
    F_getfh | F_getattr | F_access | F_mkdir | F_remove | F_open | F_lookup_readlink | F_symlink
  | F_readlink | F_link | F_rename | F_mknod | F_readdir | F_chmod | F_chown | F_utimes

record nfsdirent =
  de_name :: string
  de_inode :: u64
  de_mode :: u32
  de_type :: "u32 option"
  de_size :: u64
  de_atime :: "u64 \<times> u64 \<times> u32"
  de_mtime :: "u64 \<times> u64 \<times> u32"
  de_ctime :: "u64 \<times> u64 \<times> u32"
  de_uid :: u32
  de_gid :: u32
  de_nlink :: u32
  de_dev :: u64
  de_rdev :: u64
  de_blksize :: u64
  de_blocks :: u64
  de_used :: u64

text \<open>What a \<open>void *\<close> of the request points to: \<open>B_fh\<close> an open file by its number in the state, \<open>B_flock\<close>
  the lock description of the application.\<close>

datatype blobval =
    B_null
  | B_fh nat
  | B_str string
  | B_bytes "u8 list"
  | B_words "u32 list"
  | B_dir "nfsdirent list"
  | B_flock

record nfs4_blob =
  b_len :: int
  b_val :: blobval
  b_free :: bool

definition no_blob :: nfs4_blob where
  "no_blob = \<lparr>b_len = 0, b_val = B_null, b_free = False\<rparr>"

record nfs4_cb_data =
  LOOKUP_FLAG_NO_FOLLOW :: bool
  LOOKUP_FLAG_IS_STATVFS64 :: bool
  d_open_cb :: "cont option"
  d_open_owner :: u32
  d_continue_cb :: "cont option"
  d_path :: "string option"
  f_func :: "op_filler option"
  f_max_op :: nat
  f_flags :: u32
  f_data :: "string option"
  blob0 :: nfs4_blob
  blob1 :: nfs4_blob
  blob2 :: nfs4_blob
  blob3 :: nfs4_blob
  link_idx :: u32
  rw_offset :: u64
  rw_update_pos :: bool

definition zero_data :: nfs4_cb_data where
  "zero_data = \<lparr>LOOKUP_FLAG_NO_FOLLOW = False, LOOKUP_FLAG_IS_STATVFS64 = False, d_open_cb = None,
     d_open_owner = 0, d_continue_cb = None, d_path = None, f_func = None, f_max_op = 0, f_flags = 0,
     f_data = None, blob0 = no_blob, blob1 = no_blob, blob2 = no_blob, blob3 = no_blob, link_idx = 0,
     rw_offset = 0, rw_update_pos = False\<rparr>"

section \<open>World and state\<close>

record n4world =
  w_alloc :: "nat \<Rightarrow> bool"
  w_pdu :: "nat \<Rightarrow> bool"
  w_encode :: "nfs_argop4 list \<Rightarrow> bool"
  w_queue :: "nat \<Rightarrow> bool"
  w_connect :: bool
  nfsstat3_to_errno :: "u32 \<Rightarrow> int"
  w_blksize :: u64
  w_acl :: "u8 list \<Rightarrow> bool"
  w_time :: u64
  w_pid :: u64

record nfs4_flock =
  l_type :: u32
  l_whence :: u32
  l_start :: u64
  l_len :: u64

text \<open>The third argument of the application's callback.\<close>

datatype cbarg =
    C_null
  | C_text
  | C_result
  | C_fh nat
  | C_stat nfs_stat_64
  | C_statvfs nfs_statvfs_64
  | C_dir "nfsdirent list"
  | C_bytes "u8 list"
  | C_str string
  | C_offset u64
  | C_acl "u8 list"

datatype msg =
    Compound cont "nfs_argop4 list"
  | Connect string int cont

record n4st =
  nfsi :: nfs_context_internal
  nfhs :: "nat \<Rightarrow> nfsfh option"
  next_fh :: nat
  cbd :: "nfs4_cb_data option"
  calls :: "(int \<times> cbarg) list"
  sent :: "msg list"
  nalloc :: nat
  nqueue :: nat
  seed :: u64
  flock :: nfs4_flock

text \<open>\<open>malloc\<close> and \<open>strdup\<close>: whether the next allocation succeeds.\<close>

definition alloc :: "n4world \<Rightarrow> n4st \<Rightarrow> bool \<times> n4st" where
  "alloc W s = (w_alloc W (nalloc s), s\<lparr>nalloc := nalloc s + 1\<rparr>)"

definition upd :: "(nfs4_cb_data \<Rightarrow> nfs4_cb_data) \<Rightarrow> n4st \<Rightarrow> n4st option" where
  "upd f s = (case cbd s of None \<Rightarrow> None | Some d \<Rightarrow> Some (s\<lparr>cbd := Some (f d)\<rparr>))"

definition set_fh :: "nat \<Rightarrow> (nfsfh \<Rightarrow> nfsfh) \<Rightarrow> n4st \<Rightarrow> n4st option" where
  "set_fh n f s = (case nfhs s n of None \<Rightarrow> None | Some h \<Rightarrow> Some (s\<lparr>nfhs := (nfhs s)(n \<mapsto> f h)\<rparr>))"

text \<open>\<open>data->cb\<close>, through a live request.\<close>

definition callback :: "int \<Rightarrow> cbarg \<Rightarrow> n4st \<Rightarrow> n4st option" where
  "callback e a s = (case cbd s of None \<Rightarrow> None | Some _ \<Rightarrow> Some (s\<lparr>calls := calls s @ [(e, a)]\<rparr>))"

definition nfs_free_nfsfh :: "nat \<Rightarrow> n4st \<Rightarrow> n4st option" where
  "nfs_free_nfsfh n s = (case nfhs s n of None \<Rightarrow> None | Some _ \<Rightarrow> Some (s\<lparr>nfhs := (nfhs s)(n := None)\<rparr>))"

definition free_blob :: "nfs4_blob \<Rightarrow> n4st \<Rightarrow> n4st option" where
  "free_blob b s = (if b_free b then case b_val b of B_fh n \<Rightarrow> nfs_free_nfsfh n s | _ \<Rightarrow> Some s else Some s)"

definition free_nfs4_cb_data :: "n4st \<Rightarrow> n4st option" where
  "free_nfs4_cb_data s = do {
     d \<leftarrow> cbd s;
     s \<leftarrow> free_blob (blob0 d) s;
     s \<leftarrow> free_blob (blob1 d) s;
     s \<leftarrow> free_blob (blob2 d) s;
     s \<leftarrow> free_blob (blob3 d) s;
     Some (s\<lparr>cbd := None\<rparr>) }"

text \<open>The callback of the application and the end of the request, in the order the code has them.\<close>

definition finish :: "int \<Rightarrow> cbarg \<Rightarrow> n4st \<Rightarrow> n4st option" where
  "finish e a s = do { s \<leftarrow> callback e a s; free_nfs4_cb_data s }"

section \<open>Queueing\<close>

definition rpc_nfs4_compound_async2 :: "n4world \<Rightarrow> cont \<Rightarrow> nfs_argop4 list \<Rightarrow> n4st \<Rightarrow> int \<times> n4st" where
  "rpc_nfs4_compound_async2 W cb args s =
     (let n = nqueue s; s = s\<lparr>nqueue := n + 1\<rparr> in
      if \<not> w_pdu W n then (-1, s)
      else if \<not> w_encode W args then (-2, s)
      else if \<not> w_queue W n then (-3, s)
      else (0, s\<lparr>sent := sent s @ [Compound cb args]\<rparr>))"

definition rpc_nfs4_compound_async :: "n4world \<Rightarrow> cont \<Rightarrow> nfs_argop4 list \<Rightarrow> n4st \<Rightarrow> int \<times> n4st" where
  "rpc_nfs4_compound_async W cb args s = rpc_nfs4_compound_async2 W cb args s"

section \<open>Paths of a request\<close>

definition nfs4_resolve_path :: "n4world \<Rightarrow> string \<Rightarrow> n4st \<Rightarrow> (string option \<times> n4st) option" where
  "nfs4_resolve_path W path s =
     (let new_path = (if path \<noteq> [] \<and> hd path = SLASH then path else ni_cwd (nfsi s) @ ''/'' @ path);
          (ok, s) = alloc W s
      in if \<not> ok then Some (None, s)
         else case nfs_normalize_path new_path of
           None \<Rightarrow> None
         | Some (Inl _) \<Rightarrow> Some (None, s)
         | Some (Inr p) \<Rightarrow> Some (Some p, s))"

definition init_cb_data_full_path :: "n4world \<Rightarrow> string \<Rightarrow> n4st \<Rightarrow> (bool \<times> n4st) option" where
  "init_cb_data_full_path W path s =
     (let (ok, s) = alloc W s in
      if \<not> ok then Some (False, s)
      else do {
        let s = s\<lparr>cbd := Some zero_data\<rparr>;
        (p, s) \<leftarrow> nfs4_resolve_path W path s;
        case p of
          None \<Rightarrow> do { s \<leftarrow> free_nfs4_cb_data s; Some (False, s) }
        | Some q \<Rightarrow> do { s \<leftarrow> upd (d_path_update (\<lambda>_. Some q)) s; Some (True, s) } })"

text \<open>The last component goes to \<open>filler.data\<close>.  A path without a slash is a write through \<open>NULL\<close>.\<close>

definition data_split_path :: "n4world \<Rightarrow> n4st \<Rightarrow> n4st option" where
  "data_split_path W s = do {
     d \<leftarrow> cbd s;
     p \<leftarrow> d_path d;
     a \<leftarrow> before_slash p;
     let (ok, s) = alloc W s;
     if a = [] then upd (\<lambda>d. d\<lparr>f_data := Some (tl p), d_path := (if ok then Some ''/'' else None)\<rparr>) s
     else upd (\<lambda>d. d\<lparr>d_path := Some a, f_data := (if ok then Some (drop (length a + 1) p) else None)\<rparr>) s }"

definition init_cb_data_split_path :: "n4world \<Rightarrow> string \<Rightarrow> n4st \<Rightarrow> (bool \<times> n4st) option" where
  "init_cb_data_split_path W orig_path s = do {
     (ok, s) \<leftarrow> init_cb_data_full_path W orig_path s;
     if \<not> ok then Some (False, s)
     else do { s \<leftarrow> data_split_path W s; Some (True, s) } }"

section \<open>Errors and results\<close>

text \<open>\<open>True\<close> when the request ended.\<close>

definition check_nfs4_error :: "n4world \<Rightarrow> reply \<Rightarrow> n4st \<Rightarrow> (bool \<times> n4st) option" where
  "check_nfs4_error W r s =
     (case fst r of
        RPC_STATUS_ERROR \<Rightarrow> do { s \<leftarrow> finish (- EFAULT) C_result s; Some (True, s) }
      | RPC_STATUS_CANCEL \<Rightarrow> do { s \<leftarrow> finish (- EINTR) C_text s; Some (True, s) }
      | RPC_STATUS_TIMEOUT \<Rightarrow> do { s \<leftarrow> finish (- EINTR) C_text s; Some (True, s) }
      | RPC_STATUS_SUCCESS \<Rightarrow>
          (case snd r of
             Some res \<Rightarrow>
               if cr_status res \<noteq> NFS4_OK
               then do { s \<leftarrow> finish (nfsstat3_to_errno W (cr_status res)) C_text s; Some (True, s) }
               else Some (False, s)
           | None \<Rightarrow> Some (False, s)))"

definition nfs4_find_op :: "nfs_opnum4 \<Rightarrow> compound4res \<Rightarrow> n4st \<Rightarrow> (nfs_resop4 option \<times> n4st) option" where
  "nfs4_find_op n res s =
     (case find (\<lambda>r. resop r = n) (resarray res) of
        None \<Rightarrow> do { s \<leftarrow> finish (- EINVAL) C_text s; Some (None, s) }
      | Some r \<Rightarrow> Some (Some r, s))"

end
