(* ===== verification/Nfs4_Cb.thy ===== *)
theory Nfs4_Cb
  imports Nfs4_Req
begin

text \<open>
  The callbacks of lib/nfs_v4.c: looking a path up and following symbolic links, the fillers that append
  the operations of a request, and one definition for each function the replies of the server are handed
  to.  \<open>run_cb\<close> calls the function a value of \<open>cont\<close> stands for.
\<close>

section \<open>Open flags and access masks\<close>

abbreviation O_WRONLY :: u32 where "O_WRONLY \<equiv> 0x1"
abbreviation O_RDWR :: u32 where "O_RDWR \<equiv> 0x2"
abbreviation O_CREAT :: u32 where "O_CREAT \<equiv> 0x40"
abbreviation O_EXCL :: u32 where "O_EXCL \<equiv> 0x80"
abbreviation O_TRUNC :: u32 where "O_TRUNC \<equiv> 0x200"
abbreviation O_APPEND :: u32 where "O_APPEND \<equiv> 0x400"
abbreviation O_SYNC :: u32 where "O_SYNC \<equiv> 0x101000"
abbreviation O_NOFOLLOW :: u32 where "O_NOFOLLOW \<equiv> 0x20000"

abbreviation ACCESS4_READ :: u32 where "ACCESS4_READ \<equiv> 0x1"
abbreviation ACCESS4_MODIFY :: u32 where "ACCESS4_MODIFY \<equiv> 0x4"
abbreviation ACCESS4_EXECUTE :: u32 where "ACCESS4_EXECUTE \<equiv> 0x20"
abbreviation OPEN4_RESULT_CONFIRM :: u32 where "OPEN4_RESULT_CONFIRM \<equiv> 0x2"

section \<open>Fillers\<close>

definition blob_bytes :: "nfs4_blob \<Rightarrow> u8 list option" where
  "blob_bytes b = (case b_val b of B_bytes bs \<Rightarrow> Some bs | _ \<Rightarrow> None)"

definition blob_fh :: "nfs4_blob \<Rightarrow> n4st \<Rightarrow> (nat \<times> nfsfh) option" where
  "blob_fh b s = (case b_val b of B_fh n \<Rightarrow> map_option (Pair n) (nfhs s n) | _ \<Rightarrow> None)"

text \<open>\<open>attrmask\<close> and \<open>attr_vals\<close> of a request, of which \<open>len\<close> elements are sent.\<close>

definition blob_mask :: "nfs4_blob \<Rightarrow> u32 list option" where
  "blob_mask b = (case b_val b of B_words ws \<Rightarrow> Some (take (nat (b_len b)) ws) | _ \<Rightarrow> None)"

definition blob_vals :: "nfs4_blob \<Rightarrow> u8 list option" where
  "blob_vals b = map_option (take (nat (b_len b))) (blob_bytes b)"

definition nfs4_populate_getfh :: "nfs_argop4 list" where
  "nfs4_populate_getfh = nfs4_op_getfh"

definition nfs4_populate_getattr :: "nfs_argop4 list" where
  "nfs4_populate_getattr = nfs4_op_getfh"

definition nfs4_populate_access :: "nfs4_cb_data \<Rightarrow> nfs_argop4 list option" where
  "nfs4_populate_access d = do { m \<leftarrow> blob_bytes (blob3 d); Some (nfs4_op_access (of_le m)) }"

definition nfs4_populate_mkdir :: "nfs4_cb_data \<Rightarrow> nfs_argop4 list option" where
  "nfs4_populate_mkdir d = do {
     name \<leftarrow> f_data d;
     mask \<leftarrow> blob_mask (blob0 d);
     vals \<leftarrow> blob_vals (blob1 d);
     Some (nfs4_op_create name NF4DIR (Some mask) (Some vals) None 0) }"

definition nfs4_populate_remove :: "nfs4_cb_data \<Rightarrow> nfs_argop4 list option" where
  "nfs4_populate_remove d = map_option nfs4_op_remove (f_data d)"

text \<open>The verifier of an exclusive create, from a seed that is static.\<close>

definition nfs4_init_random_verifier :: "n4world \<Rightarrow> n4st \<Rightarrow> u8 list \<times> n4st" where
  "nfs4_init_random_verifier W s =
     (let v = (if seed s = 0 then push_bit 32 (NOT (w_time W)) OR w_pid W else seed s * 1337)
      in (le 8 v, s\<lparr>seed := v\<rparr>))"

definition open_access_mask :: "u32 \<Rightarrow> u32" where
  "open_access_mask fl =
     (if fl AND O_WRONLY \<noteq> 0 then ACCESS4_MODIFY else 0) OR
     (if fl AND O_RDWR \<noteq> 0 then ACCESS4_READ OR ACCESS4_MODIFY else 0) OR
     (if fl AND O_WRONLY = 0 then ACCESS4_READ else 0)"

definition nfs4_populate_open :: "n4world \<Rightarrow> nfs4_cb_data \<Rightarrow> n4st \<Rightarrow> (nfs_argop4 list \<times> n4st) option" where
  "nfs4_populate_open W d s = do {
     let access_mask = open_access_mask (f_flags d);
     (how, s) \<leftarrow>
       (if f_flags d AND O_CREAT \<noteq> 0 then
          if f_flags d OR O_EXCL \<noteq> 0 then
            (let (verifier, s) = nfs4_init_random_verifier W s in Some (Some (Exclusive verifier), s))
          else do {
            mask \<leftarrow> blob_mask (blob1 d);
            vals \<leftarrow> blob_vals (blob2 d);
            Some (Some (Unchecked mask vals), s) }
        else Some (None, s));
     name \<leftarrow> f_data d;
     Some (nfs4_op_access access_mask @
           [A_OPEN \<lparr>oa_seqid = 0,
              oa_share_access = (if access_mask AND ACCESS4_READ \<noteq> 0 then 1 else 0) OR
                                (if access_mask AND ACCESS4_MODIFY \<noteq> 0 then 2 else 0),
              oa_share_deny = 0, oa_clientid = ni_clientid (nfsi s), oa_owner = d_open_owner d,
              oa_openhow = how, oa_file = name\<rparr>] @
           nfs4_op_getfh, s) }"

definition nfs4_populate_lookup_readlink :: "nfs4_cb_data \<Rightarrow> nfs_argop4 list option" where
  "nfs4_populate_lookup_readlink d = do { name \<leftarrow> f_data d; Some (nfs4_op_lookup name @ nfs4_op_readlink) }"

definition nfs4_populate_symlink :: "nfs4_cb_data \<Rightarrow> nfs_argop4 list option" where
  "nfs4_populate_symlink d = do {
     name \<leftarrow> f_data d;
     target \<leftarrow> (case b_val (blob0 d) of B_str t \<Rightarrow> Some (Some t) | B_null \<Rightarrow> Some None | _ \<Rightarrow> None);
     Some (nfs4_op_create name NF4LNK None None target 0) }"

definition nfs4_populate_readlink :: "nfs_argop4 list" where
  "nfs4_populate_readlink = nfs4_op_readlink"

definition nfs4_populate_link :: "nfs4_cb_data \<Rightarrow> n4st \<Rightarrow> nfs_argop4 list option" where
  "nfs4_populate_link d s = do {
     (_, h) \<leftarrow> blob_fh (blob0 d) s;
     name \<leftarrow> f_data d;
     Some (nfs4_op_savefh @ nfs4_op_putfh (fh_val h) @ nfs4_op_link name) }"

definition nfs4_populate_rename :: "nfs4_cb_data \<Rightarrow> n4st \<Rightarrow> nfs_argop4 list option" where
  "nfs4_populate_rename d s = do {
     (_, h) \<leftarrow> blob_fh (blob0 d) s;
     oldname \<leftarrow> f_data d;
     newname \<leftarrow> (case b_val (blob1 d) of B_str t \<Rightarrow> Some t | _ \<Rightarrow> None);
     Some (nfs4_op_savefh @ nfs4_op_putfh (fh_val h) @ nfs4_op_rename oldname newname) }"

text \<open>The mode of the node is converted where it lies, so a second run converts it again.\<close>

definition nfs4_populate_mknod :: "nfs4_cb_data \<Rightarrow> n4st \<Rightarrow> (nfs_argop4 list \<times> n4st) option" where
  "nfs4_populate_mknod d s = do {
     m \<leftarrow> blob_bytes (blob1 d);
     let mode = (of_le m :: u32);
     let b1 = (blob1 d)\<lparr>b_val := B_bytes (enc32 (mode AND NOT S_IFMT))\<rparr>;
     let d = d\<lparr>blob1 := b1\<rparr>;
     let s = s\<lparr>cbd := Some d\<rparr>;
     name \<leftarrow> f_data d;
     mask \<leftarrow> blob_mask (blob0 d);
     vals \<leftarrow> blob_vals (blob1 d);
     let dev = word_of_int (b_len (blob2 d));
     Some (if mode AND S_IFMT = S_IFBLK then nfs4_op_create name NF4BLK (Some mask) (Some vals) None dev
           else if mode AND S_IFMT = S_IFCHR then nfs4_op_create name NF4CHR (Some mask) (Some vals) None dev
           else [A_UNINIT], s) }"

definition nfs4_populate_readdir :: "nfs4_cb_data \<Rightarrow> n4st \<Rightarrow> nfs_argop4 list option" where
  "nfs4_populate_readdir d s = do {
     cookie \<leftarrow> blob_bytes (blob2 d);
     Some (nfs4_op_getfh @ nfs4_op_readdir (nfsi s) (of_le cookie)) }"

definition nfs4_populate_chmod :: "nfs4_cb_data \<Rightarrow> nfs_argop4 list option" where
  "nfs4_populate_chmod d = map_option (nfs4_op_chmod None) (blob_bytes (blob3 d))"

definition nfs4_populate_chown :: "nfs4_cb_data \<Rightarrow> nfs_argop4 list option" where
  "nfs4_populate_chown d = map_option (\<lambda>b. nfs4_op_chown None b (nat (b_len (blob3 d)))) (blob_bytes (blob3 d))"

definition nfs4_populate_utimes :: "nfs4_cb_data \<Rightarrow> nfs_argop4 list option" where
  "nfs4_populate_utimes d = map_option (\<lambda>b. nfs4_op_utimes None b (nat (b_len (blob3 d)))) (blob_bytes (blob3 d))"

text \<open>\<open>data->filler.func\<close>.\<close>

definition populate :: "n4world \<Rightarrow> op_filler \<Rightarrow> nfs4_cb_data \<Rightarrow> n4st \<Rightarrow> (nfs_argop4 list \<times> n4st) option" where
  "populate W f d s =
     (let pure = map_option (\<lambda>ops. (ops, s)) in
      case f of
        F_getfh \<Rightarrow> pure (Some nfs4_populate_getfh)
      | F_getattr \<Rightarrow> pure (Some nfs4_populate_getattr)
      | F_access \<Rightarrow> pure (nfs4_populate_access d)
      | F_mkdir \<Rightarrow> pure (nfs4_populate_mkdir d)
      | F_remove \<Rightarrow> pure (nfs4_populate_remove d)
      | F_open \<Rightarrow> nfs4_populate_open W d s
      | F_lookup_readlink \<Rightarrow> pure (nfs4_populate_lookup_readlink d)
      | F_symlink \<Rightarrow> pure (nfs4_populate_symlink d)
      | F_readlink \<Rightarrow> pure (Some nfs4_populate_readlink)
      | F_link \<Rightarrow> pure (nfs4_populate_link d s)
      | F_rename \<Rightarrow> pure (nfs4_populate_rename d s)
      | F_mknod \<Rightarrow> nfs4_populate_mknod d s
      | F_readdir \<Rightarrow> pure (nfs4_populate_readdir d s)
      | F_chmod \<Rightarrow> pure (nfs4_populate_chmod d)
      | F_chown \<Rightarrow> pure (nfs4_populate_chown d)
      | F_utimes \<Rightarrow> pure (nfs4_populate_utimes d))"

section \<open>Looking up a path\<close>

text \<open>The second component is the return value.  Filling more operations than the array has room for is a
  fault.\<close>

definition nfs4_lookup_path_async :: "n4world \<Rightarrow> cont \<Rightarrow> n4st \<Rightarrow> (int \<times> n4st) option" where
  "nfs4_lookup_path_async W cb s = do {
     d \<leftarrow> cbd s;
     p \<leftarrow> d_path d;
     (q, s) \<leftarrow> nfs4_resolve_path W p s;
     case q of
       None \<Rightarrow> Some (-1, s)
     | Some path \<Rightarrow> do {
         s \<leftarrow> upd (d_path_update (\<lambda>_. Some path)) s;
         let (ok1, s) = alloc W s;
         if \<not> ok1 then Some (-1, s)
         else do {
           let (ok2, s) = alloc W s;
           if \<not> ok2 then Some (-1, s)
           else do {
             d \<leftarrow> cbd s;
             (op, room) \<leftarrow> nfs4_allocate_op (nfsi s) path (f_max_op d);
             f \<leftarrow> f_func d;
             (more, s) \<leftarrow> populate W f d s;
             if room < length op + length more then None
             else do {
               s \<leftarrow> upd (d_continue_cb_update (\<lambda>_. Some cb)) s;
               let (rc, s) = rpc_nfs4_compound_async W Lookup_1 (op @ more) s;
               Some (if rc \<noteq> 0 then -1 else 0, s) } } } } }"

text \<open>\<open>strchr (path + i, '/')\<close> as a position, and doing so \<open>n\<close> times, each time behind the last slash
  found.  Not finding one is a use of \<open>NULL\<close>.\<close>

definition strchr_from :: "string \<Rightarrow> nat \<Rightarrow> nat option" where
  "strchr_from p i =
     (case dropWhile (\<lambda>c. c \<noteq> SLASH) (drop i p) of [] \<Rightarrow> None | r \<Rightarrow> Some (length p - length r))"

fun skip_slashes :: "string \<Rightarrow> nat \<Rightarrow> nat \<Rightarrow> nat option" where
  "skip_slashes p 0 i = Some i"
| "skip_slashes p (Suc n) i = do { j \<leftarrow> strchr_from p (i + 1); skip_slashes p n j }"

text \<open>The new path: what comes before component \<open>idx\<close>, the target of the link in its place, what comes
  behind it.\<close>

definition splice_link :: "string \<Rightarrow> u32 \<Rightarrow> string \<Rightarrow> string option" where
  "splice_link path idx target = do {
     tmp \<leftarrow> skip_slashes path (unat idx - 1) 0;
     if path = [] then None
     else
       let rest = drop (tmp + 1) path;
           last = (case dropWhile (\<lambda>c. c \<noteq> SLASH) rest of [] \<Rightarrow> [] | _ # r \<Rightarrow> r)
       in Some (take tmp path @ ''/'' @ cstr target @ ''/'' @ last) }"

definition nfs4_lookup_path_2_cb :: "n4world \<Rightarrow> reply \<Rightarrow> n4st \<Rightarrow> n4st option" where
  "nfs4_lookup_path_2_cb W r s = do {
     (bad, s) \<leftarrow> check_nfs4_error W r s;
     if bad then Some s
     else do {
       d \<leftarrow> cbd s;
       dpath \<leftarrow> d_path d;
       let (ok, s) = alloc W s;
       if \<not> ok then finish (- ENOMEM) C_text s
       else do {
         _ \<leftarrow> splice_link dpath (link_idx d) [];
         s \<leftarrow> upd (link_idx_update (\<lambda>i. if i = 0 then -1 else 0)) s;
         res \<leftarrow> snd r;
         (f, s) \<leftarrow> nfs4_find_op OP_READLINK res s;
         case f of
           Some (R_READLINK _ target) \<Rightarrow> do {
             let (ok, s) = alloc W s;
             if \<not> ok then finish (- ENOMEM) C_text s
             else do {
               new_path \<leftarrow> splice_link dpath (link_idx d) target;
               s \<leftarrow> upd (d_path_update (\<lambda>_. Some new_path)) s;
               cb \<leftarrow> d_continue_cb d;
               (rc, s) \<leftarrow> nfs4_lookup_path_async W cb s;
               if rc < 0 then finish (- ENOMEM) C_result s else Some s } }
         | _ \<Rightarrow> Some s } } }"

section \<open>Callbacks that only report success\<close>

definition simple_cb :: "n4world \<Rightarrow> reply \<Rightarrow> n4st \<Rightarrow> n4st option" where
  "simple_cb W r s = do {
     (bad, s) \<leftarrow> check_nfs4_error W r s;
     if bad then Some s else finish 0 C_null s }"

definition nfs4_mkdir_cb :: "n4world \<Rightarrow> reply \<Rightarrow> n4st \<Rightarrow> n4st option" where
  "nfs4_mkdir_cb = simple_cb"

definition nfs4_remove_cb :: "n4world \<Rightarrow> reply \<Rightarrow> n4st \<Rightarrow> n4st option" where
  "nfs4_remove_cb = simple_cb"

definition nfs4_symlink_cb :: "n4world \<Rightarrow> reply \<Rightarrow> n4st \<Rightarrow> n4st option" where
  "nfs4_symlink_cb = simple_cb"

definition nfs4_link_2_cb :: "n4world \<Rightarrow> reply \<Rightarrow> n4st \<Rightarrow> n4st option" where
  "nfs4_link_2_cb = simple_cb"

definition nfs4_rename_2_cb :: "n4world \<Rightarrow> reply \<Rightarrow> n4st \<Rightarrow> n4st option" where
  "nfs4_rename_2_cb = simple_cb"

definition nfs4_mknod_cb :: "n4world \<Rightarrow> reply \<Rightarrow> n4st \<Rightarrow> n4st option" where
  "nfs4_mknod_cb = simple_cb"

definition nfs4_fsync_cb :: "n4world \<Rightarrow> reply \<Rightarrow> n4st \<Rightarrow> n4st option" where
  "nfs4_fsync_cb = simple_cb"

definition nfs4_chmod_cb :: "n4world \<Rightarrow> reply \<Rightarrow> n4st \<Rightarrow> n4st option" where
  "nfs4_chmod_cb = simple_cb"

definition nfs4_chown_cb :: "n4world \<Rightarrow> reply \<Rightarrow> n4st \<Rightarrow> n4st option" where
  "nfs4_chown_cb = simple_cb"

definition nfs4_utimes_cb :: "n4world \<Rightarrow> reply \<Rightarrow> n4st \<Rightarrow> n4st option" where
  "nfs4_utimes_cb = simple_cb"

section \<open>Mounting and changing directory\<close>

definition nfs4_mount_4_cb :: "n4world \<Rightarrow> reply \<Rightarrow> n4st \<Rightarrow> n4st option" where
  "nfs4_mount_4_cb W r s = do {
     (bad, s) \<leftarrow> check_nfs4_error W r s;
     if bad then Some s
     else do {
       res \<leftarrow> snd r;
       (f, s) \<leftarrow> nfs4_find_op OP_GETFH res s;
       case f of
         Some (R_GETFH _ obj) \<Rightarrow> do {
           let (ok, s) = alloc W s;
           if \<not> ok then finish (- ENOMEM) C_text (s\<lparr>nfsi := (nfsi s)\<lparr>ni_rootfh := (length obj, None)\<rparr>\<rparr>)
           else finish 0 C_null (s\<lparr>nfsi := (nfsi s)\<lparr>ni_rootfh := (length obj, Some obj)\<rparr>\<rparr>) }
       | _ \<Rightarrow> Some s } }"

definition nfs4_mount_3_cb :: "n4world \<Rightarrow> reply \<Rightarrow> n4st \<Rightarrow> n4st option" where
  "nfs4_mount_3_cb W r s = do {
     (bad, s) \<leftarrow> check_nfs4_error W r s;
     if bad then Some s
     else do {
       s \<leftarrow> upd (\<lambda>d. d\<lparr>f_func := Some F_getfh, f_max_op := 1\<rparr>) s;
       let (ok, s) = alloc W s;
       if \<not> ok then finish (- ENOMEM) C_result s
       else do {
         s \<leftarrow> upd (f_data_update (\<lambda>_. Some [])) s;
         (rc, s) \<leftarrow> nfs4_lookup_path_async W Mount_4 s;
         if rc < 0 then finish (- ENOMEM) C_result s else Some s } } }"

text \<open>The first result is taken for that of \<open>SETCLIENTID\<close> without a look at its number.\<close>

definition nfs4_mount_2_cb :: "n4world \<Rightarrow> reply \<Rightarrow> n4st \<Rightarrow> n4st option" where
  "nfs4_mount_2_cb W r s = do {
     (bad, s) \<leftarrow> check_nfs4_error W r s;
     if bad then Some s
     else do {
       res \<leftarrow> snd r;
       case resarray res of
         R_SETCLIENTID _ clientid confirm # _ \<Rightarrow> do {
           let s = s\<lparr>nfsi := (nfsi s)\<lparr>ni_clientid := clientid, ni_setclientid_confirm := confirm\<rparr>\<rparr>;
           let (rc, s) = rpc_nfs4_compound_async W Mount_3 (nfs4_op_setclientid_confirm clientid confirm) s;
           if rc \<noteq> 0 then finish (- ENOMEM) C_text s else Some s }
       | _ \<Rightarrow> None } }"

definition nfs4_mount_1_cb :: "n4world \<Rightarrow> reply \<Rightarrow> n4st \<Rightarrow> n4st option" where
  "nfs4_mount_1_cb W r s = do {
     (bad, s) \<leftarrow> check_nfs4_error W (fst r, None) s;
     if bad then Some s
     else do {
       let (rc, s) = rpc_nfs4_compound_async W Mount_2
             (nfs4_op_setclientid (ni_verifier (nfsi s)) (ni_client_name (nfsi s))) s;
       if rc \<noteq> 0 then finish (- ENOMEM) C_text s else Some s } }"

definition nfs4_chdir_1_cb :: "n4world \<Rightarrow> reply \<Rightarrow> n4st \<Rightarrow> n4st option" where
  "nfs4_chdir_1_cb W r s = do {
     (bad, s) \<leftarrow> check_nfs4_error W r s;
     if bad then Some s
     else do {
       d \<leftarrow> cbd s;
       p \<leftarrow> d_path d;
       s \<leftarrow> upd (d_path_update (\<lambda>_. None)) (s\<lparr>nfsi := (nfsi s)\<lparr>ni_cwd := p\<rparr>\<rparr>);
       finish 0 C_null s } }"

section \<open>Attributes\<close>

text \<open>After attributes that cannot be parsed the function goes on with the request it has freed.\<close>

definition nfs4_xstat64_cb :: "n4world \<Rightarrow> reply \<Rightarrow> n4st \<Rightarrow> n4st option" where
  "nfs4_xstat64_cb W r s = do {
     (bad, s) \<leftarrow> check_nfs4_error W r s;
     if bad then Some s
     else do {
       res \<leftarrow> snd r;
       (f, s) \<leftarrow> nfs4_find_op OP_GETATTR res s;
       case f of
         Some (R_GETATTR _ vals) \<Rightarrow> do {
           st \<leftarrow> nfs_parse_attributes (w_blksize W) vals (int (length vals));
           s \<leftarrow> (case st of None \<Rightarrow> finish (- EINVAL) C_text s | Some _ \<Rightarrow> Some s);
           finish 0 (C_stat (case st of None \<Rightarrow> zero_stat | Some st \<Rightarrow> st)) s }
       | _ \<Rightarrow> Some s } }"

text \<open>\<open>check_nfs4_error\<close> and \<open>nfs4_find_op\<close> have already ended the request when they report an error.\<close>

definition nfs4_getacl_cb :: "n4world \<Rightarrow> reply \<Rightarrow> n4st \<Rightarrow> n4st option" where
  "nfs4_getacl_cb W r s = do {
     (bad, s) \<leftarrow> check_nfs4_error W r s;
     if bad then finish (- EIO) C_text s
     else do {
       res \<leftarrow> snd r;
       (f, s) \<leftarrow> nfs4_find_op OP_GETATTR res s;
       case f of
         Some (R_GETATTR _ vals) \<Rightarrow>
           if w_acl W vals then finish 0 (C_acl vals) s else finish (- EIO) C_text s
       | _ \<Rightarrow> finish (- EIO) C_text s } }"

definition nfs4_statvfs_cb :: "n4world \<Rightarrow> reply \<Rightarrow> n4st \<Rightarrow> n4st option" where
  "nfs4_statvfs_cb W r s = do {
     (bad, s) \<leftarrow> check_nfs4_error W r s;
     if bad then Some s
     else do {
       res \<leftarrow> snd r;
       (f, s) \<leftarrow> nfs4_find_op OP_GETATTR res s;
       case f of
         Some (R_GETATTR _ vals) \<Rightarrow> do {
           d \<leftarrow> cbd s;
           st \<leftarrow> (if LOOKUP_FLAG_IS_STATVFS64 d
                  then nfs_parse_statvfs64 (w_blksize W) vals (int (length vals))
                  else nfs_parse_statvfs (w_blksize W) vals (int (length vals)));
           case st of None \<Rightarrow> finish (- EINVAL) C_text s | Some sv \<Rightarrow> finish 0 (C_statvfs sv) s }
       | _ \<Rightarrow> Some s } }"

definition nfs4_access_cb :: "n4world \<Rightarrow> reply \<Rightarrow> n4st \<Rightarrow> n4st option" where
  "nfs4_access_cb W r s = do {
     (bad, s) \<leftarrow> check_nfs4_error W r s;
     if bad then Some s
     else do {
       res \<leftarrow> snd r;
       (f, s) \<leftarrow> nfs4_find_op OP_ACCESS res s;
       case f of
         Some (R_ACCESS _ supported access) \<Rightarrow> do {
           d \<leftarrow> cbd s;
           if f_flags d \<noteq> 0 then
             finish ((if access AND ACCESS4_READ \<noteq> 0 then 4 else 0) +
                     (if access AND ACCESS4_MODIFY \<noteq> 0 then 2 else 0) +
                     (if access AND ACCESS4_EXECUTE \<noteq> 0 then 1 else 0)) C_null s
           else if supported \<noteq> access then finish (- EACCES) C_null s
           else finish 0 C_null s }
       | _ \<Rightarrow> Some s } }"

definition nfs4_readlink_cb :: "n4world \<Rightarrow> reply \<Rightarrow> n4st \<Rightarrow> n4st option" where
  "nfs4_readlink_cb W r s = do {
     (bad, s) \<leftarrow> check_nfs4_error W r s;
     if bad then Some s
     else do {
       res \<leftarrow> snd r;
       (f, s) \<leftarrow> nfs4_find_op OP_READLINK res s;
       case f of
         Some (R_READLINK _ link) \<Rightarrow> do {
           let (ok, s) = alloc W s;
           if \<not> ok then finish (- ENOMEM) C_text s
           else do {
             s \<leftarrow> upd (blob0_update (\<lambda>b. b\<lparr>b_val := B_str (cstr link), b_free := True\<rparr>)) s;
             finish 0 (C_str (cstr link)) s } }
       | _ \<Rightarrow> Some s } }"

section \<open>Opening a file\<close>

definition nfs_increment_seqid :: "u32 \<Rightarrow> nfsfh \<Rightarrow> nfsfh" where
  "nfs_increment_seqid status h =
     (if status \<in> {10022, 10023, 10025, 10026, 10036, 10018, 10020} then h
      else h\<lparr>open_seqid := open_seqid h + 1\<rparr>)"

definition nfs4_open_setattr_cb :: "n4world \<Rightarrow> reply \<Rightarrow> n4st \<Rightarrow> n4st option" where
  "nfs4_open_setattr_cb W r s = do {
     (bad, s) \<leftarrow> check_nfs4_error W r s;
     if bad then Some s
     else do {
       d \<leftarrow> cbd s;
       s \<leftarrow> upd (blob0_update (b_val_update (\<lambda>_. B_null))) s;
       case b_val (blob0 d) of B_fh n \<Rightarrow> finish 0 (C_fh n) s | _ \<Rightarrow> None } }"

definition nfs4_open_truncate_cb :: "n4world \<Rightarrow> reply \<Rightarrow> n4st \<Rightarrow> n4st option" where
  "nfs4_open_truncate_cb W r s = do {
     (bad, s) \<leftarrow> check_nfs4_error W r s;
     if bad then Some s
     else do {
       d \<leftarrow> cbd s;
       (_, h) \<leftarrow> blob_fh (blob0 d) s;
       b \<leftarrow> blob_bytes (blob3 d);
       let (rc, s) = rpc_nfs4_compound_async W Open_setattr (nfs4_op_putfh (fh_val h) @ nfs4_op_truncate h b) s;
       if rc \<noteq> 0 then finish (- ENOMEM) C_text s else Some s } }"

definition nfs4_open_chmod_cb :: "n4world \<Rightarrow> reply \<Rightarrow> n4st \<Rightarrow> n4st option" where
  "nfs4_open_chmod_cb W r s = do {
     (bad, s) \<leftarrow> check_nfs4_error W r s;
     if bad then Some s
     else do {
       d \<leftarrow> cbd s;
       (_, h) \<leftarrow> blob_fh (blob0 d) s;
       b \<leftarrow> blob_bytes (blob3 d);
       let (rc, s) = rpc_nfs4_compound_async W Open_setattr (nfs4_op_putfh (fh_val h) @ nfs4_op_chmod (Some h) b) s;
       if rc \<noteq> 0 then finish (- ENOMEM) C_text s else Some s } }"

definition nfs4_truncate_open_cb :: "n4world \<Rightarrow> reply \<Rightarrow> n4st \<Rightarrow> n4st option" where
  "nfs4_truncate_open_cb W r s = do {
     (bad, s) \<leftarrow> check_nfs4_error W r s;
     if bad then Some s
     else do {
       d \<leftarrow> cbd s;
       (_, h) \<leftarrow> blob_fh (blob0 d) s;
       b \<leftarrow> blob_bytes (blob3 d);
       let (rc, s) = rpc_nfs4_compound_async W Truncate_close
             (nfs4_op_putfh (fh_val h) @ nfs4_op_truncate h b @ nfs4_op_close h) s;
       if rc \<noteq> 0 then finish (- ENOMEM) C_text s else Some s } }"

text \<open>\<open>data->open_cb\<close>, one of three functions.\<close>

definition run_open_cb :: "n4world \<Rightarrow> cont \<Rightarrow> reply \<Rightarrow> n4st \<Rightarrow> n4st option" where
  "run_open_cb W c r s =
     (case c of
        Open_truncate \<Rightarrow> nfs4_open_truncate_cb W r s
      | Open_chmod \<Rightarrow> nfs4_open_chmod_cb W r s
      | Truncate_open \<Rightarrow> nfs4_truncate_open_cb W r s
      | _ \<Rightarrow> None)"

text \<open>The end of both functions below.\<close>

definition open_done :: "n4world \<Rightarrow> reply \<Rightarrow> nat \<Rightarrow> n4st \<Rightarrow> n4st option" where
  "open_done W r n s = do {
     d \<leftarrow> cbd s;
     case d_open_cb d of
       Some c \<Rightarrow> run_open_cb W c r s
     | None \<Rightarrow> do {
         s \<leftarrow> upd (blob0_update (b_val_update (\<lambda>_. B_null))) s;
         finish 0 (C_fh n) s } }"

definition nfs4_open_confirm_cb :: "n4world \<Rightarrow> reply \<Rightarrow> n4st \<Rightarrow> n4st option" where
  "nfs4_open_confirm_cb W r s = do {
     d \<leftarrow> cbd s;
     s \<leftarrow> (case snd r of
            Some res \<Rightarrow> do { (n, _) \<leftarrow> blob_fh (blob0 d) s; set_fh n (nfs_increment_seqid (cr_status res)) s }
          | None \<Rightarrow> Some s);
     (bad, s) \<leftarrow> check_nfs4_error W r s;
     if bad then Some s
     else do {
       res \<leftarrow> snd r;
       (f, s) \<leftarrow> nfs4_find_op OP_OPEN_CONFIRM res s;
       case f of
         Some (R_OPEN_CONFIRM _ sid) \<Rightarrow> do {
           (n, _) \<leftarrow> blob_fh (blob0 d) s;
           s \<leftarrow> set_fh n (fh_stateid_update (\<lambda>_. sid)) s;
           open_done W r n s }
       | _ \<Rightarrow> Some s } }"

text \<open>A zeroed file structure, owned by \<open>blob0\<close> of the request.\<close>

definition new_fh :: "n4st \<Rightarrow> (nat \<times> n4st) option" where
  "new_fh s = do {
     let n = next_fh s;
     s \<leftarrow> upd (blob0_update (\<lambda>b. b\<lparr>b_val := B_fh n, b_free := True\<rparr>)) s;
     Some (n, s\<lparr>nfhs := (nfhs s)(n \<mapsto> zero_nfsfh), next_fh := n + 1\<rparr>) }"

definition nfs4_open_cb :: "n4world \<Rightarrow> reply \<Rightarrow> n4st \<Rightarrow> n4st option" where
  "nfs4_open_cb W r s = do {
     (bad, s) \<leftarrow> check_nfs4_error W r s;
     if bad then Some s
     else do {
       res \<leftarrow> snd r;
       (f, s) \<leftarrow> nfs4_find_op OP_ACCESS res s;
       case f of
         Some (R_ACCESS _ supported access) \<Rightarrow>
           if supported \<noteq> access then finish (- EINVAL) C_text s
           else do {
             (f, s) \<leftarrow> nfs4_find_op OP_GETFH res s;
             case f of
               Some (R_GETFH _ obj) \<Rightarrow> do {
                 let (ok, s) = alloc W s;
                 if \<not> ok then finish (- ENOMEM) C_text s
                 else do {
                   (n, s) \<leftarrow> new_fh s;
                   let (ok, s) = alloc W s;
                   if \<not> ok then finish (- ENOMEM) C_text s
                   else do {
                     d \<leftarrow> cbd s;
                     s \<leftarrow> set_fh n (\<lambda>h. h\<lparr>fh_val := obj, open_seqid := 1, fh_open_owner := d_open_owner d,
                            is_sync := f_flags d AND O_SYNC \<noteq> 0, is_append := f_flags d AND O_APPEND \<noteq> 0\<rparr>) s;
                     (f, s) \<leftarrow> nfs4_find_op OP_OPEN res s;
                     case f of
                       Some (R_OPEN _ sid rflags) \<Rightarrow> do {
                         s \<leftarrow> set_fh n (fh_stateid_update (\<lambda>_. sid)) s;
                         h \<leftarrow> nfhs s n;
                         if rflags AND OPEN4_RESULT_CONFIRM \<noteq> 0 then do {
                           let (rc, s) = rpc_nfs4_compound_async W Open_confirm
                                 (nfs4_op_putfh (fh_val h) @ nfs4_op_open_confirm h) s;
                           if rc \<noteq> 0 then finish (- ENOMEM) C_text s else Some s }
                         else open_done W r n s }
                     | _ \<Rightarrow> Some s } } }
             | _ \<Rightarrow> Some s }
       | _ \<Rightarrow> Some s } }"

definition nfs4_open_readlink_cb :: "n4world \<Rightarrow> reply \<Rightarrow> n4st \<Rightarrow> n4st option" where
  "nfs4_open_readlink_cb W r s = do {
     (bad, s) \<leftarrow> check_nfs4_error W r s;
     if bad then Some s
     else do {
       res \<leftarrow> snd r;
       (f, s) \<leftarrow> nfs4_find_op OP_READLINK res s;
       case f of
         Some (R_READLINK _ link) \<Rightarrow> do {
           let (ok, s) = alloc W s;
           if \<not> ok then finish (- ENOMEM) C_text s
           else do {
             d \<leftarrow> cbd s;
             dpath \<leftarrow> d_path d;
             s \<leftarrow> upd (\<lambda>d. d\<lparr>d_path := None, f_data := None\<rparr>) s;
             (p, s) \<leftarrow> nfs4_resolve_path W (dpath @ ''/'' @ cstr link) s;
             case p of
               None \<Rightarrow> finish (- EINVAL) C_text s
             | Some q \<Rightarrow> do {
                 s \<leftarrow> upd (d_path_update (\<lambda>_. Some q)) s;
                 s \<leftarrow> data_split_path W s;
                 s \<leftarrow> upd (\<lambda>d. d\<lparr>d_open_owner := open_counter (nfsi s), f_func := Some F_open, f_max_op := 3\<rparr>) s;
                 let s = s\<lparr>nfsi := (nfsi s)\<lparr>open_counter := open_counter (nfsi s) + 1\<rparr>\<rparr>;
                 (rc, s) \<leftarrow> nfs4_lookup_path_async W Open s;
                 if rc < 0 then finish (- ENOMEM) C_result s else Some s } } }
       | _ \<Rightarrow> Some s } }"

section \<open>Closing, reading and writing\<close>

definition nfs4_close_cb :: "n4world \<Rightarrow> reply \<Rightarrow> n4st \<Rightarrow> n4st option" where
  "nfs4_close_cb W r s = do {
     d \<leftarrow> cbd s;
     s \<leftarrow> (case snd r of
            Some res \<Rightarrow> do { (n, _) \<leftarrow> blob_fh (blob0 d) s; set_fh n (nfs_increment_seqid (cr_status res)) s }
          | None \<Rightarrow> Some s);
     (bad, s) \<leftarrow> check_nfs4_error W r s;
     if bad then Some s else finish 0 C_null s }"

definition nfs4_truncate_close_cb :: "n4world \<Rightarrow> reply \<Rightarrow> n4st \<Rightarrow> n4st option" where
  "nfs4_truncate_close_cb W r s = nfs4_close_cb W r s"

definition nfs4_pread_cb :: "n4world \<Rightarrow> reply \<Rightarrow> n4st \<Rightarrow> n4st option" where
  "nfs4_pread_cb W r s = do {
     (bad, s) \<leftarrow> check_nfs4_error W r s;
     if bad then Some s
     else do {
       res \<leftarrow> snd r;
       (f, s) \<leftarrow> nfs4_find_op OP_READ res s;
       case f of
         Some (R_READ _ bytes) \<Rightarrow> do {
           d \<leftarrow> cbd s;
           s \<leftarrow> (if rw_update_pos d then do {
                    (n, _) \<leftarrow> blob_fh (blob0 d) s;
                    set_fh n (fh_offset_update (\<lambda>_. rw_offset d + of_nat (length bytes))) s }
                  else Some s);
           finish (int (length bytes)) (C_bytes bytes) s }
       | _ \<Rightarrow> Some s } }"

definition nfs4_pwrite_cb :: "n4world \<Rightarrow> reply \<Rightarrow> n4st \<Rightarrow> n4st option" where
  "nfs4_pwrite_cb W r s = do {
     (bad, s) \<leftarrow> check_nfs4_error W r s;
     if bad then Some s
     else do {
       res \<leftarrow> snd r;
       (f, s) \<leftarrow> nfs4_find_op OP_WRITE res s;
       case f of
         Some (R_WRITE _ cnt) \<Rightarrow> do {
           d \<leftarrow> cbd s;
           s \<leftarrow> (if rw_update_pos d then do {
                    (n, _) \<leftarrow> blob_fh (blob0 d) s;
                    set_fh n (fh_offset_update (\<lambda>_. rw_offset d + ucast cnt)) s }
                  else Some s);
           finish (sint cnt) C_null s }
       | _ \<Rightarrow> Some s } }"

text \<open>A write makes its own request; called from a callback it is a second one, while the first is still
  there.  The model gives back the request it made and lets the caller decide which is current.\<close>

definition nfs4_pwrite_async_internal ::
  "n4world \<Rightarrow> nat \<Rightarrow> u64 \<Rightarrow> u64 \<Rightarrow> u8 list \<Rightarrow> bool \<Rightarrow> n4st \<Rightarrow> (int \<times> n4st) option" where
  "nfs4_pwrite_async_internal W n offset cnt buf update_pos s = do {
     let (ok, s) = alloc W s;
     if \<not> ok then Some (-1, s)
     else do {
       let s = s\<lparr>cbd := Some (zero_data\<lparr>blob0 := \<lparr>b_len = 0, b_val = B_fh n, b_free = False\<rparr>,
                  rw_offset := offset, rw_update_pos := update_pos\<rparr>)\<rparr>;
       h \<leftarrow> nfhs s n;
       let (ops, h) = nfs4_op_write h offset cnt buf;
       s \<leftarrow> set_fh n (\<lambda>_. h) s;
       let (rc, s) = rpc_nfs4_compound_async2 W Pwrite (nfs4_op_putfh (fh_val h) @ ops) s;
       if rc \<noteq> 0 then do { s \<leftarrow> free_nfs4_cb_data s; Some (- EIO, s) }
       else Some (0, s) } }"

text \<open>\<open>st.nfs_size\<close> when the return value of the parser is ignored: the size is there once twelve bytes are.\<close>

definition parsed_size :: "u8 list \<Rightarrow> nfs_stat_64 option \<Rightarrow> u64" where
  "parsed_size vals st =
     (case st of
        Some st \<Rightarrow> nfs_size st
      | None \<Rightarrow> if length vals < 12 then 0 else nfs_pntoh64 (take 8 (drop 4 vals)))"

text \<open>An appending write goes to the size the attributes report.  When the write cannot be started the
  request is freed and then used.\<close>

definition nfs4_write_append_cb :: "n4world \<Rightarrow> reply \<Rightarrow> n4st \<Rightarrow> n4st option" where
  "nfs4_write_append_cb W r s = do {
     d \<leftarrow> cbd s;
     (bad, s) \<leftarrow> check_nfs4_error W r s;
     if bad then Some s
     else do {
       res \<leftarrow> snd r;
       (f, s) \<leftarrow> nfs4_find_op OP_GETATTR res s;
       case f of
         Some (R_GETATTR _ vals) \<Rightarrow>
           if length vals < 8 then finish (- EINVAL) C_text s
           else do {
             st \<leftarrow> nfs_parse_attributes (w_blksize W) vals (int (length vals));
             (n, _) \<leftarrow> blob_fh (blob0 d) s;
             buf \<leftarrow> blob_bytes (blob1 d);
             let offset = parsed_size vals st;
             (rc, s') \<leftarrow> nfs4_pwrite_async_internal W n offset (ucast (word_of_int (b_len (blob1 d)) :: u32)) buf True (s\<lparr>cbd := None\<rparr>);
             if rc < 0 then do {
               s'' \<leftarrow> free_nfs4_cb_data (s'\<lparr>cbd := Some d\<rparr>);
               callback (- ENOMEM) C_text s'' }
             else do {
               s'' \<leftarrow> free_nfs4_cb_data (s'\<lparr>cbd := Some d\<rparr>);
               Some (s''\<lparr>cbd := cbd s'\<rparr>) } }
       | _ \<Rightarrow> Some s } }"

section \<open>Links and renaming\<close>

text \<open>A new file structure for the directory the reply names; \<open>False\<close> when the request ended.\<close>

definition take_getfh :: "n4world \<Rightarrow> compound4res \<Rightarrow> n4st \<Rightarrow> (bool \<times> n4st) option" where
  "take_getfh W res s = do {
     (f, s) \<leftarrow> nfs4_find_op OP_GETFH res s;
     case f of
       Some (R_GETFH _ obj) \<Rightarrow> do {
         let (ok, s) = alloc W s;
         if \<not> ok then do { s \<leftarrow> finish (- ENOMEM) C_text s; Some (False, s) }
         else do {
           (n, s) \<leftarrow> new_fh s;
           let (ok, s) = alloc W s;
           if \<not> ok then do { s \<leftarrow> finish (- ENOMEM) C_text s; Some (False, s) }
           else do { s \<leftarrow> set_fh n (fh_val_update (\<lambda>_. obj)) s; Some (True, s) } } }
     | _ \<Rightarrow> Some (False, s) }"

definition nfs4_link_1_cb :: "n4world \<Rightarrow> reply \<Rightarrow> n4st \<Rightarrow> n4st option" where
  "nfs4_link_1_cb W r s = do {
     (bad, s) \<leftarrow> check_nfs4_error W r s;
     if bad then Some s
     else do {
       res \<leftarrow> snd r;
       (ok, s) \<leftarrow> take_getfh W res s;
       if \<not> ok then Some s
       else do {
         d \<leftarrow> cbd s;
         let oldpath = (case b_val (blob1 d) of B_str p \<Rightarrow> Some p | _ \<Rightarrow> None);
         s \<leftarrow> upd (\<lambda>d. d\<lparr>f_func := Some F_link, f_max_op := 3, d_path := oldpath,
                blob1 := (blob1 d)\<lparr>b_val := B_null, b_free := False\<rparr>\<rparr>) s;
         (rc, s) \<leftarrow> nfs4_lookup_path_async W Link_2 s;
         if rc < 0 then finish (- EFAULT) C_text s else Some s } } }"

definition nfs4_rename_1_cb :: "n4world \<Rightarrow> reply \<Rightarrow> n4st \<Rightarrow> n4st option" where
  "nfs4_rename_1_cb W r s = do {
     (bad, s) \<leftarrow> check_nfs4_error W r s;
     if bad then Some s
     else do {
       res \<leftarrow> snd r;
       (ok, s) \<leftarrow> take_getfh W res s;
       if \<not> ok then Some s
       else do {
         d \<leftarrow> cbd s;
         oldpath \<leftarrow> (case b_val (blob2 d) of B_str p \<Rightarrow> Some p | _ \<Rightarrow> None);
         s \<leftarrow> upd (\<lambda>d. d\<lparr>f_data := None, d_path := None,
                blob1 := (blob1 d)\<lparr>b_val := (case f_data d of None \<Rightarrow> B_null | Some t \<Rightarrow> B_str t), b_free := True\<rparr>\<rparr>) s;
         (p, s) \<leftarrow> nfs4_resolve_path W oldpath s;
         case p of
           None \<Rightarrow> finish (- EINVAL) C_text s
         | Some q \<Rightarrow> do {
             s \<leftarrow> upd (d_path_update (\<lambda>_. Some q)) s;
             s \<leftarrow> data_split_path W s;
             s \<leftarrow> upd (\<lambda>d. d\<lparr>f_func := Some F_rename, f_max_op := 3\<rparr>) s;
             (rc, s) \<leftarrow> nfs4_lookup_path_async W Rename_2 s;
             if rc < 0 then finish (- ENOMEM) C_text s else Some s } } } }"

section \<open>Directories\<close>

text \<open>The entry of one directory entry of the reply.  \<open>type\<close> keeps what \<open>malloc\<close> left there for a mode of
  no known type.\<close>

definition dirent_of :: "u64 \<Rightarrow> string \<Rightarrow> nfs_stat_64 \<Rightarrow> nfsdirent" where
  "dirent_of blksize name st =
     (let fmt = (ucast (nfs_mode st) :: u32) AND S_IFMT in
      \<lparr>de_name = name, de_inode = nfs_ino st, de_mode = ucast (nfs_mode st),
       de_type = (if fmt = S_IFREG then Some 1 else if fmt = S_IFDIR then Some 2 else if fmt = S_IFBLK then Some 3
                  else if fmt = S_IFCHR then Some 4 else if fmt = S_IFLNK then Some 5
                  else if fmt = S_IFSOCK then Some 6 else if fmt = S_IFIFO then Some 7 else None),
       de_size = nfs_size st,
       de_atime = (nfs_atime st, nfs_atime_nsec st div 1000, ucast (nfs_atime_nsec st)),
       de_mtime = (nfs_mtime st, nfs_mtime_nsec st div 1000, ucast (nfs_mtime_nsec st)),
       de_ctime = (nfs_ctime st, nfs_ctime_nsec st div 1000, ucast (nfs_ctime_nsec st)),
       de_uid = ucast (nfs_uid st), de_gid = ucast (nfs_gid st), de_nlink = ucast (nfs_nlink st),
       de_dev = nfs_dev st, de_rdev = nfs_rdev st, de_blksize = blksize, de_blocks = nfs_blocks st,
       de_used = nfs_used st\<rparr>)"

text \<open>The loop over the entries; \<open>False\<close> when it ended the request.\<close>

fun parse_entries :: "n4world \<Rightarrow> entry4 list \<Rightarrow> n4st \<Rightarrow> (bool \<times> n4st) option" where
  "parse_entries W [] s = Some (True, s)"
| "parse_entries W (e # es) s = do {
     s \<leftarrow> upd (blob2_update (b_val_update (\<lambda>_. B_bytes (le 8 (e_cookie e))))) s;
     let (ok1, s) = alloc W s;
     if \<not> ok1 then do { s \<leftarrow> finish (- ENOMEM) C_text s; Some (False, s) }
     else do {
       let (ok2, s) = alloc W s;
       if \<not> ok2 then do { s \<leftarrow> finish (- ENOMEM) C_text s; Some (False, s) }
       else do {
         st \<leftarrow> nfs_parse_attributes (w_blksize W) (e_attrs e) (int (length (e_attrs e)));
         case st of
           None \<Rightarrow> do { s \<leftarrow> finish (- EINVAL) C_text s; Some (False, s) }
         | Some st \<Rightarrow> do {
             d \<leftarrow> cbd s;
             ents \<leftarrow> (case b_val (blob1 d) of B_dir ds \<Rightarrow> Some ds | _ \<Rightarrow> None);
             s \<leftarrow> upd (blob1_update (b_val_update (\<lambda>_. B_dir (dirent_of (w_blksize W) (cstr (e_name e)) st # ents)))) s;
             parse_entries W es s } } } }"

definition nfs4_opendir_continue :: "n4world \<Rightarrow> n4st \<Rightarrow> n4st option" where
  "nfs4_opendir_continue W s = do {
     d \<leftarrow> cbd s;
     (_, h) \<leftarrow> blob_fh (blob0 d) s;
     cookie \<leftarrow> blob_bytes (blob2 d);
     let (rc, s) = rpc_nfs4_compound_async W Opendir_2
           (nfs4_op_putfh (fh_val h) @ nfs4_op_readdir (nfsi s) (of_le cookie)) s;
     if rc \<noteq> 0 then finish (- ENOMEM) C_text s else Some s }"

definition nfs4_parse_readdir :: "n4world \<Rightarrow> entry4 list \<Rightarrow> bool \<Rightarrow> n4st \<Rightarrow> n4st option" where
  "nfs4_parse_readdir W es eof s = do {
     (go, s) \<leftarrow> parse_entries W es s;
     if \<not> go then Some s
     else if \<not> eof then nfs4_opendir_continue W s
     else do {
       d \<leftarrow> cbd s;
       ents \<leftarrow> (case b_val (blob1 d) of B_dir ds \<Rightarrow> Some ds | _ \<Rightarrow> None);
       s \<leftarrow> upd (blob1_update (b_val_update (\<lambda>_. B_null))) s;
       finish 0 (C_dir ents) s } }"

definition nfs4_opendir_2_cb :: "n4world \<Rightarrow> reply \<Rightarrow> n4st \<Rightarrow> n4st option" where
  "nfs4_opendir_2_cb W r s = do {
     (bad, s) \<leftarrow> check_nfs4_error W r s;
     if bad then Some s
     else do {
       res \<leftarrow> snd r;
       (f, s) \<leftarrow> nfs4_find_op OP_READDIR res s;
       case f of
         Some (R_READDIR _ es eof) \<Rightarrow> nfs4_parse_readdir W es eof s
       | _ \<Rightarrow> Some s } }"

definition nfs4_opendir_cb :: "n4world \<Rightarrow> reply \<Rightarrow> n4st \<Rightarrow> n4st option" where
  "nfs4_opendir_cb W r s = do {
     (bad, s) \<leftarrow> check_nfs4_error W r s;
     if bad then Some s
     else do {
       res \<leftarrow> snd r;
       (ok, s) \<leftarrow> take_getfh W res s;
       if \<not> ok then Some s
       else do {
         (f, s) \<leftarrow> nfs4_find_op OP_READDIR res s;
         case f of
           Some (R_READDIR _ es eof) \<Rightarrow> nfs4_parse_readdir W es eof s
         | _ \<Rightarrow> Some s } } }"

section \<open>Seeking and locking\<close>

definition nfs4_lseek_cb :: "n4world \<Rightarrow> reply \<Rightarrow> n4st \<Rightarrow> n4st option" where
  "nfs4_lseek_cb W r s = do {
     d \<leftarrow> cbd s;
     b \<leftarrow> blob_bytes (blob1 d);
     let offset = (of_le b :: u64);
     (bad, s) \<leftarrow> check_nfs4_error W r s;
     if bad then Some s
     else do {
       res \<leftarrow> snd r;
       (f, s) \<leftarrow> nfs4_find_op OP_GETATTR res s;
       case f of
         Some (R_GETATTR _ vals) \<Rightarrow> do {
           st \<leftarrow> nfs_parse_attributes (w_blksize W) vals (int (length vals));
           let sz = parsed_size vals st;
           (n, h) \<leftarrow> blob_fh (blob0 d) s;
           if sint offset < 0 \<and> sint (- offset) > sint sz then finish (- EINVAL) (C_offset (fh_offset h)) s
           else do {
             s \<leftarrow> set_fh n (fh_offset_update (\<lambda>_. offset + sz)) s;
             finish 0 (C_offset (offset + sz)) s } }
       | _ \<Rightarrow> Some s } }"

abbreviation NFS4_F_LOCK :: int where "NFS4_F_LOCK \<equiv> 0"
abbreviation NFS4_F_TLOCK :: int where "NFS4_F_TLOCK \<equiv> 1"
abbreviation NFS4_F_ULOCK :: int where "NFS4_F_ULOCK \<equiv> 2"
abbreviation NFS4_F_TEST :: int where "NFS4_F_TEST \<equiv> 3"
abbreviation NFS4_F_SETLK :: int where "NFS4_F_SETLK \<equiv> 0"
abbreviation NFS4_F_SETLKW :: int where "NFS4_F_SETLKW \<equiv> 1"

definition nfs4_lockf_cb :: "n4world \<Rightarrow> reply \<Rightarrow> n4st \<Rightarrow> n4st option" where
  "nfs4_lockf_cb W r s = do {
     d \<leftarrow> cbd s;
     let cmd = b_len (blob1 d);
     (bad, s) \<leftarrow> check_nfs4_error W r s;
     if bad then Some s
     else if cmd = NFS4_F_LOCK \<or> cmd = NFS4_F_TLOCK then do {
       res \<leftarrow> snd r;
       (f, s) \<leftarrow> nfs4_find_op OP_LOCK res s;
       case f of
         Some (R_LOCK _ sid) \<Rightarrow> do {
           (n, _) \<leftarrow> blob_fh (blob0 d) s;
           s \<leftarrow> set_fh n (lock_stateid_update (\<lambda>_. sid)) (s\<lparr>nfsi := (nfsi s)\<lparr>has_lock_owner := True\<rparr>\<rparr>);
           finish 0 C_null s }
       | _ \<Rightarrow> Some s }
     else if cmd = NFS4_F_ULOCK then do {
       res \<leftarrow> snd r;
       (f, s) \<leftarrow> nfs4_find_op OP_LOCKU res s;
       case f of
         Some (R_LOCKU _ sid) \<Rightarrow> do {
           (n, _) \<leftarrow> blob_fh (blob0 d) s;
           s \<leftarrow> set_fh n (lock_stateid_update (\<lambda>_. sid)) s;
           finish 0 C_null s }
       | _ \<Rightarrow> Some s }
     else finish 0 C_null s }"

abbreviation F_RDLCK :: u32 where "F_RDLCK \<equiv> 0"
abbreviation F_WRLCK :: u32 where "F_WRLCK \<equiv> 1"
abbreviation F_UNLCK :: u32 where "F_UNLCK \<equiv> 2"
abbreviation SEEK_SET :: u32 where "SEEK_SET \<equiv> 0"
abbreviation SEEK_CUR :: u32 where "SEEK_CUR \<equiv> 1"
abbreviation SEEK_END :: u32 where "SEEK_END \<equiv> 2"

text \<open>After an unlock the new state identifier of the server is not kept.\<close>

definition nfs4_fcntl_cb :: "n4world \<Rightarrow> reply \<Rightarrow> n4st \<Rightarrow> n4st option" where
  "nfs4_fcntl_cb W r s = do {
     d \<leftarrow> cbd s;
     let cmd = b_len (blob1 d);
     (bad, s) \<leftarrow> check_nfs4_error W r s;
     if bad then Some s
     else if cmd = NFS4_F_SETLK \<or> cmd = NFS4_F_SETLKW then
       if l_type (flock s) = F_RDLCK \<or> l_type (flock s) = F_WRLCK then do {
         res \<leftarrow> snd r;
         (f, s) \<leftarrow> nfs4_find_op OP_LOCK res s;
         case f of
           Some (R_LOCK _ sid) \<Rightarrow> do {
             (n, _) \<leftarrow> blob_fh (blob0 d) s;
             s \<leftarrow> set_fh n (lock_stateid_update (\<lambda>_. sid)) (s\<lparr>nfsi := (nfsi s)\<lparr>has_lock_owner := True\<rparr>\<rparr>);
             finish 0 C_null s }
         | _ \<Rightarrow> Some s }
       else if l_type (flock s) = F_UNLCK then do {
         res \<leftarrow> snd r;
         (f, s) \<leftarrow> nfs4_find_op OP_LOCKU res s;
         case f of Some _ \<Rightarrow> finish 0 C_null s | None \<Rightarrow> Some s }
       else finish 0 C_null s
     else finish 0 C_null s }"

definition nfs4_fcntl_async_internal :: "n4world \<Rightarrow> nat \<Rightarrow> n4st \<Rightarrow> (int \<times> n4st) option" where
  "nfs4_fcntl_async_internal W n s = do {
     d \<leftarrow> cbd s;
     let cmd = b_len (blob1 d);
     h \<leftarrow> nfhs s n;
     let fl = flock s;
     let (ops, h') =
       (if cmd = NFS4_F_SETLK \<or> cmd = NFS4_F_SETLKW then
          if l_type fl = F_RDLCK then
            nfs4_op_lock (nfsi s) h (if cmd = NFS4_F_SETLK then READ_LT else READW_LT) False (l_start fl) (l_len fl)
          else if l_type fl = F_WRLCK then
            nfs4_op_lock (nfsi s) h (if cmd = NFS4_F_SETLK then WRITE_LT else WRITEW_LT) False (l_start fl) (l_len fl)
          else if l_type fl = F_UNLCK then nfs4_op_locku h WRITE_LT (l_start fl) (l_len fl)
          else ([], h)
        else ([], h));
     s \<leftarrow> set_fh n (\<lambda>_. h') s;
     let (rc, s) = rpc_nfs4_compound_async W Fcntl (nfs4_op_putfh (fh_val h) @ ops) s;
     if rc \<noteq> 0 then do { s \<leftarrow> free_nfs4_cb_data s; Some (-1, s) } else Some (0, s) }"

text \<open>Here too the function goes on after it ended the request, and ends it twice when the lock cannot be
  sent.\<close>

definition nfs4_fcntl_stat_cb :: "n4world \<Rightarrow> reply \<Rightarrow> n4st \<Rightarrow> n4st option" where
  "nfs4_fcntl_stat_cb W r s = do {
     d \<leftarrow> cbd s;
     let cmd = b_len (blob1 d);
     (bad, s) \<leftarrow> check_nfs4_error W r s;
     if bad then Some s
     else do {
       res \<leftarrow> snd r;
       (f, s) \<leftarrow> nfs4_find_op OP_GETATTR res s;
       case f of
         Some (R_GETATTR _ vals) \<Rightarrow> do {
           st \<leftarrow> nfs_parse_attributes (w_blksize W) vals (int (length vals));
           s \<leftarrow> (case st of None \<Rightarrow> finish (- EINVAL) C_text s | Some _ \<Rightarrow> Some s);
           if cmd = NFS4_F_SETLK \<or> cmd = NFS4_F_SETLKW then do {
             _ \<leftarrow> cbd s;
             let s = s\<lparr>flock := (flock s)\<lparr>l_whence := SEEK_SET, l_start := parsed_size vals st + l_start (flock s)\<rparr>\<rparr>;
             (n, _) \<leftarrow> blob_fh (blob0 d) s;
             (rc, s) \<leftarrow> nfs4_fcntl_async_internal W n s;
             if rc \<noteq> 0 then finish (- ENOMEM) C_text s else Some s }
           else Some s }
       | _ \<Rightarrow> Some s } }"

section \<open>The first reply to a lookup\<close>

text \<open>Whether the final component is a symbolic link, from the attributes in the reply; \<open>Some None\<close> when
  they cannot be parsed.\<close>

fun scan_attrs :: "u64 \<Rightarrow> nfs_resop4 list \<Rightarrow> bool parsed" where
  "scan_attrs blk [] = Some (Some False)"
| "scan_attrs blk (R_GETATTR _ vals # rs) = do {
     st \<leftarrow> nfs_parse_attributes blk vals (int (length vals));
     case st of
       None \<Rightarrow> Some None
     | Some st \<Rightarrow> do {
         more \<leftarrow> scan_attrs blk rs;
         Some (map_option (\<lambda>b. (ucast (nfs_mode st) AND S_IFMT = S_IFLNK) \<or> b) more) } }"
| "scan_attrs blk (_ # rs) = scan_attrs blk rs"

text \<open>The number of lookups before the one that found a link, and whether there is one.\<close>

fun failed_lookup :: "nfs_resop4 list \<Rightarrow> u32 \<Rightarrow> u32 \<times> bool" where
  "failed_lookup [] idx = (idx, False)"
| "failed_lookup (R_LOOKUP st # rs) idx =
     (if st = NFS4ERR_SYMLINK then (idx, True) else failed_lookup rs (idx + 1))"
| "failed_lookup (_ # rs) idx = failed_lookup rs idx"

text \<open>The result of an open that ran into a link is what the first loop looks for.  The first component is
  the return value.\<close>

definition open_symlink :: "nfs_resop4 \<Rightarrow> bool" where
  "open_symlink r = (case r of R_OPEN st _ _ \<Rightarrow> st = NFS4ERR_SYMLINK | _ \<Rightarrow> False)"

definition nfs4_open_readlink :: "n4world \<Rightarrow> compound4res \<Rightarrow> n4st \<Rightarrow> (int \<times> n4st) option" where
  "nfs4_open_readlink W res s =
     (if \<not> list_ex open_symlink (resarray res) then Some (0, s)
      else do {
        d \<leftarrow> cbd s;
        if f_flags d AND O_NOFOLLOW \<noteq> 0 then do { s \<leftarrow> callback (- ELOOP) C_text s; Some (-1, s) }
        else do {
          s \<leftarrow> upd (\<lambda>d. d\<lparr>f_func := Some F_lookup_readlink, f_max_op := 2\<rparr>) s;
          (rc, s) \<leftarrow> nfs4_lookup_path_async W Open_readlink s;
          if rc < 0 then do { s \<leftarrow> finish (- ENOMEM) C_text s; Some (-1, s) } else Some (-1, s) } })"

text \<open>\<open>data->continue_cb\<close>: the functions a lookup may go on with.\<close>

definition run_continue :: "n4world \<Rightarrow> cont \<Rightarrow> reply \<Rightarrow> n4st \<Rightarrow> n4st option" where
  "run_continue W c r s =
     (case c of
        Mount_4 \<Rightarrow> nfs4_mount_4_cb W r s
      | Chdir_1 \<Rightarrow> nfs4_chdir_1_cb W r s
      | Xstat64 \<Rightarrow> nfs4_xstat64_cb W r s
      | Mkdir \<Rightarrow> nfs4_mkdir_cb W r s
      | Remove \<Rightarrow> nfs4_remove_cb W r s
      | Open \<Rightarrow> nfs4_open_cb W r s
      | Open_readlink \<Rightarrow> nfs4_open_readlink_cb W r s
      | Symlink \<Rightarrow> nfs4_symlink_cb W r s
      | Readlink \<Rightarrow> nfs4_readlink_cb W r s
      | Link_1 \<Rightarrow> nfs4_link_1_cb W r s
      | Link_2 \<Rightarrow> nfs4_link_2_cb W r s
      | Rename_1 \<Rightarrow> nfs4_rename_1_cb W r s
      | Rename_2 \<Rightarrow> nfs4_rename_2_cb W r s
      | Mknod \<Rightarrow> nfs4_mknod_cb W r s
      | Opendir \<Rightarrow> nfs4_opendir_cb W r s
      | Chmod \<Rightarrow> nfs4_chmod_cb W r s
      | Chown \<Rightarrow> nfs4_chown_cb W r s
      | Access \<Rightarrow> nfs4_access_cb W r s
      | Utimes \<Rightarrow> nfs4_utimes_cb W r s
      | _ \<Rightarrow> None)"

text \<open>The path up to the link is read back with \<open>READLINK\<close>.\<close>

definition lookup_readlink :: "n4world \<Rightarrow> bool \<Rightarrow> compound4res \<Rightarrow> n4st \<Rightarrow> n4st option" where
  "lookup_readlink W resolve_link res s = do {
     let (idx, found) = failed_lookup (resarray res) 0;
     s \<leftarrow> upd (link_idx_update (\<lambda>_. idx)) s;
     if \<not> resolve_link \<and> \<not> found then finish (- EFAULT) C_text s
     else do {
       d \<leftarrow> cbd s;
       dpath \<leftarrow> d_path d;
       let (ok, s) = alloc W s;
       if \<not> ok then finish (- ENOMEM) C_text s
       else do {
         path \<leftarrow> (if resolve_link then Some dpath
                 else do { tmp \<leftarrow> skip_slashes dpath (unat idx) 0; Some (dpath[tmp := CHR 0x00]) });
         let (ok, s) = alloc W s;
         if \<not> ok then finish (- ENOMEM) C_text s
         else do {
           (op, room) \<leftarrow> nfs4_allocate_op (nfsi s) path 1;
           if room < length op + 1 then None
           else do {
             let (rc, s) = rpc_nfs4_compound_async W Lookup_2 (op @ nfs4_op_readlink) s;
             if rc \<noteq> 0 then finish (- ENOMEM) C_text s else Some s } } } } }"

definition nfs4_lookup_path_1_cb :: "n4world \<Rightarrow> reply \<Rightarrow> n4st \<Rightarrow> n4st option" where
  "nfs4_lookup_path_1_cb W r s =
     (case fst r of
        RPC_STATUS_ERROR \<Rightarrow> finish (- EFAULT) C_result s
      | RPC_STATUS_CANCEL \<Rightarrow> finish (- EINTR) C_text s
      | RPC_STATUS_TIMEOUT \<Rightarrow> finish (- EINTR) C_text s
      | RPC_STATUS_SUCCESS \<Rightarrow> do {
          res \<leftarrow> snd r;
          if cr_status res \<noteq> NFS4_OK \<and> cr_status res \<noteq> NFS4ERR_SYMLINK
          then finish (nfsstat3_to_errno W (cr_status res)) C_text s
          else do {
            lnk \<leftarrow> scan_attrs (w_blksize W) (resarray res);
            case lnk of
              None \<Rightarrow> finish (- EINVAL) C_text s
            | Some resolve_link \<Rightarrow> do {
                (rc, s) \<leftarrow> (if \<not> resolve_link then nfs4_open_readlink W res s else Some (0, s));
                if rc < 0 then Some s
                else do {
                  d \<leftarrow> cbd s;
                  let resolve_link = (resolve_link \<and> \<not> LOOKUP_FLAG_NO_FOLLOW d);
                  if cr_status res = NFS4_OK \<and> \<not> resolve_link
                  then do { c \<leftarrow> d_continue_cb d; run_continue W c (RPC_STATUS_SUCCESS, Some res) s }
                  else lookup_readlink W resolve_link res s } } } })"

section \<open>Dispatch\<close>

definition run_cb :: "n4world \<Rightarrow> cont \<Rightarrow> reply \<Rightarrow> n4st \<Rightarrow> n4st option" where
  "run_cb W c r s =
     (case c of
        Lookup_1 \<Rightarrow> nfs4_lookup_path_1_cb W r s
      | Lookup_2 \<Rightarrow> nfs4_lookup_path_2_cb W r s
      | Mount_1 \<Rightarrow> nfs4_mount_1_cb W r s
      | Mount_2 \<Rightarrow> nfs4_mount_2_cb W r s
      | Mount_3 \<Rightarrow> nfs4_mount_3_cb W r s
      | Xstat64 \<Rightarrow> nfs4_xstat64_cb W r s
      | Open_setattr \<Rightarrow> nfs4_open_setattr_cb W r s
      | Open_confirm \<Rightarrow> nfs4_open_confirm_cb W r s
      | Getacl \<Rightarrow> nfs4_getacl_cb W r s
      | Close \<Rightarrow> nfs4_close_cb W r s
      | Pread \<Rightarrow> nfs4_pread_cb W r s
      | Pwrite \<Rightarrow> nfs4_pwrite_cb W r s
      | Write_append \<Rightarrow> nfs4_write_append_cb W r s
      | Opendir_2 \<Rightarrow> nfs4_opendir_2_cb W r s
      | Truncate_close \<Rightarrow> nfs4_truncate_close_cb W r s
      | Fsync \<Rightarrow> nfs4_fsync_cb W r s
      | Lseek \<Rightarrow> nfs4_lseek_cb W r s
      | Lockf \<Rightarrow> nfs4_lockf_cb W r s
      | Fcntl \<Rightarrow> nfs4_fcntl_cb W r s
      | Fcntl_stat \<Rightarrow> nfs4_fcntl_stat_cb W r s
      | Statvfs \<Rightarrow> nfs4_statvfs_cb W r s
      | _ \<Rightarrow> run_continue W c r s)"

end
