(* ===== verification/Nfs4_Async.thy ===== *)
theory Nfs4_Async
  imports Nfs4_Cb
begin

text \<open>
  The operations of the NFSv4 client an application calls, the \<open>nfs4_..._async\<close> functions of
  lib/nfs_v4.c.  Each makes a request, sends the first compound and returns 0, or a negative number when
  nothing was sent.  Before the call there is no request.
\<close>

section \<open>Common parts\<close>

text \<open>A zeroed request with no path, for the operations on open files.\<close>

definition new_data :: "n4world \<Rightarrow> n4st \<Rightarrow> bool \<times> n4st" where
  "new_data W s =
     (let (ok, s) = alloc W s in if ok then (True, s\<lparr>cbd := Some zero_data\<rparr>) else (False, s))"

text \<open>Sending a compound; the request is freed and \<open>-1\<close> returned if that fails.\<close>

definition send_or_free :: "n4world \<Rightarrow> cont \<Rightarrow> nfs_argop4 list \<Rightarrow> n4st \<Rightarrow> (int \<times> n4st) option" where
  "send_or_free W c ops s = do {
     let (rc, s) = rpc_nfs4_compound_async W c ops s;
     if rc \<noteq> 0 then do { s \<leftarrow> free_nfs4_cb_data s; Some (-1, s) } else Some (0, s) }"

definition lookup_or_free :: "n4world \<Rightarrow> cont \<Rightarrow> n4st \<Rightarrow> (int \<times> n4st) option" where
  "lookup_or_free W c s = do {
     (rc, s) \<leftarrow> nfs4_lookup_path_async W c s;
     if rc < 0 then do { s \<leftarrow> free_nfs4_cb_data s; Some (-1, s) } else Some (0, s) }"

definition give_up :: "n4st \<Rightarrow> (int \<times> n4st) option" where
  "give_up s = do { s \<leftarrow> free_nfs4_cb_data s; Some (-1, s) }"

definition owned :: "int \<Rightarrow> blobval \<Rightarrow> nfs4_blob" where
  "owned n v = \<lparr>b_len = n, b_val = v, b_free = True\<rparr>"

definition borrowed :: "int \<Rightarrow> blobval \<Rightarrow> nfs4_blob" where
  "borrowed n v = \<lparr>b_len = n, b_val = v, b_free = False\<rparr>"

section \<open>Mounting, directories and attributes by path\<close>

definition nfs4_mount_async :: "n4world \<Rightarrow> string \<Rightarrow> string \<Rightarrow> n4st \<Rightarrow> (int \<times> n4st) option" where
  "nfs4_mount_async W server export s = do {
     let (ok1, s) = alloc W s;
     let s = s\<lparr>nfsi := (nfsi s)\<lparr>ni_server := (if ok1 then Some server else None)\<rparr>\<rparr>;
     let (ok2, s) = alloc W s;
     if \<not> ok2 then None
     else case nfs_normalize_path export of
       None \<Rightarrow> None
     | Some (Inl _) \<Rightarrow> Some (-1, s)
     | Some (Inr new_export) \<Rightarrow> do {
         let s = s\<lparr>nfsi := (nfsi s)\<lparr>ni_export := new_export\<rparr>\<rparr>;
         let (ok3, s) = new_data W s;
         if \<not> ok3 then Some (-1, s)
         else do {
           let (ok4, s) = alloc W s;
           s \<leftarrow> upd (d_path_update (\<lambda>_. if ok4 then Some new_export else None)) s;
           let port = (if ni_nfsport (nfsi s) \<noteq> 0 then ni_nfsport (nfsi s) else 2049);
           if \<not> w_connect W then give_up s
           else Some (0, s\<lparr>sent := sent s @ [Connect server port Mount_1]\<rparr>) } } }"

text \<open>The operations that only look a path up; \<open>filler.data\<close> is allocated and not used.  Without memory
  for it the callback is called and \<open>-1\<close> returned as well.\<close>

definition nfs4_chdir_async :: "n4world \<Rightarrow> string \<Rightarrow> n4st \<Rightarrow> (int \<times> n4st) option" where
  "nfs4_chdir_async W path s = do {
     (ok, s) \<leftarrow> init_cb_data_full_path W path s;
     if \<not> ok then Some (-1, s)
     else do {
       s \<leftarrow> upd (\<lambda>d. d\<lparr>f_func := Some F_getattr, f_max_op := 1\<rparr>) s;
       let (ok, s) = alloc W s;
       if \<not> ok then do { s \<leftarrow> finish (- ENOMEM) C_text s; Some (-1, s) }
       else do {
         s \<leftarrow> upd (f_data_update (\<lambda>_. Some [])) s;
         lookup_or_free W Chdir_1 s } } }"

definition nfs4_stat64_async :: "n4world \<Rightarrow> string \<Rightarrow> bool \<Rightarrow> n4st \<Rightarrow> (int \<times> n4st) option" where
  "nfs4_stat64_async W path no_follow s = do {
     (ok, s) \<leftarrow> init_cb_data_full_path W path s;
     if \<not> ok then Some (-1, s)
     else do {
       s \<leftarrow> upd (\<lambda>d. d\<lparr>LOOKUP_FLAG_NO_FOLLOW := no_follow, f_func := Some F_getattr, f_max_op := 1\<rparr>) s;
       let (ok, s) = alloc W s;
       if \<not> ok then do { s \<leftarrow> finish (- ENOMEM) C_text s; Some (-1, s) }
       else do {
         s \<leftarrow> upd (f_data_update (\<lambda>_. Some [])) s;
         lookup_or_free W Xstat64 s } } }"

definition nfs4_mkdir2_async :: "n4world \<Rightarrow> string \<Rightarrow> u32 \<Rightarrow> n4st \<Rightarrow> (int \<times> n4st) option" where
  "nfs4_mkdir2_async W path mode s = do {
     (ok, s) \<leftarrow> init_cb_data_split_path W path s;
     if \<not> ok then Some (-1, s)
     else do {
       s \<leftarrow> upd (\<lambda>d. d\<lparr>f_func := Some F_mkdir, f_max_op := 1\<rparr>) s;
       let (ok, s) = alloc W s;
       if \<not> ok then give_up s
       else do {
         s \<leftarrow> upd (blob0_update (\<lambda>_. owned 2 (B_words [0, attr_bit (33 - 32)]))) s;
         let (ok, s) = alloc W s;
         if \<not> ok then give_up s
         else do {
           s \<leftarrow> upd (blob1_update (\<lambda>_. owned 4 (B_bytes (enc32 mode)))) s;
           lookup_or_free W Mkdir s } } } }"

definition nfs4_remove_async :: "n4world \<Rightarrow> string \<Rightarrow> n4st \<Rightarrow> (int \<times> n4st) option" where
  "nfs4_remove_async W path s = do {
     (ok, s) \<leftarrow> init_cb_data_split_path W path s;
     if \<not> ok then Some (-1, s)
     else do {
       s \<leftarrow> upd (\<lambda>d. d\<lparr>f_func := Some F_remove, f_max_op := 1\<rparr>) s;
       lookup_or_free W Remove s } }"

definition nfs4_rmdir_async :: "n4world \<Rightarrow> string \<Rightarrow> n4st \<Rightarrow> (int \<times> n4st) option" where
  "nfs4_rmdir_async W path s = nfs4_remove_async W path s"

definition nfs4_unlink_async :: "n4world \<Rightarrow> string \<Rightarrow> n4st \<Rightarrow> (int \<times> n4st) option" where
  "nfs4_unlink_async W path s = nfs4_remove_async W path s"

section \<open>Opening and creating\<close>

definition nfs4_open_async_internal :: "n4world \<Rightarrow> u32 \<Rightarrow> u32 \<Rightarrow> n4st \<Rightarrow> (int \<times> n4st) option" where
  "nfs4_open_async_internal W fl mode s = do {
     let fl = (if fl AND O_APPEND \<noteq> 0 \<and> fl AND (O_RDWR OR O_WRONLY) = 0 then fl AND NOT O_APPEND else fl);
     (go, s) \<leftarrow>
       (if fl AND O_CREAT \<noteq> 0 then do {
          let (ok, s) = alloc W s;
          if \<not> ok then do { s \<leftarrow> free_nfs4_cb_data s; Some (False, s) }
          else do {
            s \<leftarrow> upd (blob1_update (\<lambda>_. owned 2 (B_words [0, attr_bit (33 - 32)]))) s;
            let (ok, s) = alloc W s;
            if \<not> ok then do { s \<leftarrow> free_nfs4_cb_data s; Some (False, s) }
            else do {
              s \<leftarrow> upd (blob2_update (\<lambda>_. owned 4 (B_bytes (enc32 mode)))) s;
              Some (True, s) } } }
        else Some (True, s));
     if \<not> go then Some (-1, s)
     else do {
       s \<leftarrow> upd (\<lambda>d. d\<lparr>d_open_owner := open_counter (nfsi s), f_func := Some F_open, f_max_op := 3, f_flags := fl\<rparr>) s;
       let s = s\<lparr>nfsi := (nfsi s)\<lparr>open_counter := open_counter (nfsi s) + 1\<rparr>\<rparr>;
       lookup_or_free W Open s } }"

definition nfs4_open_async :: "n4world \<Rightarrow> string \<Rightarrow> u32 \<Rightarrow> u32 \<Rightarrow> n4st \<Rightarrow> (int \<times> n4st) option" where
  "nfs4_open_async W path fl mode s = do {
     (ok, s) \<leftarrow> init_cb_data_split_path W path s;
     if \<not> ok then Some (-1, s)
     else do {
       let fl = (if fl AND O_TRUNC \<noteq> 0 \<and> fl AND (O_RDWR OR O_WRONLY) = 0 then fl AND NOT O_TRUNC else fl);
       let fl = (if fl AND O_EXCL \<noteq> 0 then fl AND NOT O_TRUNC else fl);
       (go, s) \<leftarrow>
         (if fl AND O_TRUNC \<noteq> 0 then do {
            s \<leftarrow> upd (d_open_cb_update (\<lambda>_. Some Open_truncate)) s;
            let (ok, s) = alloc W s;
            if \<not> ok then do { s \<leftarrow> free_nfs4_cb_data s; Some (False, s) }
            else do { s \<leftarrow> upd (blob3_update (\<lambda>_. owned 0 (B_bytes (replicate 12 0)))) s; Some (True, s) } }
          else Some (True, s));
       if \<not> go then Some (-1, s)
       else do {
         (go, s) \<leftarrow>
           (if fl AND O_EXCL \<noteq> 0 then do {
              s \<leftarrow> upd (d_open_cb_update (\<lambda>_. Some Open_chmod)) s;
              let (ok, s) = alloc W s;
              if \<not> ok then do { s \<leftarrow> free_nfs4_cb_data s; Some (False, s) }
              else do { s \<leftarrow> upd (blob3_update (\<lambda>_. owned 0 (B_bytes (enc32 mode)))) s; Some (True, s) } }
            else Some (True, s));
         if \<not> go then Some (-1, s) else nfs4_open_async_internal W fl mode s } } }"

definition nfs4_create_async :: "n4world \<Rightarrow> string \<Rightarrow> u32 \<Rightarrow> u32 \<Rightarrow> n4st \<Rightarrow> (int \<times> n4st) option" where
  "nfs4_create_async W path fl mode s = nfs4_open_async W path (O_CREAT OR fl) mode s"

definition nfs4_truncate_async :: "n4world \<Rightarrow> string \<Rightarrow> u64 \<Rightarrow> n4st \<Rightarrow> (int \<times> n4st) option" where
  "nfs4_truncate_async W path len s = do {
     (ok, s) \<leftarrow> init_cb_data_split_path W path s;
     if \<not> ok then Some (-1, s)
     else do {
       s \<leftarrow> upd (d_open_cb_update (\<lambda>_. Some Truncate_open)) s;
       let (ok, s) = alloc W s;
       if \<not> ok then give_up s
       else do {
         s \<leftarrow> upd (blob3_update (\<lambda>_. owned 0 (B_bytes (le 8 (nfs_hton64 len) @ replicate 4 0)))) s;
         nfs4_open_async_internal W O_WRONLY 0 s } } }"

section \<open>Operations on an open file\<close>

definition nfs4_fstat64_async :: "n4world \<Rightarrow> nat \<Rightarrow> n4st \<Rightarrow> (int \<times> n4st) option" where
  "nfs4_fstat64_async W n s = do {
     let (ok, s) = new_data W s;
     if \<not> ok then Some (-1, s)
     else do {
       h \<leftarrow> nfhs s n;
       send_or_free W Xstat64 (nfs4_op_putfh (fh_val h) @ nfs4_op_getattr standard_attributes) s } }"

definition nfs4_getacl_async :: "n4world \<Rightarrow> nat \<Rightarrow> n4st \<Rightarrow> (int \<times> n4st) option" where
  "nfs4_getacl_async W n s = do {
     let (ok, s) = new_data W s;
     if \<not> ok then Some (-1, s)
     else do {
       h \<leftarrow> nfhs s n;
       send_or_free W Getacl (nfs4_op_putfh (fh_val h) @ nfs4_op_getattr getacl_attributes) s } }"

text \<open>The request owns the file from here on, unless the compound cannot be sent.\<close>

definition nfs4_close_async :: "n4world \<Rightarrow> nat \<Rightarrow> n4st \<Rightarrow> (int \<times> n4st) option" where
  "nfs4_close_async W n s = do {
     let (ok, s) = new_data W s;
     if \<not> ok then Some (-1, s)
     else do {
       h \<leftarrow> nfhs s n;
       s \<leftarrow> upd (blob0_update (\<lambda>_. owned 0 (B_fh n))) s;
       let (rc, s) = rpc_nfs4_compound_async W Close (nfs4_op_putfh (fh_val h) @ nfs4_op_close h) s;
       if rc \<noteq> 0 then do {
         s \<leftarrow> upd (blob0_update (b_val_update (\<lambda>_. B_null))) s;
         give_up s }
       else Some (0, s) } }"

definition nfs4_pread_async_internal ::
  "n4world \<Rightarrow> nat \<Rightarrow> u64 \<Rightarrow> u64 \<Rightarrow> bool \<Rightarrow> n4st \<Rightarrow> (int \<times> n4st) option" where
  "nfs4_pread_async_internal W n offset cnt update_pos s = do {
     let (ok, s) = new_data W s;
     if \<not> ok then Some (-1, s)
     else do {
       s \<leftarrow> upd (\<lambda>d. d\<lparr>blob0 := borrowed 0 (B_fh n), rw_offset := offset, rw_update_pos := update_pos\<rparr>) s;
       h \<leftarrow> nfhs s n;
       send_or_free W Pread (nfs4_op_putfh (fh_val h) @ nfs4_op_read h offset cnt) s } }"

definition nfs4_write_async :: "n4world \<Rightarrow> nat \<Rightarrow> u64 \<Rightarrow> u8 list \<Rightarrow> n4st \<Rightarrow> (int \<times> n4st) option" where
  "nfs4_write_async W n cnt buf s = do {
     h \<leftarrow> nfhs s n;
     if is_append h then do {
       let (ok, s) = new_data W s;
       if \<not> ok then Some (-1, s)
       else do {
         s \<leftarrow> upd (\<lambda>d. d\<lparr>blob0 := borrowed 0 (B_fh n), blob1 := borrowed (sint (ucast cnt :: u32)) (B_bytes buf)\<rparr>) s;
         let (rc, s) = rpc_nfs4_compound_async2 W Write_append
               (nfs4_op_putfh (fh_val h) @ nfs4_op_getattr standard_attributes) s;
         if rc \<noteq> 0 then do { s \<leftarrow> free_nfs4_cb_data s; Some (- EIO, s) } else Some (0, s) } }
     else nfs4_pwrite_async_internal W n (fh_offset h) cnt buf True s }"

definition nfs4_fsync_async :: "n4world \<Rightarrow> nat \<Rightarrow> n4st \<Rightarrow> (int \<times> n4st) option" where
  "nfs4_fsync_async W n s = do {
     let (ok, s) = new_data W s;
     if \<not> ok then Some (-1, s)
     else do {
       h \<leftarrow> nfhs s n;
       send_or_free W Fsync (nfs4_op_putfh (fh_val h) @ nfs4_op_commit) s } }"

definition nfs4_ftruncate_async :: "n4world \<Rightarrow> nat \<Rightarrow> u64 \<Rightarrow> n4st \<Rightarrow> (int \<times> n4st) option" where
  "nfs4_ftruncate_async W n len s = do {
     let (ok, s) = new_data W s;
     if \<not> ok then Some (-1, s)
     else do {
       let (ok, s) = alloc W s;
       if \<not> ok then give_up s
       else do {
         let b = le 8 (nfs_hton64 len) @ replicate 4 0;
         s \<leftarrow> upd (blob3_update (\<lambda>_. owned 0 (B_bytes b))) s;
         h \<leftarrow> nfhs s n;
         send_or_free W Fsync (nfs4_op_putfh (fh_val h) @ nfs4_op_truncate h b) s } } }"

text \<open>Seeking from the start or the current position answers at once.\<close>

definition nfs4_lseek_async :: "n4world \<Rightarrow> nat \<Rightarrow> u64 \<Rightarrow> u32 \<Rightarrow> n4st \<Rightarrow> (int \<times> n4st) option" where
  "nfs4_lseek_async W n offset whence s = do {
     h \<leftarrow> nfhs s n;
     if whence = SEEK_SET then
       if sint offset < 0 then Some (0, s\<lparr>calls := calls s @ [(- EINVAL, C_offset (fh_offset h))]\<rparr>)
       else do {
         s \<leftarrow> set_fh n (fh_offset_update (\<lambda>_. offset)) s;
         Some (0, s\<lparr>calls := calls s @ [(0, C_offset offset)]\<rparr>) }
     else if whence = SEEK_CUR then
       if sint offset < 0 \<and> fh_offset h < - offset
       then Some (0, s\<lparr>calls := calls s @ [(- EINVAL, C_offset (fh_offset h))]\<rparr>)
       else do {
         s \<leftarrow> set_fh n (fh_offset_update (\<lambda>v. v + offset)) s;
         Some (0, s\<lparr>calls := calls s @ [(0, C_offset (fh_offset h + offset))]\<rparr>) }
     else do {
       let (ok, s) = new_data W s;
       if \<not> ok then Some (-1, s)
       else do {
         s \<leftarrow> upd (blob0_update (\<lambda>_. borrowed 0 (B_fh n))) s;
         let (ok, s) = alloc W s;
         if \<not> ok then give_up s
         else do {
           s \<leftarrow> upd (blob1_update (\<lambda>_. borrowed 0 (B_bytes (le 8 offset)))) s;
           send_or_free W Lseek (nfs4_op_putfh (fh_val h) @ nfs4_op_getattr standard_attributes) s } } } }"

definition nfs4_lockf_async :: "n4world \<Rightarrow> nat \<Rightarrow> int \<Rightarrow> u64 \<Rightarrow> n4st \<Rightarrow> (int \<times> n4st) option" where
  "nfs4_lockf_async W n cmd cnt s = do {
     let (ok, s) = new_data W s;
     if \<not> ok then Some (-1, s)
     else do {
       s \<leftarrow> upd (\<lambda>d. d\<lparr>blob0 := borrowed 0 (B_fh n), blob1 := borrowed cmd B_null\<rparr>) s;
       h \<leftarrow> nfhs s n;
       let (ops, h') =
         (if cmd = NFS4_F_LOCK then nfs4_op_lock (nfsi s) h WRITEW_LT False (fh_offset h) cnt
          else if cmd = NFS4_F_TLOCK then nfs4_op_lock (nfsi s) h WRITE_LT False (fh_offset h) cnt
          else if cmd = NFS4_F_ULOCK then nfs4_op_locku h WRITE_LT (fh_offset h) cnt
          else if cmd = NFS4_F_TEST then (nfs4_op_lockt (nfsi s) WRITEW_LT (fh_offset h) cnt, h)
          else ([], h));
       s \<leftarrow> set_fh n (\<lambda>_. h') s;
       send_or_free W Lockf (nfs4_op_putfh (fh_val h) @ ops) s } }"

definition nfs4_fcntl_async :: "n4world \<Rightarrow> nat \<Rightarrow> int \<Rightarrow> n4st \<Rightarrow> (int \<times> n4st) option" where
  "nfs4_fcntl_async W n cmd s = do {
     let (ok, s) = new_data W s;
     if \<not> ok then Some (-1, s)
     else do {
       s \<leftarrow> upd (\<lambda>d. d\<lparr>blob0 := borrowed 0 (B_fh n), blob1 := borrowed cmd B_flock\<rparr>) s;
       if cmd = NFS4_F_SETLK \<or> cmd = NFS4_F_SETLKW then
         if l_whence (flock s) = SEEK_SET then nfs4_fcntl_async_internal W n s
         else if l_whence (flock s) = SEEK_CUR then do {
           h \<leftarrow> nfhs s n;
           nfs4_fcntl_async_internal W n
             (s\<lparr>flock := (flock s)\<lparr>l_whence := SEEK_SET, l_start := fh_offset h + l_start (flock s)\<rparr>\<rparr>) }
         else if l_whence (flock s) = SEEK_END then do {
           h \<leftarrow> nfhs s n;
           send_or_free W Fcntl_stat (nfs4_op_putfh (fh_val h) @ nfs4_op_getattr standard_attributes) s }
         else give_up s
       else give_up s } }"

definition nfs4_fchmod_async :: "n4world \<Rightarrow> nat \<Rightarrow> u32 \<Rightarrow> n4st \<Rightarrow> (int \<times> n4st) option" where
  "nfs4_fchmod_async W n mode s = do {
     let (ok, s) = new_data W s;
     if \<not> ok then Some (-1, s)
     else do {
       let (ok, s) = alloc W s;
       if \<not> ok then give_up s
       else do {
         s \<leftarrow> upd (blob3_update (\<lambda>_. owned 0 (B_bytes (enc32 mode)))) s;
         h \<leftarrow> nfhs s n;
         send_or_free W Fsync (nfs4_op_putfh (fh_val h) @ nfs4_op_chmod (Some h) (enc32 mode)) s } } }"

section \<open>Links, nodes and directories\<close>

definition nfs4_symlink_async :: "n4world \<Rightarrow> string \<Rightarrow> string \<Rightarrow> n4st \<Rightarrow> (int \<times> n4st) option" where
  "nfs4_symlink_async W target linkname s = do {
     (ok, s) \<leftarrow> init_cb_data_split_path W linkname s;
     if \<not> ok then Some (-1, s)
     else do {
       let (ok, s) = alloc W s;
       s \<leftarrow> upd (\<lambda>d. d\<lparr>f_func := Some F_symlink, f_max_op := 1,
              blob0 := owned 0 (if ok then B_str target else B_null)\<rparr>) s;
       lookup_or_free W Symlink s } }"

definition nfs4_readlink_async :: "n4world \<Rightarrow> string \<Rightarrow> n4st \<Rightarrow> (int \<times> n4st) option" where
  "nfs4_readlink_async W path s = do {
     (ok, s) \<leftarrow> init_cb_data_full_path W path s;
     if \<not> ok then Some (-1, s)
     else do {
       s \<leftarrow> upd (\<lambda>d. d\<lparr>f_func := Some F_readlink, f_max_op := 1, LOOKUP_FLAG_NO_FOLLOW := True\<rparr>) s;
       lookup_or_free W Readlink s } }"

definition nfs4_link_async :: "n4world \<Rightarrow> string \<Rightarrow> string \<Rightarrow> n4st \<Rightarrow> (int \<times> n4st) option" where
  "nfs4_link_async W oldpath newpath s = do {
     (ok, s) \<leftarrow> init_cb_data_split_path W newpath s;
     if \<not> ok then Some (-1, s)
     else do {
       s \<leftarrow> upd (\<lambda>d. d\<lparr>f_func := Some F_getfh, f_max_op := 1\<rparr>) s;
       let (ok, s) = alloc W s;
       if \<not> ok then give_up s
       else do {
         s \<leftarrow> upd (blob1_update (\<lambda>_. owned 0 (B_str oldpath))) s;
         lookup_or_free W Link_1 s } } }"

definition nfs4_rename_async :: "n4world \<Rightarrow> string \<Rightarrow> string \<Rightarrow> n4st \<Rightarrow> (int \<times> n4st) option" where
  "nfs4_rename_async W oldpath newpath s = do {
     (ok, s) \<leftarrow> init_cb_data_split_path W newpath s;
     if \<not> ok then Some (-1, s)
     else do {
       s \<leftarrow> upd (\<lambda>d. d\<lparr>f_func := Some F_getfh, f_max_op := 1\<rparr>) s;
       let (ok, s) = alloc W s;
       if \<not> ok then give_up s
       else do {
         s \<leftarrow> upd (blob2_update (\<lambda>_. owned 0 (B_str oldpath))) s;
         lookup_or_free W Rename_1 s } } }"

text \<open>Without memory for the mask, 0 is returned although nothing was sent.\<close>

definition nfs4_mknod_async :: "n4world \<Rightarrow> string \<Rightarrow> u32 \<Rightarrow> u32 \<Rightarrow> n4st \<Rightarrow> (int \<times> n4st) option" where
  "nfs4_mknod_async W path mode dev s =
     (if mode AND S_IFMT \<noteq> S_IFCHR \<and> mode AND S_IFMT \<noteq> S_IFBLK then Some (-1, s)
      else do {
        (ok, s) \<leftarrow> init_cb_data_split_path W path s;
        if \<not> ok then Some (-1, s)
        else do {
          s \<leftarrow> upd (\<lambda>d. d\<lparr>f_func := Some F_mknod, f_max_op := 1\<rparr>) s;
          let (ok, s) = alloc W s;
          if \<not> ok then Some (0, s)
          else do {
            s \<leftarrow> upd (blob0_update (\<lambda>_. owned 2 (B_words [0, attr_bit (33 - 32)]))) s;
            let (ok, s) = alloc W s;
            if \<not> ok then give_up s
            else do {
              s \<leftarrow> upd (\<lambda>d. d\<lparr>blob1 := owned 4 (B_bytes (le 4 mode)), blob2 := borrowed (sint dev) B_null\<rparr>) s;
              lookup_or_free W Mknod s } } } })"

definition nfs4_opendir_async :: "n4world \<Rightarrow> string \<Rightarrow> n4st \<Rightarrow> (int \<times> n4st) option" where
  "nfs4_opendir_async W path s = do {
     (ok, s) \<leftarrow> init_cb_data_full_path W path s;
     if \<not> ok then Some (-1, s)
     else do {
       s \<leftarrow> upd (\<lambda>d. d\<lparr>f_func := Some F_readdir, f_max_op := 2\<rparr>) s;
       let (ok, s) = alloc W s;
       if \<not> ok then give_up s
       else do {
         s \<leftarrow> upd (blob1_update (\<lambda>_. owned 0 (B_dir []))) s;
         let (ok, s) = alloc W s;
         if \<not> ok then give_up s
         else do {
           s \<leftarrow> upd (blob2_update (\<lambda>_. owned 0 (B_bytes (le 8 (0 :: u64))))) s;
           lookup_or_free W Opendir s } } } }"

section \<open>File system, permissions, owners and times\<close>

text \<open>The path is not used: the attributes are always those of the root of the export.\<close>

definition nfs4_statvfs_async_internal :: "n4world \<Rightarrow> string \<Rightarrow> bool \<Rightarrow> n4st \<Rightarrow> (int \<times> n4st) option" where
  "nfs4_statvfs_async_internal W path is_statvfs64 s = do {
     let (ok, s) = new_data W s;
     if \<not> ok then Some (-1, s)
     else do {
       s \<leftarrow> upd (LOOKUP_FLAG_IS_STATVFS64_update (\<lambda>_. is_statvfs64)) s;
       v \<leftarrow> (if fst (ni_rootfh (nfsi s)) = 0 then Some [] else snd (ni_rootfh (nfsi s)));
       send_or_free W Statvfs (nfs4_op_putfh v @ nfs4_op_getattr statvfs_attributes) s } }"

definition nfs4_statvfs_async :: "n4world \<Rightarrow> string \<Rightarrow> n4st \<Rightarrow> (int \<times> n4st) option" where
  "nfs4_statvfs_async W path s = nfs4_statvfs_async_internal W path False s"

definition nfs4_statvfs64_async :: "n4world \<Rightarrow> string \<Rightarrow> n4st \<Rightarrow> (int \<times> n4st) option" where
  "nfs4_statvfs64_async W path s = nfs4_statvfs_async_internal W path True s"

text \<open>The next function returns \<open>-1\<close> without freeing the request when the lookup cannot be sent, and so
  does the one for the owner.\<close>

definition nfs4_chmod_async_internal :: "n4world \<Rightarrow> string \<Rightarrow> bool \<Rightarrow> u32 \<Rightarrow> n4st \<Rightarrow> (int \<times> n4st) option" where
  "nfs4_chmod_async_internal W path no_follow mode s = do {
     (ok, s) \<leftarrow> init_cb_data_full_path W path s;
     if \<not> ok then Some (-1, s)
     else do {
       s \<leftarrow> upd (\<lambda>d. d\<lparr>f_func := Some F_chmod, f_max_op := 1, LOOKUP_FLAG_NO_FOLLOW := no_follow\<rparr>) s;
       let (ok, s) = alloc W s;
       if \<not> ok then give_up s
       else do {
         s \<leftarrow> upd (blob3_update (\<lambda>_. owned 0 (B_bytes (enc32 mode)))) s;
         (rc, s) \<leftarrow> nfs4_lookup_path_async W Chmod s;
         Some (if rc < 0 then -1 else 0, s) } } }"

text \<open>\<open>snprintf\<close> of an \<open>int\<close> with \<open>%d\<close>.\<close>

fun nat_digits :: "nat \<Rightarrow> u8 list" where
  "nat_digits n = (if n < 10 then [] else nat_digits (n div 10)) @ [48 + of_nat (n mod 10)]"

declare nat_digits.simps [simp del]

definition int_digits :: "int \<Rightarrow> u8 list" where
  "int_digits i = (if i < 0 then 45 # nat_digits (nat (- i)) else nat_digits (nat i))"

definition poke :: "nat \<Rightarrow> u8 list \<Rightarrow> u8 list \<Rightarrow> u8 list" where
  "poke i new buf = take i buf @ new @ drop (i + length new) buf"

text \<open>One string with its length in front of it, at position \<open>i\<close> of the buffer, and the next position.\<close>

definition chown_part :: "u32 \<Rightarrow> nat \<Rightarrow> u8 list \<Rightarrow> nat \<times> u8 list" where
  "chown_part v i str =
     (let t = int_digits (sint v);
          str = poke (i + 4) t str;
          str = poke i (enc32 (of_nat (length t))) str
      in ((i + 4 + length t + 3) div 4 * 4, str))"

definition nfs4_create_chown_buffer :: "n4world \<Rightarrow> u32 \<Rightarrow> u32 \<Rightarrow> n4st \<Rightarrow> (int \<times> n4st) option" where
  "nfs4_create_chown_buffer W uid gid s = do {
     let (ok, s) = alloc W s;
     if \<not> ok then do { s \<leftarrow> upd (blob3_update (b_val_update (\<lambda>_. B_null))) s; Some (-1, s) }
     else do {
       let (i, str) = chown_part uid 0 (replicate 64 0);
       let (i, str) = chown_part gid i str;
       s \<leftarrow> upd (blob3_update (\<lambda>_. owned (int i) (B_bytes str))) s;
       Some (0, s) } }"

text \<open>The path is split, so what is looked up is the directory of the file.\<close>

definition nfs4_chown_async_internal ::
  "n4world \<Rightarrow> string \<Rightarrow> bool \<Rightarrow> u32 \<Rightarrow> u32 \<Rightarrow> n4st \<Rightarrow> (int \<times> n4st) option" where
  "nfs4_chown_async_internal W path no_follow uid gid s = do {
     (ok, s) \<leftarrow> init_cb_data_split_path W path s;
     if \<not> ok then Some (-1, s)
     else do {
       s \<leftarrow> upd (\<lambda>d. d\<lparr>f_func := Some F_chown, f_max_op := 1, LOOKUP_FLAG_NO_FOLLOW := no_follow\<rparr>) s;
       (rc, s) \<leftarrow> nfs4_create_chown_buffer W uid gid s;
       if rc < 0 then give_up s
       else do {
         (rc, s) \<leftarrow> nfs4_lookup_path_async W Chown s;
         Some (if rc < 0 then -1 else 0, s) } } }"

definition nfs4_fchown_async :: "n4world \<Rightarrow> nat \<Rightarrow> u32 \<Rightarrow> u32 \<Rightarrow> n4st \<Rightarrow> (int \<times> n4st) option" where
  "nfs4_fchown_async W n uid gid s = do {
     let (ok, s) = new_data W s;
     if \<not> ok then Some (-1, s)
     else do {
       (rc, s) \<leftarrow> nfs4_create_chown_buffer W uid gid s;
       if rc < 0 then give_up s
       else do {
         d \<leftarrow> cbd s;
         b \<leftarrow> blob_bytes (blob3 d);
         h \<leftarrow> nfhs s n;
         send_or_free W Fsync (nfs4_op_putfh (fh_val h) @ nfs4_op_chown (Some h) b (nat (b_len (blob3 d)))) s } } }"

text \<open>Without memory for the mask the request is not freed.\<close>

definition nfs4_access_internal :: "n4world \<Rightarrow> string \<Rightarrow> u32 \<Rightarrow> bool \<Rightarrow> n4st \<Rightarrow> (int \<times> n4st) option" where
  "nfs4_access_internal W path mode is_access2 s = do {
     (ok, s) \<leftarrow> init_cb_data_full_path W path s;
     if \<not> ok then Some (-1, s)
     else do {
       s \<leftarrow> upd (\<lambda>d. d\<lparr>f_func := Some F_access, f_max_op := 1, f_flags := (if is_access2 then 1 else 0)\<rparr>) s;
       let (ok, s) = alloc W s;
       if \<not> ok then Some (-1, s)
       else do {
         let m = (if mode AND 4 \<noteq> 0 then ACCESS4_READ else 0) OR (if mode AND 2 \<noteq> 0 then ACCESS4_MODIFY else 0) OR
                 (if mode AND 1 \<noteq> 0 then ACCESS4_EXECUTE else 0);
         s \<leftarrow> upd (blob3_update (\<lambda>_. owned 0 (B_bytes (le 4 m)))) s;
         lookup_or_free W Access s } } }"

definition nfs4_access_async :: "n4world \<Rightarrow> string \<Rightarrow> u32 \<Rightarrow> n4st \<Rightarrow> (int \<times> n4st) option" where
  "nfs4_access_async W path mode s = nfs4_access_internal W path mode False s"

definition nfs4_access2_async :: "n4world \<Rightarrow> string \<Rightarrow> n4st \<Rightarrow> (int \<times> n4st) option" where
  "nfs4_access2_async W path s = nfs4_access_internal W path (4 OR 2 OR 1) True s"

definition nfs4_utimes_async_internal ::
  "n4world \<Rightarrow> string \<Rightarrow> bool \<Rightarrow> ((u64 \<times> u64) \<times> (u64 \<times> u64)) option \<Rightarrow> n4st \<Rightarrow> (int \<times> n4st) option" where
  "nfs4_utimes_async_internal W path no_follow tv s = do {
     (ok, s) \<leftarrow> init_cb_data_full_path W path s;
     if \<not> ok then Some (-1, s)
     else do {
       s \<leftarrow> upd (\<lambda>d. d\<lparr>f_func := Some F_utimes, f_max_op := 1, LOOKUP_FLAG_NO_FOLLOW := no_follow\<rparr>) s;
       let (ok, s) = alloc W s;
       if \<not> ok then Some (-1, s)
       else do {
         let settime = (\<lambda>(sec, usec). enc32 1 @ le 8 (nfs_hton64 sec) @ enc32 (ucast (usec * 1000)));
         let b = (case tv of
                    Some (at, mt) \<Rightarrow> owned 32 (B_bytes (settime at @ settime mt))
                  | None \<Rightarrow> owned 8 (B_bytes (enc32 0 @ enc32 0 @ replicate 24 0)));
         s \<leftarrow> upd (blob3_update (\<lambda>_. b)) s;
         lookup_or_free W Utimes s } } }"

definition nfs4_utime_async :: "n4world \<Rightarrow> string \<Rightarrow> (u64 \<times> u64) option \<Rightarrow> n4st \<Rightarrow> (int \<times> n4st) option" where
  "nfs4_utime_async W path tv s =
     nfs4_utimes_async_internal W path False (map_option (\<lambda>(actime, modtime). ((actime, 0), (modtime, 0))) tv) s"

end
