(* ===== verification/Nfs4_Once.thy ===== *)
theory Nfs4_Once
  imports Nfs4_Async
begin

text \<open>
  What becomes of a request of the NFSv4 client: whatever the server answers, each callback either sends
  one more compound or calls the application once and frees the request, and does not fault.  The
  hypotheses say what a well-behaved server and enough memory are; the places where the code does not
  keep to this are stated separately.
\<close>

section \<open>Outcomes\<close>

text \<open>Freeing the request does not fault: the file it owns is there, and only \<open>blob0\<close> owns a file.\<close>

definition no_fh :: "nfs4_blob \<Rightarrow> bool" where
  "no_fh b \<longleftrightarrow> (\<forall>n. b_val b \<noteq> B_fh n)"

definition freeable :: "nfs4_cb_data \<Rightarrow> n4st \<Rightarrow> bool" where
  "freeable d s \<longleftrightarrow> no_fh (blob1 d) \<and> no_fh (blob2 d) \<and> no_fh (blob3 d) \<and>
     (\<forall>n. b_val (blob0 d) = B_fh n \<longrightarrow> nfhs s n \<noteq> None)"

text \<open>A path that has a name once it is made absolute, other than the empty string.\<close>

definition absolute :: "string \<Rightarrow> string \<Rightarrow> string" where
  "absolute cwd p = (if p \<noteq> [] \<and> hd p = SLASH then p else cwd @ ''/'' @ p)"

definition names :: "nfs_context_internal \<Rightarrow> string \<Rightarrow> bool" where
  "names ni p \<longleftrightarrow> CHR 0x00 \<notin> set p \<and> nfs_normalize_path (absolute (ni_cwd ni) p) \<noteq> Some (Inr [])"

definition sane :: "nfs_context_internal \<Rightarrow> bool" where
  "sane ni \<longleftrightarrow> rootfh_ok ni \<and> (\<exists>cs. canon (ni_cwd ni) cs)"

text \<open>A request that can be worked on, and one that is over: the application was called once more.\<close>

definition live :: "nfs4_cb_data \<Rightarrow> n4st \<Rightarrow> bool" where
  "live d s \<longleftrightarrow> cbd s = Some d \<and> freeable d s \<and> sane (nfsi s)"

definition ended :: "(int \<times> cbarg) list \<Rightarrow> msg list \<Rightarrow> n4st \<Rightarrow> bool" where
  "ended cs ms s \<longleftrightarrow> cbd s = None \<and> (\<exists>c. calls s = cs @ [c]) \<and> sent s = ms \<and> sane (nfsi s)"

lemma free_blob_no_fh: "no_fh b \<Longrightarrow> free_blob b s = Some s"
  by (auto simp: free_blob_def no_fh_def split: blobval.splits)

lemma free_ok:
  assumes "cbd s = Some d" "freeable d s"
  shows "\<exists>s'. free_nfs4_cb_data s = Some s' \<and> cbd s' = None \<and> calls s' = calls s \<and> sent s' = sent s \<and>
           nfsi s' = nfsi s \<and> nalloc s' = nalloc s"
proof -
  have "\<exists>s'. free_blob (blob0 d) s = Some s' \<and> calls s' = calls s \<and> sent s' = sent s \<and> nfsi s' = nfsi s \<and> nalloc s' = nalloc s"
    using assms(2) by (auto simp: free_blob_def freeable_def nfs_free_nfsfh_def split: blobval.splits option.splits)
  then show ?thesis using assms by (auto simp: free_nfs4_cb_data_def free_blob_no_fh freeable_def)
qed

lemma finish_ended:
  assumes "live d s"
  shows "\<exists>s'. finish e a s = Some s' \<and> ended (calls s) (sent s) s'"
proof -
  let ?s = "s\<lparr>calls := calls s @ [(e, a)]\<rparr>"
  have "cbd ?s = Some d" "freeable d ?s" using assms by (auto simp: freeable_def live_def)
  from free_ok [OF this] show ?thesis using assms by (auto simp: finish_def callback_def ended_def live_def)
qed

text \<open>A computation that ends in a state with a property.\<close>

definition gives :: "n4st option \<Rightarrow> (n4st \<Rightarrow> bool) \<Rightarrow> bool" where
  "gives m P \<longleftrightarrow> (\<exists>s. m = Some s \<and> P s)"

lemma gives_Some [simp]: "gives (Some s) P = P s" "gives None P = False"
  by (simp_all add: gives_def)

section \<open>What a request needs at each stage\<close>

fun is_bytes :: "blobval \<Rightarrow> bool" where
  "is_bytes (B_bytes _) = True"
| "is_bytes _ = False"

fun is_words :: "blobval \<Rightarrow> bool" where
  "is_words (B_words _) = True"
| "is_words _ = False"

text \<open>What the filler of a request reads.\<close>

definition filler_ok :: "op_filler \<Rightarrow> nfs4_cb_data \<Rightarrow> n4st \<Rightarrow> bool" where
  "filler_ok f d s =
     (case f of
        F_getfh \<Rightarrow> True
      | F_getattr \<Rightarrow> True
      | F_readlink \<Rightarrow> True
      | F_access \<Rightarrow> is_bytes (b_val (blob3 d))
      | F_chmod \<Rightarrow> is_bytes (b_val (blob3 d))
      | F_chown \<Rightarrow> is_bytes (b_val (blob3 d))
      | F_utimes \<Rightarrow> is_bytes (b_val (blob3 d))
      | F_mkdir \<Rightarrow> f_data d \<noteq> None \<and> is_words (b_val (blob0 d)) \<and> is_bytes (b_val (blob1 d))
      | F_mknod \<Rightarrow> f_data d \<noteq> None \<and> is_words (b_val (blob0 d)) \<and> is_bytes (b_val (blob1 d))
      | F_remove \<Rightarrow> f_data d \<noteq> None
      | F_open \<Rightarrow> f_data d \<noteq> None
      | F_lookup_readlink \<Rightarrow> f_data d \<noteq> None
      | F_symlink \<Rightarrow> f_data d \<noteq> None \<and> (\<exists>t. b_val (blob0 d) = B_str t)
      | F_link \<Rightarrow> f_data d \<noteq> None \<and> (\<exists>n. b_val (blob0 d) = B_fh n \<and> nfhs s n \<noteq> None)
      | F_rename \<Rightarrow> f_data d \<noteq> None \<and> (\<exists>n. b_val (blob0 d) = B_fh n \<and> nfhs s n \<noteq> None) \<and>
                     (\<exists>t. b_val (blob1 d) = B_str t)
      | F_readdir \<Rightarrow> is_bytes (b_val (blob2 d)))"

definition filler_len :: "op_filler \<Rightarrow> nat" where
  "filler_len f =
     (case f of F_open \<Rightarrow> 3 | F_lookup_readlink \<Rightarrow> 2 | F_link \<Rightarrow> 3 | F_rename \<Rightarrow> 3 | F_readdir \<Rightarrow> 2 | _ \<Rightarrow> 1)"

text \<open>An open that follows links and, if it has more to do with the file, has the attributes for it.\<close>

definition opens :: "nfs4_cb_data \<Rightarrow> bool" where
  "opens d \<longleftrightarrow> f_flags d AND O_NOFOLLOW = 0 \<and> \<not> LOOKUP_FLAG_NO_FOLLOW d \<and>
     (case d_open_cb d of
        None \<Rightarrow> True
      | Some c \<Rightarrow> c \<in> {Open_truncate, Open_chmod, Truncate_open} \<and> is_bytes (b_val (blob3 d)))"

text \<open>What the function that goes on after the lookup reads.\<close>

definition goes_on :: "cont \<Rightarrow> nfs4_cb_data \<Rightarrow> nfs_context_internal \<Rightarrow> bool" where
  "goes_on c d ni =
     (if c \<in> {Mount_4, Chdir_1, Xstat64, Mkdir, Remove, Symlink, Readlink, Link_2, Rename_2, Mknod, Chmod,
               Chown, Access, Utimes} then True
      else if c = Link_1 then f_data d \<noteq> None \<and> (\<exists>p. b_val (blob1 d) = B_str p \<and> names ni p)
      else if c = Rename_1 then f_data d \<noteq> None \<and> (\<exists>p. b_val (blob2 d) = B_str p \<and> names ni p)
      else if c = Opendir then (\<exists>ds. b_val (blob1 d) = B_dir ds) \<and> is_bytes (b_val (blob2 d))
      else if c = Open then f_data d \<noteq> None \<and> opens d
      else if c = Open_readlink then opens d
      else False)"

text \<open>A request whose path is being looked up, with the components of that path.\<close>

definition looks :: "nfs4_cb_data \<Rightarrow> string list \<Rightarrow> n4st \<Rightarrow> bool" where
  "looks d cs s \<longleftrightarrow>
     (\<exists>p f c. d_path d = Some p \<and> canon p cs \<and> f_func d = Some f \<and> filler_ok f d s \<and>
        filler_len f \<le> f_max_op d \<and> d_continue_cb d = Some c \<and> goes_on c d (nfsi s) \<and>
        (f = F_open \<longrightarrow> c = Open) \<and> (f = F_lookup_readlink \<longrightarrow> c = Open_readlink))"

text \<open>What a filler appends: at most as many operations as there is room for, an open or a lookup only
  where one is expected.\<close>

definition appended :: "op_filler \<Rightarrow> nfs_argop4 list \<Rightarrow> bool" where
  "appended f xs \<longleftrightarrow> length xs \<le> filler_len f \<and> (OP_OPEN \<in> set (map argop xs) \<longrightarrow> f = F_open) \<and>
     (if f = F_lookup_readlink then map argop xs = [OP_LOOKUP, OP_READLINK] else OP_LOOKUP \<notin> set (map argop xs))"

definition lookup_shape :: "nfs_argop4 list \<Rightarrow> nfs4_cb_data \<Rightarrow> string list \<Rightarrow> bool" where
  "lookup_shape ops d cs \<longleftrightarrow>
     (\<exists>st more f. ops = st # map A_LOOKUP cs @ A_GETATTR standard_attributes # more \<and>
        argop st \<notin> {OP_OPEN, OP_LOOKUP, OP_GETATTR} \<and> f_func d = Some f \<and> appended f more)"

text \<open>What the request is like while a compound is with the server.\<close>

definition awaits :: "cont \<Rightarrow> nfs_argop4 list \<Rightarrow> nfs4_cb_data \<Rightarrow> n4st \<Rightarrow> bool" where
  "awaits c ops d s =
     (if c = Lookup_1 then \<exists>cs. looks d cs s \<and> lookup_shape ops d cs
      else if c = Lookup_2 then
        \<exists>cs. looks d cs s \<and> unat (link_idx d) \<le> length cs
      else if c = Mount_2 then (\<exists>v n. ops = [A_SETCLIENTID v n]) \<and> (\<exists>p. d_path d = Some p \<and> names (nfsi s) p)
      else if c = Mount_1 \<or> c = Mount_3 then \<exists>p. d_path d = Some p \<and> names (nfsi s) p
      else if c \<in> {Open_setattr, Open_confirm, Close, Truncate_close, Pread, Pwrite, Lseek, Lockf, Fcntl} then
        (\<exists>n. b_val (blob0 d) = B_fh n) \<and> (c = Open_confirm \<longrightarrow> opens d) \<and> (c = Lseek \<longrightarrow> is_bytes (b_val (blob1 d)))
      else if c = Opendir_2 then
        (\<exists>n. b_val (blob0 d) = B_fh n) \<and> (\<exists>ds. b_val (blob1 d) = B_dir ds) \<and> is_bytes (b_val (blob2 d))
      else c \<in> {Xstat64, Fsync, Statvfs})"

definition ready :: "cont \<Rightarrow> nfs_argop4 list \<Rightarrow> n4st \<Rightarrow> bool" where
  "ready c ops s \<longleftrightarrow> (\<exists>d. live d s \<and> awaits c ops d s)"

text \<open>The function a message waits for, and the operations in it.\<close>

definition waits :: "msg \<Rightarrow> cont \<times> nfs_argop4 list" where
  "waits m = (case m of Compound c ops \<Rightarrow> (c, ops) | Connect _ _ c \<Rightarrow> (c, []))"

definition pending :: "(int \<times> cbarg) list \<Rightarrow> msg list \<Rightarrow> n4st \<Rightarrow> bool" where
  "pending cs ms s \<longleftrightarrow>
     calls s = cs \<and> (\<exists>m. sent s = ms @ [m] \<and> (case waits m of (c, ops) \<Rightarrow> ready c ops s))"

definition outcome :: "(int \<times> cbarg) list \<Rightarrow> msg list \<Rightarrow> n4st \<Rightarrow> bool" where
  "outcome cs ms s \<longleftrightarrow> ended cs ms s \<or> pending cs ms s"

section \<open>Memory suffices\<close>

definition memory :: "n4world \<Rightarrow> bool" where
  "memory W \<longleftrightarrow> (\<forall>n. w_alloc W n)"

lemma alloc_ok: "memory W \<Longrightarrow> alloc W s = (True, s\<lparr>nalloc := nalloc s + 1\<rparr>)"
  by (simp add: alloc_def memory_def)

lemma resolve_ok:
  assumes "memory W" "names (nfsi s) p" "sane (nfsi s)"
  shows "nfs4_resolve_path W p s = Some (None, s\<lparr>nalloc := nalloc s + 1\<rparr>) \<or>
         (\<exists>q cs. nfs4_resolve_path W p s = Some (Some q, s\<lparr>nalloc := nalloc s + 1\<rparr>) \<and> canon q cs)"
proof -
  let ?p = "absolute (ni_cwd (nfsi s)) p"
  have z: "CHR 0x00 \<notin> set ?p" using assms(2,3)
    by (auto simp: names_def sane_def absolute_def canon_def proper_def render_def split: if_splits)
  obtain r where r: "nfs_normalize_path ?p = Some r" using normalize_not_faulty by blast
  have e: "nfs4_resolve_path W p s = (case r of Inl _ \<Rightarrow> Some (None, s\<lparr>nalloc := nalloc s + 1\<rparr>) | Inr q \<Rightarrow> Some (Some q, s\<lparr>nalloc := nalloc s + 1\<rparr>))"
    using r by (cases r) (auto simp: nfs4_resolve_path_def alloc_ok [OF assms(1)] absolute_def Let_def)
  show ?thesis
  proof (cases r)
    case (Inr q)
    then have "q \<noteq> []" using assms(2) r by (auto simp: names_def)
    then show ?thesis using normalize_canon [OF _ z, of q] r Inr e by auto
  qed (use e in simp)
qed

text \<open>The paths a lookup is started with: the empty string, which stands for the working directory, and
  canonical paths.\<close>

lemma canon_absolute: "canon p cs \<Longrightarrow> p \<noteq> [] \<and> hd p = SLASH \<and> CHR 0x00 \<notin> set p"
  by (cases cs) (auto simp: canon_def proper_def render_def)

lemma names_canon: "canon p cs \<Longrightarrow> names ni p"
  using canon_normalize [of p cs] canon_absolute [of p cs] by (simp add: names_def absolute_def)

lemma names_empty: "canon (ni_cwd ni) cs \<Longrightarrow> names ni []"
proof -
  assume c: "canon (ni_cwd ni) cs"
  have "last (comps (ni_cwd ni @ ''/'')) = []" by (simp add: comps_slash)
  then have "nfs_normalize_path (ni_cwd ni @ ''/'') \<noteq> Some (Inr [])"
    using normalize_nonempty by blast
  then show ?thesis by (simp add: names_def absolute_def)
qed

section \<open>Fillers and lookups\<close>

lemma is_bytesE: "is_bytes v \<Longrightarrow> \<exists>bs. v = B_bytes bs" and is_wordsE: "is_words v \<Longrightarrow> \<exists>ws. v = B_words ws"
  by (cases v; simp)+

lemma excl_always: "w OR O_EXCL \<noteq> 0"
proof
  assume "w OR O_EXCL = 0"
  then have "bit (w OR O_EXCL) 7 = bit (0 :: u32) 7" by simp
  then show False by (simp add: bit_or_iff)
qed

lemma populate_open_ok:
  assumes "f_data d = Some name"
  shows "\<exists>a sd. nfs4_populate_open W d s =
     Some ([A_ACCESS (open_access_mask (f_flags d)), A_OPEN a, A_GETFH], s\<lparr>seed := sd\<rparr>)"
proof (cases "f_flags d AND O_CREAT = 0")
  case True
  show ?thesis by (rule exI, rule exI [of _ "seed s"]) (use assms True in \<open>simp add: nfs4_populate_open_def nfs4_op_defs Let_def\<close>)
next
  case False
  obtain v sd where v: "nfs4_init_random_verifier W s = (v, s\<lparr>seed := sd\<rparr>)"
    by (simp add: nfs4_init_random_verifier_def Let_def)
  show ?thesis
    by (rule exI, rule exI [of _ sd]) (use assms False v in \<open>simp add: nfs4_populate_open_def nfs4_op_defs Let_def excl_always\<close>)
qed

lemma populate_ok:
  assumes "filler_ok f d s" "cbd s = Some d"
  shows "\<exists>more d' sd. populate W f d s = Some (more, s\<lparr>cbd := Some d', seed := sd\<rparr>) \<and>
           appended f more \<and>
           (d' = d \<or> is_bytes (b_val (blob1 d)) \<and>
              (\<exists>bs. d' = d\<lparr>blob1 := (blob1 d)\<lparr>b_val := B_bytes bs\<rparr>\<rparr>))"
proof -
  have same: "s\<lparr>cbd := Some d, seed := sd\<rparr> = s\<lparr>seed := sd\<rparr>" for sd using assms(2) by (cases s) simp
  note defs = populate_def nfs4_op_defs filler_ok_def appended_def filler_len_def blob_bytes_def blob_mask_def blob_vals_def blob_fh_def
  have pure: ?thesis if "\<exists>more. populate W f d s = Some (more, s) \<and> appended f more"
  proof -
    from that obtain more where "populate W f d s = Some (more, s)" "appended f more" by blast
    then show ?thesis by (intro exI [of _ more] exI [of _ d] exI [of _ "seed s"]) (simp add: same)
  qed
  show ?thesis
  proof (cases f)
    case F_open
    then obtain name where n: "f_data d = Some name" using assms(1) by (auto simp: filler_ok_def)
    obtain a sd where "nfs4_populate_open W d s = Some ([A_ACCESS (open_access_mask (f_flags d)), A_OPEN a, A_GETFH], s\<lparr>seed := sd\<rparr>)"
      using populate_open_ok [OF n] by blast
    then show ?thesis
      by (intro exI [of _ "[A_ACCESS (open_access_mask (f_flags d)), A_OPEN a, A_GETFH]"] exI [of _ d] exI [of _ sd])
         (simp add: F_open populate_def same filler_len_def appended_def)
  next
    case F_mknod
    then obtain name ws bs where n: "f_data d = Some name" "b_val (blob0 d) = B_words ws" "b_val (blob1 d) = B_bytes bs"
      using assms(1) is_bytesE is_wordsE by (fastforce simp: filler_ok_def)
    let ?b = "B_bytes (enc32 ((of_le bs :: u32) AND NOT S_IFMT))"
    have one: "\<exists>a. nfs4_op_create nm ty mk vl lk dv = [a] \<and> argop a \<notin> {OP_OPEN, OP_LOOKUP}" for nm ty mk vl lk dv
      by (simp add: nfs4_op_create_def)
    have "\<exists>a. populate W f d s = Some ([a], s\<lparr>cbd := Some (d\<lparr>blob1 := (blob1 d)\<lparr>b_val := ?b\<rparr>\<rparr>)\<rparr>) \<and> argop a \<notin> {OP_OPEN, OP_LOOKUP}"
      using one by (simp add: F_mknod n populate_def nfs4_populate_mknod_def Let_def blob_bytes_def blob_mask_def blob_vals_def)
    then obtain a where "populate W f d s = Some ([a], s\<lparr>cbd := Some (d\<lparr>blob1 := (blob1 d)\<lparr>b_val := ?b\<rparr>\<rparr>)\<rparr>)" "argop a \<notin> {OP_OPEN, OP_LOOKUP}"
      by blast
    then show ?thesis
      by (intro exI [of _ "[a]"] exI [of _ "d\<lparr>blob1 := (blob1 d)\<lparr>b_val := ?b\<rparr>\<rparr>"] exI [of _ "seed s"])
         (use n in \<open>auto simp: F_mknod filler_len_def appended_def\<close>)
  qed (rule pure; use assms in \<open>auto simp: defs nfs4_populate_getfh_def nfs4_populate_getattr_def
      nfs4_populate_access_def nfs4_populate_mkdir_def nfs4_populate_remove_def nfs4_populate_lookup_readlink_def
      nfs4_populate_symlink_def nfs4_populate_readlink_def nfs4_populate_link_def nfs4_populate_rename_def
      nfs4_populate_readdir_def nfs4_populate_chmod_def nfs4_populate_chown_def nfs4_populate_utimes_def
      dest!: is_bytesE is_wordsE\<close>)+
qed

text \<open>The predicates look at some members only.\<close>

lemma filler_ok_cong:
  "f_data d' = f_data d \<Longrightarrow> b_val (blob0 d') = b_val (blob0 d) \<Longrightarrow> b_val (blob1 d') = b_val (blob1 d) \<Longrightarrow>
   b_val (blob2 d') = b_val (blob2 d) \<Longrightarrow> b_val (blob3 d') = b_val (blob3 d) \<Longrightarrow> nfhs s' = nfhs s \<Longrightarrow>
   filler_ok f d' s' = filler_ok f d s"
  by (cases f) (simp_all add: filler_ok_def)

lemma goes_on_cong:
  "f_data d' = f_data d \<Longrightarrow> f_flags d' = f_flags d \<Longrightarrow> d_open_cb d' = d_open_cb d \<Longrightarrow>
   LOOKUP_FLAG_NO_FOLLOW d' = LOOKUP_FLAG_NO_FOLLOW d \<Longrightarrow> b_val (blob1 d') = b_val (blob1 d) \<Longrightarrow> b_val (blob2 d') = b_val (blob2 d) \<Longrightarrow> b_val (blob3 d') = b_val (blob3 d) \<Longrightarrow>
   goes_on c d' ni = goes_on c d ni"
  by (simp add: goes_on_def opens_def cong: option.case_cong)

lemma freeable_cong:
  "b_val (blob0 d') = b_val (blob0 d) \<Longrightarrow> b_val (blob1 d') = b_val (blob1 d) \<Longrightarrow>
   b_val (blob2 d') = b_val (blob2 d) \<Longrightarrow> b_val (blob3 d') = b_val (blob3 d) \<Longrightarrow> nfhs s' = nfhs s \<Longrightarrow>
   freeable d' s' = freeable d s"
  by (simp add: freeable_def no_fh_def)

text \<open>Overwriting the bytes in \<open>blob1\<close> changes nothing of this.\<close>

lemma rewrite_bytes:
  assumes "is_bytes (b_val (blob1 d))" "d' = d\<lparr>blob1 := (blob1 d)\<lparr>b_val := B_bytes bs\<rparr>\<rparr>"
  shows "filler_ok f d' s = filler_ok f d s" "goes_on c d' ni = goes_on c d ni" "freeable d' s = freeable d s"
proof -
  obtain b where "b_val (blob1 d) = B_bytes b" using is_bytesE [OF assms(1)] by blast
  then show "filler_ok f d' s = filler_ok f d s" "goes_on c d' ni = goes_on c d ni" "freeable d' s = freeable d s"
    unfolding assms(2) by (simp_all add: filler_ok_def goes_on_def opens_def freeable_def no_fh_def split: op_filler.split cong: option.case_cong)
qed

lemma allocate_canon:
  assumes "canon q cs" "rootfh_ok ni"
  shows "\<exists>room. nfs4_allocate_op ni q extra =
     Some (start_op ni # map A_LOOKUP cs @ [A_GETATTR standard_attributes], room) \<and> length cs + 2 + extra \<le> room"
proof (cases "cs = []")
  case True
  then show ?thesis using assms by (simp add: canon_def nfs4_allocate_op_root)
next
  case False
  then have "nfs4_allocate_op ni (render cs) extra =
      Some (start_op ni # map A_LOOKUP cs @ [A_GETATTR standard_attributes], 2 + 2 * length cs + extra)"
    using assms by (intro nfs4_allocate_op_render) (auto simp: canon_def proper_def plain_def)
  then show ?thesis using assms(1) False by (simp add: canon_def)
qed

lemma compound_cases:
  "(\<exists>rc. rc \<noteq> 0 \<and> rpc_nfs4_compound_async W c ops s = (rc, s\<lparr>nqueue := nqueue s + 1\<rparr>)) \<or>
   rpc_nfs4_compound_async W c ops s = (0, s\<lparr>nqueue := nqueue s + 1, sent := sent s @ [Compound c ops]\<rparr>)"
  by (auto simp: rpc_nfs4_compound_async_def rpc_nfs4_compound_async2_def Let_def)

lemma start_op_num: "argop (start_op ni) \<notin> {OP_OPEN, OP_LOOKUP, OP_GETATTR}"
  by (simp add: start_op_def)

lemma lookup_ok:
  assumes mem: "memory W" and live: "live d s"
    and p: "d_path d = Some p" "names (nfsi s) p"
    and f: "f_func d = Some f" "filler_ok f d s" "filler_len f \<le> f_max_op d" "f = F_open \<longrightarrow> c = Open" "f = F_lookup_readlink \<longrightarrow> c = Open_readlink"
    and c: "goes_on c d (nfsi s)"
  shows "\<exists>rc s'. nfs4_lookup_path_async W c s = Some (rc, s') \<and> calls s' = calls s \<and>
     (rc < 0 \<and> sent s' = sent s \<and> (\<exists>d'. live d' s') \<or> rc = 0 \<and> pending (calls s) (sent s) s')"
proof -
  have d: "cbd s = Some d" "freeable d s" and sane: "sane (nfsi s)" using live by (simp_all add: live_def)
  show ?thesis using resolve_ok [OF mem p(2) sane]
  proof
  assume "nfs4_resolve_path W p s = Some (None, s\<lparr>nalloc := nalloc s + 1\<rparr>)"
  then have "nfs4_lookup_path_async W c s = Some (-1, s\<lparr>nalloc := nalloc s + 1\<rparr>)"
    by (simp add: nfs4_lookup_path_async_def d p)
  then show ?thesis using d sane by (auto simp: freeable_def live_def)
  next
  assume "\<exists>q cs. nfs4_resolve_path W p s = Some (Some q, s\<lparr>nalloc := nalloc s + 1\<rparr>) \<and> canon q cs"
  then obtain q cs where q: "nfs4_resolve_path W p s = Some (Some q, s\<lparr>nalloc := nalloc s + 1\<rparr>)" "canon q cs" by blast
  define d1 where "d1 = d\<lparr>d_path := Some q\<rparr>"
  define s1 where "s1 = s\<lparr>cbd := Some d1, nalloc := Suc (Suc (Suc (nalloc s)))\<rparr>"
  have same: "nfhs s1 = nfhs s" "nfsi s1 = nfsi s" "cbd s1 = Some d1" "f_func d1 = Some f" by (simp_all add: s1_def d1_def f)
  have "filler_ok f d1 s1 = filler_ok f d s" "freeable d1 s1 = freeable d s" "goes_on c d1 (nfsi s1) = goes_on c d (nfsi s)"
    unfolding same(2) by (rule filler_ok_cong freeable_cong goes_on_cong; simp add: d1_def same)+
  then have fo: "filler_ok f d1 s1" "freeable d1 s1" "goes_on c d1 (nfsi s1)" using f(2) d(2) c by simp_all
  obtain room where room: "nfs4_allocate_op (nfsi s1) q (f_max_op d1) =
      Some (start_op (nfsi s1) # map A_LOOKUP cs @ [A_GETATTR standard_attributes], room)" "length cs + 2 + f_max_op d1 \<le> room"
    using allocate_canon [OF q(2)] sane by (auto simp: sane_def s1_def)
  obtain more d2 sd where m: "populate W f d1 s1 = Some (more, s1\<lparr>cbd := Some d2, seed := sd\<rparr>)"
    "appended f more"
    and d2: "d2 = d1 \<or> is_bytes (b_val (blob1 d1)) \<and> (\<exists>bs. d2 = d1\<lparr>blob1 := (blob1 d1)\<lparr>b_val := B_bytes bs\<rparr>\<rparr>)"
    using populate_ok [OF fo(1) same(3), of W] by blast
  define ops where "ops = (start_op (nfsi s1) # map A_LOOKUP cs @ [A_GETATTR standard_attributes]) @ more"
  have len: "length more \<le> filler_len f" using m(2) by (simp add: appended_def)
  define d3 where "d3 = d2\<lparr>d_continue_cb := Some c\<rparr>"
  define s2 where "s2 = s1\<lparr>cbd := Some d3, seed := sd\<rparr>"
  have "filler_ok f d2 s1" "freeable d2 s1" "goes_on c d2 (nfsi s1)" using d2 fo rewrite_bytes by metis+
  moreover have "filler_ok f d3 s2 = filler_ok f d2 s1" "freeable d3 s2 = freeable d2 s1"
    "goes_on c d3 (nfsi s2) = goes_on c d2 (nfsi s2)"
    by (rule filler_ok_cong freeable_cong goes_on_cong; simp add: d3_def s2_def)+
  moreover have "nfsi s2 = nfsi s1" by (simp add: s2_def)
  ultimately have fo3: "filler_ok f d3 s2" "freeable d3 s2" "goes_on c d3 (nfsi s2)" by simp_all
  have keep: "d_path d3 = Some q" "f_func d3 = Some f" "f_max_op d3 = f_max_op d" "d_continue_cb d3 = Some c"
    using d2 f by (auto simp: d1_def d3_def)
  have fits: "\<not> room < length (start_op (nfsi s1) # map A_LOOKUP cs @ [A_GETATTR standard_attributes]) + length more"
    using room(2) len f(3) by (simp add: d1_def)
  have s2: "s1\<lparr>seed := sd, cbd := Some d3\<rparr> = s2" by (simp add: s2_def)
  have step: "nfs4_lookup_path_async W c s =
      (let (rc, s') = rpc_nfs4_compound_async W Lookup_1 ops s2 in Some (if rc \<noteq> 0 then -1 else 0, s'))"
    using fits room(1) unfolding same(2)
    by (simp add: nfs4_lookup_path_async_def d p q(1) upd_def alloc_ok [OF mem] d1_def [symmetric] s1_def [symmetric]
        same m(1) s2 ops_def d3_def [symmetric])
  have base: "calls s2 = calls s" "sent s2 = sent s" "nfsi s2 = nfsi s" "cbd s2 = Some d3" by (simp_all add: s2_def s1_def)
  have op: "lookup_shape ops d3 cs"
    unfolding lookup_shape_def ops_def using m(2) keep(2) start_op_num by auto
  have look: "looks d3 cs s2" unfolding looks_def using keep q(2) fo3 f(3,4,5) by auto
  show ?thesis
    using compound_cases [of W Lookup_1 ops s2]
  proof
    assume "\<exists>rc. rc \<noteq> 0 \<and> rpc_nfs4_compound_async W Lookup_1 ops s2 = (rc, s2\<lparr>nqueue := nqueue s2 + 1\<rparr>)"
    then show ?thesis using step base fo3(2) sane by (auto simp: freeable_def live_def)
  next
    assume r: "rpc_nfs4_compound_async W Lookup_1 ops s2 = (0, s2\<lparr>nqueue := nqueue s2 + 1, sent := sent s2 @ [Compound Lookup_1 ops]\<rparr>)"
    have "filler_ok g d3 (s2\<lparr>nqueue := n, sent := ms\<rparr>) = filler_ok g d3 s2" for g n ms by (rule filler_ok_cong) simp_all
    then have "looks d3 cs (s2\<lparr>nqueue := n, sent := ms\<rparr>)" for n ms using look by (simp add: looks_def)
    then have "pending (calls s) (sent s) (s2\<lparr>nqueue := nqueue s2 + 1, sent := sent s2 @ [Compound Lookup_1 ops]\<rparr>)"
      using base fo3(2) sane op by (auto simp: pending_def waits_def ready_def awaits_def freeable_def live_def)
    then show ?thesis using step r base by simp
  qed
  qed
qed

end
