(* ===== verification/Rpc.thy ===== *)
theory Rpc
  imports Nfs3_Attr
begin

text \<open>
  The calls to the server: nfs3/hsi_nfs3_mount.c (opening, closing, reconnecting a client handle and
  \<open>hsi_nfs3_clnt_call\<close> with its retries) and the error tables of nfs3/hsi_nfs3_unlink.c.

  The RPC library is not part of the sources.  It is the record \<open>rpclib\<close> of functions on an abstract
  environment \<open>'e\<close> (the network and the server); a procedure is a function from the handle, the arguments
  and the environment to the errno that \<open>clnt_geterr\<close> reports (\<open>Inl\<close>) or the decoded result (\<open>Inr\<close>).
  A client handle is an address; \<open>closed\<close> lists the handles that have been destroyed and not been
  allocated again, and using one of them, or \<open>NULL\<close>, is a fault.
\<close>

section \<open>State\<close>

record clnt_addr =
  sin_addr :: u32
  sin_port :: u16
  pm_prog :: u64
  pm_vers :: u64
  pm_prot :: u64
  pm_port :: u64

text \<open>The super block with the globals of hsi_nfs3_mount.c.\<close>

record 'e hsfs_st = hsfs_super +
  closed :: "u64 list"
  ssize_bak :: int
  rsize_bak :: int
  nfs_server_bak :: clnt_addr
  acl_server_bak :: clnt_addr
  env :: 'e

type_synonym ('e, 'a, 'r) proc = "u64 \<Rightarrow> 'a \<Rightarrow> 'e \<Rightarrow> (int + 'r) \<times> 'e"

record 'e rpclib =
  clntudp_bufcreate :: "clnt_addr \<Rightarrow> int \<Rightarrow> int \<Rightarrow> 'e \<Rightarrow> u64 \<times> 'e"
  clnttcp_create :: "clnt_addr \<Rightarrow> int \<Rightarrow> int \<Rightarrow> 'e \<Rightarrow> u64 \<times> 'e"
  authunix_create_default :: "'e \<Rightarrow> bool \<times> 'e"
  nullproc :: "u64 \<Rightarrow> 'e \<Rightarrow> int \<times> 'e"

abbreviation NFS_PROGRAM :: u64 where "NFS_PROGRAM \<equiv> 100003"
abbreviation NFS_ACL_PROGRAM :: u64 where "NFS_ACL_PROGRAM \<equiv> 100227"
abbreviation IPPROTO_TCP :: u64 where "IPPROTO_TCP \<equiv> 6"
abbreviation IPPROTO_UDP :: u64 where "IPPROTO_UDP \<equiv> 17"

definition clnt_live :: "'e hsfs_st \<Rightarrow> u64 \<Rightarrow> bool" where
  "clnt_live s c \<longleftrightarrow> c \<noteq> 0 \<and> c \<notin> set (closed s)"

section \<open>Error numbers\<close>

text \<open>\<open>nfs_errtbl\<close>, without the final entry that ends the search.\<close>

definition nfs_errtbl :: "(int \<times> int) list" where
  "nfs_errtbl = [(0, 0), (1, EPERM), (2, ENOENT), (5, EIO), (6, ENXIO), (13, EACCES), (17, EEXIST),
     (18, EXDEV), (19, ENODEV), (20, ENOTDIR), (21, EISDIR), (22, EINVAL), (27, EFBIG), (28, ENOSPC),
     (30, EROFS), (31, EMLINK), (63, ENAMETOOLONG), (66, ENOTEMPTY), (69, EDQUOT), (70, ESTALE),
     (71, EREMOTE)]"

definition hsi_nfs3_stat_to_errno :: "int \<Rightarrow> int" where
  "hsi_nfs3_stat_to_errno st =
     (case find (\<lambda>(nfs_err, sys_err). nfs_err = st) nfs_errtbl of
        Some (nfs_err, sys_err) \<Rightarrow> sys_err | None \<Rightarrow> EIO)"

text \<open>\<open>re_errno\<close> is what \<open>clnt_geterr\<close> reports.\<close>

definition hsi_rpc_stat_to_errno :: "int \<Rightarrow> int" where
  "hsi_rpc_stat_to_errno re_errno = (if re_errno = 0 then EIO else re_errno)"

section \<open>Handles\<close>

definition clnt_alloc :: "u64 \<Rightarrow> 'e hsfs_st \<Rightarrow> 'e hsfs_st" where
  "clnt_alloc c s = s\<lparr>closed := removeAll c (closed s)\<rparr>"

text \<open>\<open>AUTH_DESTROY\<close> and \<open>CLNT_DESTROY\<close>.\<close>

definition hsi_mnt_closeclnt :: "u64 \<Rightarrow> 'e hsfs_st \<Rightarrow> 'e hsfs_st option" where
  "hsi_mnt_closeclnt c s =
     (if clnt_live s c then Some (s\<lparr>closed := c # closed s\<rparr>) else None)"

text \<open>Returns the handle (0 on failure) and the address, whose port it sets.\<close>

definition hsi_mnt_openclnt ::
  "'e rpclib \<Rightarrow> clnt_addr \<Rightarrow> int \<Rightarrow> int \<Rightarrow> 'e hsfs_st \<Rightarrow> (u64 \<times> clnt_addr) \<times> 'e hsfs_st" where
  "hsi_mnt_openclnt lib addr sb_size rb_size s =
     (let addr = addr\<lparr>sin_port := ucast (pm_port addr)\<rparr> in
      if pm_prot addr \<noteq> IPPROTO_UDP \<and> pm_prot addr \<noteq> IPPROTO_TCP then ((0, addr), s)
      else
        let (c, e) = (if pm_prot addr = IPPROTO_UDP then clntudp_bufcreate lib addr sb_size rb_size (env s)
                      else clnttcp_create lib addr sb_size rb_size (env s));
            s = s\<lparr>env := e\<rparr>
        in if c = 0 then ((0, addr), s)
           else
             let s = clnt_alloc c s;
                 (ok, e) = authunix_create_default lib (env s);
                 s = s\<lparr>env := e\<rparr>
             in if \<not> ok then ((0, addr), s\<lparr>closed := c # closed s\<rparr>) else ((c, addr), s))"

definition hsi_nfs3_clnt_create ::
  "'e rpclib \<Rightarrow> clnt_addr \<Rightarrow> int \<Rightarrow> int \<Rightarrow> 'e hsfs_st \<Rightarrow> ((u64 \<times> clnt_addr) \<times> 'e hsfs_st) option" where
  "hsi_nfs3_clnt_create lib addr ssize rsz s =
     (let ((c, addr), s) = hsi_mnt_openclnt lib addr ssize rsz s in
      if c = 0 then Some ((0, addr), s)
      else
        let (ret, e) = nullproc lib c (env s); s = s\<lparr>env := e\<rparr>
        in if ret \<noteq> 0 then do { s \<leftarrow> hsi_mnt_closeclnt c s; Some ((0, addr), s) }
           else
             let s = s\<lparr>ssize_bak := ssize, rsize_bak := rsz\<rparr>;
                 s = (if pm_prog addr = NFS_PROGRAM then s\<lparr>nfs_server_bak := addr\<rparr>
                      else if pm_prog addr = NFS_ACL_PROGRAM then s\<lparr>acl_server_bak := addr\<rparr>
                      else s)
             in Some ((c, addr), s))"

text \<open>A handle that is neither of the two of the super block leaves \<open>addr_bak\<close> a null pointer, which
  \<open>hsi_nfs3_clnt_create\<close> follows.\<close>

definition hsi_nfs3_clnt_reconnect :: "'e rpclib \<Rightarrow> u64 \<Rightarrow> 'e hsfs_st \<Rightarrow> (u64 \<times> 'e hsfs_st) option" where
  "hsi_nfs3_clnt_reconnect lib clnt s =
     (if clnt = clntp s then do {
        s \<leftarrow> hsi_mnt_closeclnt clnt s;
        ((c, addr), s) \<leftarrow> hsi_nfs3_clnt_create lib (nfs_server_bak s) (ssize_bak s) (ssize_bak s) s;
        let s = s\<lparr>nfs_server_bak := addr\<rparr>;
        Some (c, if c \<noteq> 0 then s\<lparr>clntp := c\<rparr> else s) }
      else if acl_clntp s \<noteq> 0 \<and> clnt = acl_clntp s then do {
        s \<leftarrow> hsi_mnt_closeclnt clnt s;
        ((c, addr), s) \<leftarrow> hsi_nfs3_clnt_create lib (acl_server_bak s) (ssize_bak s) (ssize_bak s) s;
        let s = s\<lparr>acl_server_bak := addr\<rparr>;
        Some (c, if c \<noteq> 0 then s\<lparr>acl_clntp := c\<rparr> else s) }
      else None)"

section \<open>Calling\<close>

definition clnt_call :: "('e, 'a, 'r) proc \<Rightarrow> u64 \<Rightarrow> 'a \<Rightarrow> 'e hsfs_st \<Rightarrow> ((int + 'r) \<times> 'e hsfs_st) option" where
  "clnt_call proc clnt args s =
     (if clnt_live s clnt then let (r, e) = proc clnt args (env s) in Some (r, s\<lparr>env := e\<rparr>) else None)"

definition clnt_freeres :: "u64 \<Rightarrow> 'e hsfs_st \<Rightarrow> unit option" where
  "clnt_freeres clnt s = (if clnt_live s clnt then Some () else None)"

text \<open>The body of \<open>hsi_nfs3_clnt_call\<close> from the label \<open>retry\<close>.\<close>

function clnt_call_retry ::
  "'e rpclib \<Rightarrow> ('e, 'a, 'r) proc \<Rightarrow> 'a \<Rightarrow> nat \<Rightarrow> u64 \<Rightarrow> 'e hsfs_st \<Rightarrow> ((int + 'r) \<times> 'e hsfs_st) option" where
  "clnt_call_retry lib proc args rtry clnt s =
     (case clnt_call proc clnt args s of
        None \<Rightarrow> None
      | Some (Inr r, s) \<Rightarrow> Some (Inr r, s)
      | Some (Inl e, s) \<Rightarrow>
          (let ret = hsi_rpc_stat_to_errno e in
           if rtry \<ge> 5 then Some (Inl ret, s)
           else if ret = EAGAIN then clnt_call_retry lib proc args (rtry + 1) clnt s
           else if ret = ENOTCONN \<or> ret = ECONNRESET then
             (case hsi_nfs3_clnt_reconnect lib clnt s of
                None \<Rightarrow> None
              | Some (c, s) \<Rightarrow>
                  if c \<noteq> 0 then clnt_call_retry lib proc args (rtry + 1) c s
                  else Some (Inl ret, s))
           else Some (Inl ret, s)))"
  by pat_completeness auto
termination by (relation "measure (\<lambda>(lib, proc, args, rtry, clnt, s). 5 - rtry)") auto

declare clnt_call_retry.simps [simp del]

definition hsi_nfs3_clnt_call ::
  "'e rpclib \<Rightarrow> ('e, 'a, 'r) proc \<Rightarrow> u64 \<Rightarrow> 'a \<Rightarrow> 'e hsfs_st \<Rightarrow> ((int + 'r) \<times> 'e hsfs_st) option" where
  "hsi_nfs3_clnt_call lib proc clnt args s = clnt_call_retry lib proc args 0 clnt s"


section \<open>What a call keeps\<close>

text \<open>Everything but the two handles, the globals of the transport and the environment.\<close>

definition core :: "'e hsfs_st \<Rightarrow> hsfs_super" where
  "core s = (hsfs_super.truncate s)\<lparr>clntp := 0, acl_clntp := 0\<rparr>"

lemma core_sel:
  "heap (core s) = heap s" "id_table (core s) = id_table s" "fh_table (core s) = fh_table s"
  "curr_id (core s) = curr_id s" "root (core s) = root s" "bsize_bits (core s) = bsize_bits s"
  "rsize (core s) = rsize s" "wsize (core s) = wsize s"
  by (simp_all add: core_def hsfs_super.truncate_def)

lemma core_upd [simp]:
  "core (s\<lparr>env := e\<rparr>) = core s" "core (s\<lparr>closed := l\<rparr>) = core s" "core (s\<lparr>clntp := c\<rparr>) = core s"
  "core (s\<lparr>acl_clntp := c\<rparr>) = core s" "core (s\<lparr>nfs_server_bak := a\<rparr>) = core s"
  "core (s\<lparr>acl_server_bak := a\<rparr>) = core s" "core (s\<lparr>ssize_bak := n\<rparr>) = core s"
  "core (s\<lparr>rsize_bak := n\<rparr>) = core s"
  by (simp_all add: core_def hsfs_super.truncate_def)

lemma core_eqD:
  assumes "core s' = core s"
  shows "heap s' = heap s" "id_table s' = id_table s" "fh_table s' = fh_table s" "curr_id s' = curr_id s"
    "root s' = root s" "bsize_bits s' = bsize_bits s" "rsize s' = rsize s" "wsize s' = wsize s"
  using assms core_sel [of s] core_sel [of s'] by simp_all

lemma nfs_cache_ok_core: "core s' = core s \<Longrightarrow> nfs_cache_ok s' = nfs_cache_ok s"
  using core_eqD [of s' s] by (simp add: nfs_cache_ok_def icache_ok_def)

text \<open>The handle is one of the super block's and has not been destroyed.\<close>

definition nfs_handle :: "u64 \<Rightarrow> 'e hsfs_st \<Rightarrow> bool" where
  "nfs_handle c s \<longleftrightarrow> clnt_live s c \<and> (c = clntp s \<or> acl_clntp s \<noteq> 0 \<and> c = acl_clntp s)"

lemma openclnt_ok:
  assumes "hsi_mnt_openclnt lib addr m n s = ((c, addr'), s')"
  shows "core s' = core s \<and> (c \<noteq> 0 \<longrightarrow> clnt_live s' c) \<and> clntp s' = clntp s \<and> acl_clntp s' = acl_clntp s"
  using assms
  by (auto simp: hsi_mnt_openclnt_def Let_def clnt_alloc_def clnt_live_def split: if_splits prod.splits)

lemma clnt_create_ok:
  "\<exists>c addr' s'. hsi_nfs3_clnt_create lib addr m n s = Some ((c, addr'), s') \<and> core s' = core s \<and>
     (c \<noteq> 0 \<longrightarrow> clnt_live s' c) \<and> clntp s' = clntp s \<and> acl_clntp s' = acl_clntp s"
proof -
  obtain c addr' s1 where o: "hsi_mnt_openclnt lib addr m n s = ((c, addr'), s1)"
    by (metis surj_pair)
  obtain ret e where p: "nullproc lib c (env s1) = (ret, e)" by fastforce
  show ?thesis
    using openclnt_ok [OF o] o p
    by (auto simp: hsi_nfs3_clnt_create_def hsi_mnt_closeclnt_def clnt_live_def Let_def)
qed

lemma reconnect_ok:
  assumes "nfs_handle clnt s"
  shows "\<exists>c s'. hsi_nfs3_clnt_reconnect lib clnt s = Some (c, s') \<and> core s' = core s \<and>
    (c \<noteq> 0 \<longrightarrow> nfs_handle c s')"
proof (cases "clnt = clntp s")
  case True
  let ?s = "s\<lparr>closed := clnt # closed s\<rparr>"
  obtain c a s' where c: "hsi_nfs3_clnt_create lib (nfs_server_bak ?s) (ssize_bak ?s) (ssize_bak ?s) ?s = Some ((c, a), s')"
    "core s' = core ?s" "c \<noteq> 0 \<longrightarrow> clnt_live s' c"
    using clnt_create_ok [of lib "nfs_server_bak ?s" "ssize_bak ?s" "ssize_bak ?s" ?s] by blast
  then show ?thesis
    using True assms
    by (auto simp: hsi_nfs3_clnt_reconnect_def hsi_mnt_closeclnt_def nfs_handle_def clnt_live_def Let_def)
next
  case False
  let ?s = "s\<lparr>closed := clnt # closed s\<rparr>"
  obtain c a s' where c: "hsi_nfs3_clnt_create lib (acl_server_bak ?s) (ssize_bak ?s) (ssize_bak ?s) ?s = Some ((c, a), s')"
    "core s' = core ?s" "c \<noteq> 0 \<longrightarrow> clnt_live s' c"
    using clnt_create_ok [of lib "acl_server_bak ?s" "ssize_bak ?s" "ssize_bak ?s" ?s] by blast
  then show ?thesis
    using False assms
    by (auto simp: hsi_nfs3_clnt_reconnect_def hsi_mnt_closeclnt_def nfs_handle_def clnt_live_def Let_def)
qed

lemma clnt_call_live:
  "clnt_live s clnt \<Longrightarrow> \<exists>r e. clnt_call proc clnt args s = Some (r, s\<lparr>env := e\<rparr>) \<and> proc clnt args (env s) = (r, e)"
  by (auto simp: clnt_call_def split: prod.splits)

lemma nfs_handle_env [simp]: "nfs_handle c (s\<lparr>env := e\<rparr>) = nfs_handle c s"
  by (simp add: nfs_handle_def clnt_live_def)

text \<open>One round of the loop.\<close>

lemma clnt_call_retry_cases:
  assumes "clnt_call proc clnt args s = Some (r, s1)"
  shows "clnt_call_retry lib proc args rtry clnt s =
    (case r of Inr x \<Rightarrow> Some (Inr x, s1)
     | Inl n \<Rightarrow>
         let ret = hsi_rpc_stat_to_errno n in
         if rtry < 5 \<and> ret = EAGAIN then clnt_call_retry lib proc args (rtry + 1) clnt s1
         else if rtry < 5 \<and> (ret = ENOTCONN \<or> ret = ECONNRESET) then
           do { (c, s) \<leftarrow> hsi_nfs3_clnt_reconnect lib clnt s1;
                if c \<noteq> 0 then clnt_call_retry lib proc args (rtry + 1) c s else Some (Inl ret, s) }
         else Some (Inl ret, s1))"
  using assms
  by (subst clnt_call_retry.simps) (auto simp: Let_def split: sum.splits option.splits)

lemma clnt_call_retry_ok:
  assumes "nfs_handle clnt s"
  shows "\<exists>r s'. clnt_call_retry lib proc args rtry clnt s = Some (r, s') \<and> core s' = core s \<and>
    (case r of Inr x \<Rightarrow> \<exists>c. nfs_handle c s' | Inl e \<Rightarrow> e \<noteq> 0)"
  using assms
proof (induction "5 - rtry" arbitrary: rtry clnt s rule: less_induct)
  case less
  obtain r e where call: "clnt_call proc clnt args s = Some (r, s\<lparr>env := e\<rparr>)"
    using clnt_call_live [of s clnt proc args] less.prems by (auto simp: nfs_handle_def)
  note step = clnt_call_retry_cases [OF call, of lib rtry]
  show ?case
  proof (cases r)
    case (Inr x)
    then show ?thesis using less.prems by (auto simp: step)
  next
    case (Inl n)
    define ret where "ret = hsi_rpc_stat_to_errno n"
    have ret: "ret \<noteq> 0" by (simp add: ret_def hsi_rpc_stat_to_errno_def)
    obtain c s' where c: "hsi_nfs3_clnt_reconnect lib clnt (s\<lparr>env := e\<rparr>) = Some (c, s')" "core s' = core s"
      "c \<noteq> 0 \<longrightarrow> nfs_handle c s'"
      using reconnect_ok [of clnt "s\<lparr>env := e\<rparr>" lib] less.prems by auto
    show ?thesis
      using less.hyps [of "rtry + 1" clnt "s\<lparr>env := e\<rparr>"] less.hyps [of "rtry + 1" c s'] less.prems c ret
      by (cases "rtry < 5") (auto simp: step Inl Let_def simp flip: ret_def)
  qed
qed

lemma clnt_call_ok:
  assumes "nfs_handle clnt s"
  shows "\<exists>r s'. hsi_nfs3_clnt_call lib proc clnt args s = Some (r, s') \<and> core s' = core s \<and>
    (case r of Inr x \<Rightarrow> \<exists>c. nfs_handle c s' | Inl e \<Rightarrow> e \<noteq> 0)"
  unfolding hsi_nfs3_clnt_call_def by (rule clnt_call_retry_ok [OF assms])

text \<open>A reply to the first attempt.\<close>

lemma clnt_call_first:
  assumes "clnt_live s clnt" "proc clnt args (env s) = (Inr x, e)"
  shows "hsi_nfs3_clnt_call lib proc clnt args s = Some (Inr x, s\<lparr>env := e\<rparr>)"
proof -
  have "clnt_call proc clnt args s = Some (Inr x, s\<lparr>env := e\<rparr>)"
    using assms by (simp add: clnt_call_def)
  from clnt_call_retry_cases [OF this] show ?thesis by (simp add: hsi_nfs3_clnt_call_def)
qed

text \<open>A failure of the first attempt that is not retried.\<close>

lemma clnt_call_failed:
  assumes "clnt_live s clnt" "proc clnt args (env s) = (Inl n, e)"
    and "hsi_rpc_stat_to_errno n \<notin> {EAGAIN, ENOTCONN, ECONNRESET}"
  shows "hsi_nfs3_clnt_call lib proc clnt args s = Some (Inl (hsi_rpc_stat_to_errno n), s\<lparr>env := e\<rparr>)"
proof -
  have "clnt_call proc clnt args s = Some (Inl n, s\<lparr>env := e\<rparr>)"
    using assms by (simp add: clnt_call_def)
  from clnt_call_retry_cases [OF this] show ?thesis
    using assms(3) by (simp add: hsi_nfs3_clnt_call_def Let_def)
qed

text \<open>The transport keeps its connection: no attempt ends in an error that makes the client reconnect.\<close>

definition steady :: "('e, 'a, 'r) proc \<Rightarrow> bool" where
  "steady proc \<longleftrightarrow> (\<forall>c a e n. fst (proc c a e) = Inl n \<longrightarrow> n \<noteq> ENOTCONN \<and> n \<noteq> ECONNRESET)"

lemma steadyD: "steady proc \<Longrightarrow> proc c a e = (Inl n, e') \<Longrightarrow> n \<noteq> ENOTCONN \<and> n \<noteq> ECONNRESET"
  unfolding steady_def by (metis fst_conv)

lemma clnt_call_retry_steady:
  assumes "steady proc" "clnt_live s clnt"
  shows "\<exists>r e. clnt_call_retry lib proc args rtry clnt s = Some (r, s\<lparr>env := e\<rparr>) \<and> r \<noteq> Inl 0"
  using assms(2)
proof (induction "5 - rtry" arbitrary: rtry s rule: less_induct)
  case less
  obtain r e where call: "clnt_call proc clnt args s = Some (r, s\<lparr>env := e\<rparr>)" "proc clnt args (env s) = (r, e)"
    using clnt_call_live [of s clnt proc args] less.prems by auto
  note step = clnt_call_retry_cases [OF call(1), of lib rtry]
  show ?case
  proof (cases r)
    case (Inr x)
    then show ?thesis by (auto simp: step)
  next
    case (Inl n)
    define ret where "ret = hsi_rpc_stat_to_errno n"
    have "ret \<noteq> 0" "ret \<noteq> ENOTCONN" "ret \<noteq> ECONNRESET"
      using steadyD [OF assms(1), of clnt args "env s" n e] call(2) Inl
      by (simp_all add: ret_def hsi_rpc_stat_to_errno_def)
    moreover have "clnt_live (s\<lparr>env := e\<rparr>) clnt" using less.prems by (simp add: clnt_live_def)
    note facts = this calculation
    show ?thesis
    proof (cases "rtry < 5 \<and> ret = EAGAIN")
      case True
      then have "clnt_call_retry lib proc args rtry clnt s =
          clnt_call_retry lib proc args (rtry + 1) clnt (s\<lparr>env := e\<rparr>)"
        by (simp add: step Inl ret_def)
      moreover have "\<exists>r' e'. clnt_call_retry lib proc args (rtry + 1) clnt (s\<lparr>env := e\<rparr>) =
          Some (r', s\<lparr>env := e\<rparr>\<lparr>env := e'\<rparr>) \<and> r' \<noteq> Inl 0"
        by (rule less.hyps) (use True facts in auto)
      ultimately show ?thesis by simp
    next
      case False
      then have "clnt_call_retry lib proc args rtry clnt s = Some (Inl ret, s\<lparr>env := e\<rparr>)"
        using facts by (auto simp: step Inl ret_def Let_def)
      then show ?thesis using facts by blast
    qed
  qed
qed

lemma clnt_call_steady:
  assumes "steady proc" "clnt_live s clnt"
  shows "\<exists>r e. hsi_nfs3_clnt_call lib proc clnt args s = Some (r, s\<lparr>env := e\<rparr>) \<and> r \<noteq> Inl 0"
  unfolding hsi_nfs3_clnt_call_def by (rule clnt_call_retry_steady [OF assms])

section \<open>The number of attempts\<close>

text \<open>\<open>cnt\<close> is any count kept in the environment that making and destroying handles does not raise.\<close>

definition uncounted :: "('e \<Rightarrow> nat) \<Rightarrow> 'e rpclib \<Rightarrow> bool" where
  "uncounted cnt lib \<longleftrightarrow>
     (\<forall>a m n e. cnt (snd (clntudp_bufcreate lib a m n e)) \<le> cnt e) \<and>
     (\<forall>a m n e. cnt (snd (clnttcp_create lib a m n e)) \<le> cnt e) \<and>
     (\<forall>e. cnt (snd (authunix_create_default lib e)) \<le> cnt e) \<and> (\<forall>c e. cnt (snd (nullproc lib c e)) \<le> cnt e)"

lemma openclnt_uncounted:
  assumes "uncounted cnt lib" "hsi_mnt_openclnt lib addr m n s = ((c, a), s')"
  shows "cnt (env s') \<le> cnt (env s)"
proof -
  let ?a = "addr\<lparr>sin_port := ucast (pm_port addr)\<rparr>"
  let ?p = "if pm_prot addr = IPPROTO_UDP then clntudp_bufcreate lib ?a m n (env s) else clnttcp_create lib ?a m n (env s)"
  obtain c1 e1 where p: "?p = (c1, e1)" by (metis surj_pair)
  obtain ok e2 where q: "authunix_create_default lib e1 = (ok, e2)" by fastforce
  have "cnt (snd ?p) \<le> cnt (env s)" using assms(1) by (simp add: uncounted_def)
  then have 1: "cnt e1 \<le> cnt (env s)" using p by simp
  have "cnt (snd (authunix_create_default lib e1)) \<le> cnt e1" using assms(1) by (simp add: uncounted_def)
  then have "cnt e2 \<le> cnt (env s)" using 1 q by simp
  then show ?thesis
    using assms(2) 1 p q by (auto simp: hsi_mnt_openclnt_def Let_def clnt_alloc_def split: if_splits)
qed

lemma clnt_create_uncounted:
  assumes "uncounted cnt lib" "hsi_nfs3_clnt_create lib addr m n s = Some ((c, a), s')"
  shows "cnt (env s') \<le> cnt (env s)"
proof -
  obtain c1 a1 s1 where o: "hsi_mnt_openclnt lib addr m n s = ((c1, a1), s1)" by (metis surj_pair)
  obtain r e where r: "nullproc lib c1 (env s1) = (r, e)" by fastforce
  have "cnt (snd (nullproc lib c1 (env s1))) \<le> cnt (env s1)" using assms(1) by (simp add: uncounted_def)
  then have "cnt e \<le> cnt (env s)" "cnt (env s1) \<le> cnt (env s)"
    using r openclnt_uncounted [OF assms(1) o] by simp_all
  then show ?thesis
    using assms(2) o r
    by (auto simp: hsi_nfs3_clnt_create_def hsi_mnt_closeclnt_def Let_def split: if_splits)
qed

lemma reconnect_uncounted:
  assumes "uncounted cnt lib" "hsi_nfs3_clnt_reconnect lib clnt s = Some (c, s')"
  shows "cnt (env s') \<le> cnt (env s)"
  using assms(2)
  by (auto simp: hsi_nfs3_clnt_reconnect_def hsi_mnt_closeclnt_def bind_eq_Some_conv Let_def split: if_splits
      dest!: clnt_create_uncounted [OF assms(1)])

lemma clnt_call_retry_count:
  assumes "uncounted cnt lib" "\<And>c a e. cnt (snd (proc c a e)) \<le> cnt e + 1"
  shows "clnt_call_retry lib proc args rtry clnt s = Some (r, s') \<Longrightarrow> cnt (env s') \<le> cnt (env s) + 1 + (5 - rtry)"
proof (induction "5 - rtry" arbitrary: rtry clnt s rule: less_induct)
  case less
  obtain r1 s1 where call: "clnt_call proc clnt args s = Some (r1, s1)"
    using less.prems by (subst (asm) clnt_call_retry.simps) (auto split: option.splits)
  then have 1: "cnt (env s1) \<le> cnt (env s) + 1"
    using assms(2) [of clnt args "env s"] by (auto simp: clnt_call_def split: if_splits prod.splits)
  note step = clnt_call_retry_cases [OF call, of lib rtry]
  have IH: "cnt (env s') \<le> Suc (cnt (env s) + 5 - rtry)"
    if "rtry < 5" "clnt_call_retry lib proc args (Suc rtry) c s2 = Some (r, s')" "cnt (env s2) \<le> Suc (cnt (env s))" for c s2
    using less.hyps [of "Suc rtry" c s2] that by fastforce
  have rec: "cnt (env s2) \<le> cnt (env s) + 1" if "hsi_nfs3_clnt_reconnect lib clnt s1 = Some (c, s2)" for c s2
    using reconnect_uncounted [OF assms(1) that] 1 by simp
  show ?case
  proof (cases r1)
    case (Inr x)
    then show ?thesis using less.prems 1 by (simp add: step)
  next
    case (Inl n)
    show ?thesis
      using less.prems 1
      by (auto simp: step Inl Let_def bind_eq_Some_conv split: if_splits dest!: rec intro: IH)
  qed
qed

section \<open>Properties\<close>

text \<open>A super block with an empty cache and one open handle.\<close>

definition fresh_st :: "'e \<Rightarrow> 'e hsfs_st" where
  "fresh_st e = hsfs_super.extend empty_super
     (hsfs_st.fields [] 0 0 \<lparr>sin_addr = 0, sin_port = 0, pm_prog = NFS_PROGRAM, pm_vers = 3, pm_prot = IPPROTO_TCP, pm_port = 0\<rparr>
        \<lparr>sin_addr = 0, sin_port = 0, pm_prog = NFS_ACL_PROGRAM, pm_vers = 3, pm_prot = IPPROTO_TCP, pm_port = 0\<rparr> e)"

lemma fresh_st_sel [simp]:
  "heap (fresh_st e) = Map.empty" "clntp (fresh_st e) = 1" "acl_clntp (fresh_st e) = 0" "closed (fresh_st e) = []"
  "env (fresh_st e) = e" "curr_id (fresh_st e) = 0" "rsize (fresh_st e) = 4096" "wsize (fresh_st e) = 4096"
  by (simp_all add: fresh_st_def empty_super_def hsfs_super.defs hsfs_st.defs)

lemma nfs_handle_fresh [simp]: "nfs_handle 1 (fresh_st e)" "clnt_live (fresh_st e) 1"
  by (simp_all add: nfs_handle_def clnt_live_def)

lemma fresh_st_cache_ok: "nfs_cache_ok (fresh_st e)"
proof -
  have "hsfs_init_icache (fresh_st e) = fresh_st e"
    by (simp add: hsfs_init_icache_def fresh_st_def empty_super_def hsfs_super.defs)
  then show ?thesis using nfs_cache_ok_init [of "fresh_st e"] by simp
qed

text \<open>A library whose connections always succeed, giving out handles in turn.\<close>

definition calm_lib :: "nat rpclib" where
  "calm_lib = \<lparr>clntudp_bufcreate = (\<lambda>a m n e. (2, e)), clnttcp_create = (\<lambda>a m n e. (3, e)),
     authunix_create_default = (\<lambda>e. (True, e)), nullproc = (\<lambda>c e. (0, e))\<rparr>"

text \<open>A status of the server is translated to 0 exactly when it reports success, so that no failure is
  lost: the table has no other zero, a status outside the table becomes \<open>EIO\<close>, and so does an RPC failure
  without an error number.\<close>

theorem stat_to_errno_zero_iff:
  "(hsi_nfs3_stat_to_errno st = 0 \<longleftrightarrow> st = 0) \<and> hsi_rpc_stat_to_errno n \<noteq> 0 \<and>
   (st \<notin> fst ` set nfs_errtbl \<longrightarrow> hsi_nfs3_stat_to_errno st = EIO)"
  by (simp add: hsi_nfs3_stat_to_errno_def hsi_rpc_stat_to_errno_def nfs_errtbl_def)

theorem stat_to_errno_zero_iff_witness:
  "hsi_nfs3_stat_to_errno 70 \<noteq> 0 \<and> hsi_nfs3_stat_to_errno 10004 = EIO"
  using stat_to_errno_zero_iff [of 70 0] stat_to_errno_zero_iff [of 10004 0] by (simp add: nfs_errtbl_def)

text \<open>C13. A call through one of the two handles of the super block always returns: it never uses a destroyed
  handle, returns the result of the procedure or an error number that is not 0, and leaves the inode cache
  and the parameters of the mount alone.  The procedure is tried at most six times: a count in the
  environment that each try raises by at most one, and that making handles does not raise, grows by at most
  six.\<close>

theorem clnt_call_returns:
  assumes "nfs_handle clnt s" "uncounted cnt lib" "\<forall>c a e. cnt (snd (proc c a e)) \<le> cnt e + 1"
  shows "\<exists>r s'. hsi_nfs3_clnt_call lib proc clnt args s = Some (r, s') \<and> r \<noteq> Inl 0 \<and>
    cnt (env s') \<le> cnt (env s) + 6 \<and>
    heap s' = heap s \<and> id_table s' = id_table s \<and> fh_table s' = fh_table s \<and> rsize s' = rsize s \<and> wsize s' = wsize s"
proof -
  obtain r s' where r: "hsi_nfs3_clnt_call lib proc clnt args s = Some (r, s')" "core s' = core s" "r \<noteq> Inl 0"
    using clnt_call_ok [OF assms(1), of lib proc args] by fastforce
  moreover have "cnt (env s') \<le> cnt (env s) + 6"
    using clnt_call_retry_count [OF assms(2), of proc args 0] assms(3) r(1)
    by (fastforce simp: hsi_nfs3_clnt_call_def)
  ultimately show ?thesis using core_eqD [OF r(2)] by simp
qed

theorem clnt_call_returns_witness:
  "\<exists>r s'. hsi_nfs3_clnt_call calm_lib (\<lambda>c a e. (Inl ENOTCONN :: int + unit, e + 1)) 1 () (fresh_st 0) = Some (r, s') \<and>
     r \<noteq> Inl 0 \<and> env s' \<le> 6"
proof -
  have "uncounted (\<lambda>e. e) calm_lib" by (simp add: uncounted_def calm_lib_def)
  from clnt_call_returns [OF nfs_handle_fresh(1) this, of "\<lambda>c a e. (Inl ENOTCONN, e + 1)" "()" 0]
  show ?thesis by auto
qed

end
