(* ===== verification/Blocks.thy ===== *)
theory Blocks
  imports Bitops
begin

text \<open>
  The block sizes of nfs3/hsi_nfs3_mount.c: \<open>hsfs_block_bits\<close> rounds down to a power of two,
  \<open>hsfs_block_size\<close> clamps first.
\<close>

abbreviation HSFS_MAX_FILE_IO_SIZE :: u64 where "HSFS_MAX_FILE_IO_SIZE \<equiv> 1048576"
abbreviation HSFS_DEF_FILE_IO_SIZE :: u64 where "HSFS_DEF_FILE_IO_SIZE \<equiv> 4096"
abbreviation HSFS_MIN_FILE_IO_SIZE :: u64 where "HSFS_MIN_FILE_IO_SIZE \<equiv> 1024"

text \<open>\<open>1 << n\<close> as an \<open>int\<close> widened to \<open>unsigned long\<close>: the sign bit is extended.\<close>

definition int_bit :: "nat \<Rightarrow> u64" where
  "int_bit n = (if n = 31 then 0xFFFFFFFF80000000 else push_bit n 1)"

fun top_bit :: "nat \<Rightarrow> u64 \<Rightarrow> nat" where
  "top_bit 0 bsz = 0"
| "top_bit (Suc n) bsz = (if bsz AND int_bit (Suc n) \<noteq> 0 then Suc n else top_bit n bsz)"

text \<open>\<open>want\<close>: whether the caller passes a place for the number of bits.\<close>

definition hsfs_block_bits :: "u64 \<Rightarrow> bool \<Rightarrow> u64 \<times> nat option" where
  "hsfs_block_bits bsz want =
     (if bsz AND (bsz - 1) \<noteq> 0 \<or> want
      then let nrbits = top_bit 31 bsz in (int_bit nrbits, if want then Some nrbits else None)
      else (bsz, None))"

definition hsfs_block_size :: "u64 \<Rightarrow> bool \<Rightarrow> u64 \<times> nat option" where
  "hsfs_block_size bsz want =
     (let bsz = (if bsz < HSFS_MIN_FILE_IO_SIZE then HSFS_DEF_FILE_IO_SIZE
                 else if bsz \<ge> HSFS_MAX_FILE_IO_SIZE then HSFS_MAX_FILE_IO_SIZE else bsz)
      in hsfs_block_bits bsz want)"

section \<open>Lemmas\<close>

lemma and_int_bit: "n < 31 \<Longrightarrow> (bsz AND int_bit n \<noteq> 0) = bit bsz n"
  by (auto simp: int_bit_def bit_iff_and_push_bit_not_eq_0)

lemma top_bit_spec:
  assumes "bsz \<noteq> 0" "\<And>k. n < k \<Longrightarrow> \<not> bit bsz k" "n < 31"
  shows "bit bsz (top_bit n bsz) \<and> (\<forall>k. top_bit n bsz < k \<longrightarrow> \<not> bit bsz k) \<and> top_bit n bsz \<le> n"
  using assms
proof (induction n)
  case 0
  then obtain k where "bit bsz k" by (auto simp: word_eq_0_iff_no_bits)
  then have "k = 0" using "0.prems"(2) [of k] by auto
  then show ?case using \<open>bit bsz k\<close> "0.prems"(2) by simp
next
  case (Suc n)
  show ?case
  proof (cases "bit bsz (Suc n)")
    case True
    then show ?thesis using Suc.prems by (simp add: and_int_bit)
  next
    case False
    have "\<not> bit bsz k" if "n < k" for k
      using False Suc.prems(2) [of k] that by (cases "k = Suc n") auto
    then show ?thesis using False Suc by (simp add: and_int_bit)
  qed
qed

lemma bit_small: "unat (w :: u64) < 2 ^ n \<Longrightarrow> n \<le> k \<Longrightarrow> \<not> bit w k"
proof -
  assume "unat w < 2 ^ n" "n \<le> k"
  then have "take_bit n (unat w) = unat w" by (simp add: take_bit_nat_eq_self)
  then have "take_bit n w = w" by (simp add: word_unat_eq_iff unsigned_take_bit_eq)
  then show ?thesis using \<open>n \<le> k\<close> by (metis bit_take_bit_iff not_less)
qed

lemma hsfs_block_bits_spec:
  assumes "bsz \<noteq> 0" "unat bsz < 2 ^ 31"
  shows "unat (fst (hsfs_block_bits bsz True)) = 2 ^ top_bit 31 bsz"
    "2 ^ top_bit 31 bsz \<le> unat bsz" "unat bsz < 2 ^ (top_bit 31 bsz + 1)" "top_bit 31 bsz \<le> 30"
proof -
  have no31: "\<not> bit bsz k" if "31 \<le> k" for k by (rule bit_small [OF assms(2) that])
  have "bsz AND int_bit 31 = 0"
  proof (rule bit_word_eqI)
    fix n :: nat
    have "int_bit 31 = push_bit 31 (mask 33)"
      by (simp add: int_bit_def mask_eq_exp_minus_1 push_bit_eq_mult)
    then show "bit (bsz AND int_bit 31) n = bit 0 n"
      using no31 by (auto simp: bit_and_iff bit_push_bit_iff)
  qed
  then have t: "top_bit 31 bsz = top_bit 30 bsz" by (subst numeral_eq_Suc, subst top_bit.simps) simp
  have "\<not> bit bsz k" if "30 < k" for k using no31 that by simp
  from top_bit_spec [OF assms(1) this] have tb: "bit bsz (top_bit 30 bsz)"
    "\<forall>k. top_bit 30 bsz < k \<longrightarrow> \<not> bit bsz k" "top_bit 30 bsz \<le> 30" by auto
  from bit_top_bounds [OF tb(1)] tb(2)
  show "2 ^ top_bit 31 bsz \<le> unat bsz" "unat bsz < 2 ^ (top_bit 31 bsz + 1)" by (auto simp: t)
  show "top_bit 31 bsz \<le> 30" using tb(3) t by simp
  then show "unat (fst (hsfs_block_bits bsz True)) = 2 ^ top_bit 31 bsz"
    by (simp add: hsfs_block_bits_def int_bit_def Let_def unat_pow2)
qed

text \<open>Where the caller does not ask for the bits, a power of two is returned as it is.\<close>

lemma hsfs_block_bits_want:
  assumes "bsz \<noteq> 0" "unat bsz < 2 ^ 31"
  shows "fst (hsfs_block_bits bsz want) = fst (hsfs_block_bits bsz True)"
proof (cases "bsz AND (bsz - 1) = 0 \<and> \<not> want")
  case True
  note sp = hsfs_block_bits_spec [OF assms]
  let ?t = "top_bit 31 bsz"
  have "unat bsz = 2 ^ ?t"
  proof (rule ccontr)
    assume "unat bsz \<noteq> 2 ^ ?t"
    then have lt: "2 ^ ?t < unat bsz" using sp(2) by simp
    have "unat (bsz - 1) = unat bsz - 1" using assms(1) by (simp add: unat_minus_one)
    then have "2 ^ ?t \<le> unat (bsz - 1)" "unat (bsz - 1) < 2 ^ (?t + 1)" using lt sp(3) by auto
    then have "bit (unat (bsz - 1)) ?t" "bit (unat bsz) ?t"
      using lt sp(3) by (auto intro: bit_nat_between)
    then have "bit (bsz AND (bsz - 1)) ?t"
      using sp(4) by (simp add: bit_and_iff bit_unsigned_iff)
    then show False using True by simp
  qed
  then show ?thesis using True sp(1) by (simp add: hsfs_block_bits_def word_unat_eq_iff)
qed (auto simp: hsfs_block_bits_def Let_def)

definition clamp :: "u64 \<Rightarrow> u64" where
  "clamp bsz = (if bsz < HSFS_MIN_FILE_IO_SIZE then HSFS_DEF_FILE_IO_SIZE
     else if bsz \<ge> HSFS_MAX_FILE_IO_SIZE then HSFS_MAX_FILE_IO_SIZE else bsz)"

lemma clamp_bounds: "clamp bsz \<noteq> 0" "1024 \<le> unat (clamp bsz)" "unat (clamp bsz) \<le> 1048576"
  by (auto simp: clamp_def word_less_nat_alt word_le_nat_alt not_less split: if_splits)

lemma hsfs_block_size_clamp: "hsfs_block_size bsz want = hsfs_block_bits (clamp bsz) want"
  by (simp add: hsfs_block_size_def clamp_def)

lemma hsfs_block_size_bounds:
  "1024 \<le> unat (fst (hsfs_block_size bsz want)) \<and> unat (fst (hsfs_block_size bsz want)) \<le> 1048576"
proof -
  note c = clamp_bounds [of bsz]
  have small: "unat (clamp bsz) < 2 ^ 31" using c(3) by simp
  note sp = hsfs_block_bits_spec [OF c(1) small]
  let ?t = "top_bit 31 (clamp bsz)"
  have "10 \<le> ?t"
  proof (rule ccontr)
    assume "\<not> 10 \<le> ?t"
    then have "?t + 1 \<le> 10" by simp
    then have "(2 :: nat) ^ (?t + 1) \<le> 2 ^ 10" by (rule power_increasing) simp
    then show False using sp(3) c(2) by simp
  qed
  then have "(2 :: nat) ^ 10 \<le> 2 ^ ?t" by (rule power_increasing) simp
  then show ?thesis
    using sp(1,2) c(3) hsfs_block_bits_want [OF c(1) small, of want] by (simp add: hsfs_block_size_clamp)
qed

lemma hsfs_block_size_spec:
  "\<exists>k. 10 \<le> k \<and> k \<le> 20 \<and> unat (fst (hsfs_block_size bsz want)) = 2 ^ k \<and>
     snd (hsfs_block_size bsz want) = (if want then Some k else None) \<and>
     (1024 \<le> unat bsz \<and> unat bsz \<le> 1048576 \<longrightarrow> 2 ^ k \<le> unat bsz \<and> unat bsz < 2 ^ (k + 1))"
proof -
  let ?c = "clamp bsz" let ?k = "top_bit 31 (clamp bsz)"
  have c: "?c \<noteq> 0" "1024 \<le> unat ?c" "unat ?c \<le> 1048576" by (rule clamp_bounds)+
  then have c31: "unat ?c < 2 ^ 31" by simp
  note s = hsfs_block_bits_spec [OF c(1) c31]
  have v: "unat (fst (hsfs_block_size bsz want)) = 2 ^ ?k"
    using s(1) hsfs_block_bits_want [OF c(1) c31, of want] by (simp add: hsfs_block_size_clamp)
  have "(2 :: nat) ^ 10 < 2 ^ (?k + 1)" "(2 :: nat) ^ ?k < 2 ^ 21" using s(2,3) c by simp_all
  then have k: "10 < ?k + 1" "?k < 21" by (simp_all only: power_strict_increasing_iff one_less_numeral_iff num.simps(3) power_strict_increasing_iff semiring_norm)
  have "snd (hsfs_block_size bsz want) = (if want then Some ?k else None)"
    by (simp add: hsfs_block_size_clamp hsfs_block_bits_def Let_def)
  moreover have "2 ^ ?k \<le> unat bsz \<and> unat bsz < 2 ^ (?k + 1)" if "1024 \<le> unat bsz \<and> unat bsz \<le> 1048576"
  proof -
    have "?c = bsz" using that
      by (auto simp: clamp_def word_less_nat_alt word_le_nat_alt unsigned_word_eqI intro: unsigned_word_eqI)
    then show ?thesis using s(2,3) by simp
  qed
  ultimately show ?thesis using v k by (intro exI [of _ ?k]) auto
qed

section \<open>Properties\<close>



end
