(* ===== verification/Nfs3_Proc.thy ===== *)
theory Nfs3_Proc
  imports Rpc Blocks
begin

text \<open>
  The NFSv3 operations of nfs3/hsi_nfs3_*.c on inodes.  Each takes the outside world \<open>W\<close> (the RPC
  library, one function per remote procedure, the allocator and the address of \<open>bad_hsfs_inode\<close>) and
  the state; the result carries the error number it returns, what it stores through its output
  parameters, and the new state.  \<open>None\<close> is a fault.
\<close>

section \<open>Requests and replies\<close>

record 'a res3 =
  status :: int
  resok :: 'a

record lookup3resok =
  l3_object :: nfs_fh3
  l3_attributes :: "fattr3 option"

record diropres3ok =
  d3_obj :: "nfs_fh3 option"
  d3_attributes :: "fattr3 option"

record createhow3 =
  how_mode :: u32
  how_attributes :: sattr3
  how_verf :: u64

record mknoddata3 =
  mk_type :: u32
  mk_attributes :: sattr3
  mk_major :: u32
  mk_minor :: u32

record read3args =
  ra_file :: nfs_fh3
  ra_offset :: u64
  ra_count :: u32

record read3resok =
  r3_count :: u32
  r3_eof :: bool
  r3_data :: "u8 list"

record write3args =
  wa_file :: nfs_fh3
  wa_offset :: u64
  wa_count :: u32
  wa_stable :: int
  wa_data :: "u8 list"

record entry3 =
  e3_fileid :: u64
  e3_name :: string
  e3_cookie :: u64

record entryplus3 = entry3 +
  e3_attributes :: "fattr3 option"
  e3_handle :: "nfs_fh3 option"

record 'a dirlist3 =
  dl_attributes :: "fattr3 option"
  dl_cookieverf :: u64
  dl_entries :: "'a list"

record fsstat3resok =
  fs_tbytes :: u64
  fs_fbytes :: u64
  fs_abytes :: u64
  fs_tfiles :: u64
  fs_ffiles :: u64
  fs_afiles :: u64

record fsinfo3resok =
  fi_attributes :: "fattr3 option"
  fi_rtmax :: u32
  fi_rtpref :: u32
  fi_rtmult :: u32
  fi_wtmax :: u32
  fi_wtpref :: u32
  fi_wtmult :: u32
  fi_dtpref :: u32
  fi_maxfilesize :: u64
  fi_time_delta :: nfstime3
  fi_properties :: u32

record aclent =
  ae_type :: u32
  ae_id :: u32
  ae_perm :: u16

record secattr =
  sec_mask :: u32
  sec_aclcnt :: u32
  sec_aclent :: "aclent list"
  sec_dfaclcnt :: u32
  sec_dfaclent :: "aclent list"

section \<open>The outside world\<close>

text \<open>\<open>mem_ok n e\<close>: a \<open>malloc\<close> of \<open>n\<close> bytes succeeds.  \<open>page_size\<close> is \<open>HSFS_PAGE_SIZE\<close>, which \<open>hsfs_init\<close>
  takes from \<open>sysconf\<close>; \<open>dirent_size\<close> and \<open>direntplus_size\<close> are the sizes \<open>fuse_add_direntry\<close> and
  \<open>fuse_add_direntry_plus\<close> of libfuse report for an entry.\<close>

record 'e world =
  rpc :: "'e rpclib"
  bad_inode :: u64
  imalloc :: "'e hsfs_st \<Rightarrow> u64"
  mem_ok :: "nat \<Rightarrow> 'e \<Rightarrow> bool"
  page_size :: u32
  dirent_size :: "string \<Rightarrow> nat"
  direntplus_size :: "string \<Rightarrow> nat"
  nfs_getattr :: "('e, nfs_fh3, fattr3 res3) proc"
  nfs_setattr :: "('e, nfs_fh3 \<times> sattr3, (fattr3 option) res3) proc"
  nfs_lookup :: "('e, nfs_fh3 \<times> string, lookup3resok res3) proc"
  nfs_access :: "('e, nfs_fh3 \<times> u32, u32 res3) proc"
  nfs_readlink :: "('e, nfs_fh3, string res3) proc"
  nfs_read :: "('e, read3args, read3resok res3) proc"
  nfs_write :: "('e, write3args, u32 res3) proc"
  nfs_create :: "('e, nfs_fh3 \<times> string \<times> createhow3, diropres3ok res3) proc"
  nfs_mkdir :: "('e, nfs_fh3 \<times> string \<times> sattr3, diropres3ok res3) proc"
  nfs_symlink :: "('e, nfs_fh3 \<times> string \<times> sattr3 \<times> string, diropres3ok res3) proc"
  nfs_mknod :: "('e, nfs_fh3 \<times> string \<times> mknoddata3, diropres3ok res3) proc"
  nfs_remove :: "('e, nfs_fh3 \<times> string, unit res3) proc"
  nfs_rmdir :: "('e, nfs_fh3 \<times> string, unit res3) proc"
  nfs_rename :: "('e, nfs_fh3 \<times> string \<times> nfs_fh3 \<times> string, unit res3) proc"
  nfs_link :: "('e, nfs_fh3 \<times> nfs_fh3 \<times> string, (fattr3 option) res3) proc"
  nfs_readdir :: "('e, nfs_fh3 \<times> u64 \<times> u64 \<times> u32, entry3 dirlist3 res3) proc"
  nfs_readdirplus :: "('e, nfs_fh3 \<times> u64 \<times> u64 \<times> u32 \<times> u32, entryplus3 dirlist3 res3) proc"
  nfs_fsstat :: "('e, nfs_fh3, fsstat3resok res3) proc"
  nfs_fsinfo :: "('e, nfs_fh3, fsinfo3resok res3) proc"
  nfs_pathconf :: "('e, nfs_fh3, u32 res3) proc"
  acl_getacl :: "('e, nfs_fh3 \<times> u32, secattr res3) proc"
  acl_setacl :: "('e, nfs_fh3 \<times> secattr, unit res3) proc"

abbreviation call :: "'e world \<Rightarrow> ('e, 'a, 'r) proc \<Rightarrow> u64 \<Rightarrow> 'a \<Rightarrow> 'e hsfs_st \<Rightarrow> ((int + 'r) \<times> 'e hsfs_st) option" where
  "call W proc clnt args s \<equiv> hsi_nfs3_clnt_call (rpc W) proc clnt args s"

abbreviation fhget :: "'e world \<Rightarrow> nfs_fh \<Rightarrow> nfs_fattr \<Rightarrow> 'e hsfs_st \<Rightarrow> (u64 \<times> 'e hsfs_st) option" where
  "fhget W f fattr s \<equiv> hsi_nfs_fhget (bad_inode W) (hsi_nfs_sop (imalloc W)) f fattr s"

text \<open>A \<open>struct nfs_fattr\<close> on the stack before \<open>nfs_init_fattr\<close>.\<close>

definition stack_fattr :: nfs_fattr where
  "stack_fattr = \<lparr>fa_valid = 0, fa_mode = 0, fa_nlink = 0, fa_uid = 0, fa_gid = 0, fa_rdev = 0,
     fa_size = 0, fa_used = 0, fa_fsid = 0, fa_fileid = 0, fa_atime = zero_timespec,
     fa_mtime = zero_timespec, fa_ctime = zero_timespec\<rparr>"

definition post_fattr :: "fattr3 option \<Rightarrow> nfs_fattr" where
  "post_fattr p = snd (hsi_nfs3_post2fattr p (nfs_init_fattr stack_fattr))"

section \<open>Attributes and names\<close>

definition hsi_nfs3_do_getattr ::
  "'e world \<Rightarrow> nfs_fh3 \<Rightarrow> nfs_fattr \<Rightarrow> stat option \<Rightarrow> 'e hsfs_st \<Rightarrow>
   ((int \<times> nfs_fattr \<times> stat option) \<times> 'e hsfs_st) option" where
  "hsi_nfs3_do_getattr W f fattr st s =
     do { (r, s) \<leftarrow> call W (nfs_getattr W) (clntp s) f s;
          case r of
            Inl err \<Rightarrow> Some ((err, fattr, st), s)
          | Inr res \<Rightarrow>
              do { _ \<leftarrow> clnt_freeres (clntp s) s;
                   if status res \<noteq> 0 then Some ((hsi_nfs3_stat_to_errno (status res), fattr, st), s)
                   else Some ((0, hsi_nfs3_fattr2fattr (resok res) fattr,
                               map_option (\<lambda>t. snd (hsi_nfs3_fattr2stat (resok res) t)) st), s) } }"

definition hsi_nfs3_getattr ::
  "'e world \<Rightarrow> u64 \<Rightarrow> stat option \<Rightarrow> 'e hsfs_st \<Rightarrow> ((int \<times> stat option) \<times> 'e hsfs_st) option" where
  "hsi_nfs3_getattr W inode st s =
     do { i \<leftarrow> heap s inode;
          ((err, fattr, st), s) \<leftarrow>
             hsi_nfs3_do_getattr W (hsi_nfs3_getfh3 i) (nfs_init_fattr stack_fattr) st s;
          if err \<noteq> 0 then Some ((err, st), s)
          else do { (err, s) \<leftarrow> nfs_refresh_inode inode fattr s; Some ((err, st), s) } }"

text \<open>\<open>clntp\<close> is read before the call and given to \<open>clnt_freeres\<close> after it.\<close>

definition hsi_nfs3_setattr ::
  "'e world \<Rightarrow> u64 \<Rightarrow> hsfs_iattr \<Rightarrow> 'e hsfs_st \<Rightarrow> ((int \<times> nfs_fattr) \<times> 'e hsfs_st) option" where
  "hsi_nfs3_setattr W inode attr s =
     do { i \<leftarrow> heap s inode;
          let clnt = clntp s;
          (r, s) \<leftarrow> call W (nfs_setattr W) clnt (hsi_nfs3_getfh3 i, iattr_to_sattr3 attr) s;
          case r of
            Inl err \<Rightarrow> Some ((err, stack_fattr), s)
          | Inr res \<Rightarrow>
              do { _ \<leftarrow> clnt_freeres clnt s;
                   if status res \<noteq> 0 then Some ((hsi_nfs3_stat_to_errno (status res), stack_fattr), s)
                   else
                     let (present, fattr) = hsi_nfs3_wcc2fattr (resok res) (nfs_init_fattr stack_fattr)
                     in if \<not> present then Some ((EAGAIN, fattr), s) else Some ((0, fattr), s) } }"

definition setattr_inode :: "'e world \<Rightarrow> u64 \<Rightarrow> hsfs_iattr \<Rightarrow> 'e hsfs_st \<Rightarrow> (int \<times> 'e hsfs_st) option" where
  "setattr_inode W = hsi_nfs_setattr (hsi_nfs3_setattr W)"

definition hsi_nfs3_lookup ::
  "'e world \<Rightarrow> u64 \<Rightarrow> string \<Rightarrow> 'e hsfs_st \<Rightarrow> ((int \<times> u64 option) \<times> 'e hsfs_st) option" where
  "hsi_nfs3_lookup W parent name s =
     do { pi \<leftarrow> heap s parent;
          (r, s) \<leftarrow> call W (nfs_lookup W) (clntp s) (hsi_nfs3_getfh3 pi, name) s;
          case r of
            Inl err \<Rightarrow> Some ((err, None), s)
          | Inr res \<Rightarrow>
              if status res \<noteq> 0 then
                do { _ \<leftarrow> clnt_freeres (clntp s) s;
                     Some ((hsi_nfs3_stat_to_errno (status res), None), s) }
              else
                do { f \<leftarrow> nfs_copy_fh3 zero_fh (length (l3_object (resok res))) (l3_object (resok res));
                     (new, s) \<leftarrow> fhget W f (post_fattr (l3_attributes (resok res))) s;
                     _ \<leftarrow> clnt_freeres (clntp s) s;
                     Some ((0, Some new), s) } }"


definition FULL_ACCESS :: u32 where
  "FULL_ACCESS = 0x1 OR 0x2 OR 0x4 OR 0x8 OR 0x10 OR 0x20"

text \<open>The granted rights of the reply are not looked at; \<open>clnt_freeres\<close> is called on every path.\<close>

definition hsi_nfs3_access :: "'e world \<Rightarrow> u64 \<Rightarrow> u32 \<Rightarrow> 'e hsfs_st \<Rightarrow> (int \<times> 'e hsfs_st) option" where
  "hsi_nfs3_access W hi mask_bits s =
     do { i \<leftarrow> heap s hi;
          let clnt = clntp s;
          (r, s) \<leftarrow> call W (nfs_access W) clnt (hsi_nfs3_getfh3 i, mask_bits AND FULL_ACCESS) s;
          let st = (case r of Inl err \<Rightarrow> err | Inr res \<Rightarrow> hsi_nfs3_stat_to_errno (status res));
          _ \<leftarrow> clnt_freeres clnt s;
          Some (st, s) }"

definition hsi_nfs3_readlink ::
  "'e world \<Rightarrow> u64 \<Rightarrow> 'e hsfs_st \<Rightarrow> ((int \<times> string option) \<times> 'e hsfs_st) option" where
  "hsi_nfs3_readlink W inode s =
     do { i \<leftarrow> heap s inode;
          let clnt = clntp s;
          (r, s) \<leftarrow> call W (nfs_readlink W) clnt (hsi_nfs3_getfh3 i) s;
          case r of
            Inl err \<Rightarrow> Some ((err, None), s)
          | Inr res \<Rightarrow>
              do { _ \<leftarrow> clnt_freeres clnt s;
                   if status res \<noteq> 0 then Some ((hsi_nfs3_stat_to_errno (status res), None), s)
                   else if mem_ok W (length (resok res) + 1) (env s) then Some ((0, Some (resok res)), s)
                   else Some ((0, None), s) } }"

section \<open>Creating objects\<close>

text \<open>Without a handle in the reply the error number is passed with the wrong sign.\<close>

definition hsi_nfs3_handle_create ::
  "'e world \<Rightarrow> diropres3ok \<Rightarrow> 'e hsfs_st \<Rightarrow> (u64 \<times> 'e hsfs_st) option" where
  "hsi_nfs3_handle_create W d s =
     (case d3_obj d of
        None \<Rightarrow> do { p \<leftarrow> ERR_PTR (bad_inode W) ENOENT; Some (p, s) }
      | Some nfh \<Rightarrow>
          do { f \<leftarrow> nfs_copy_fh3 zero_fh (length nfh) nfh;
               fhget W f (post_fattr (d3_attributes d)) s })"

text \<open>\<open>PTR_ERR\<close> returns a \<open>long\<close> that is stored in an \<open>int\<close>.\<close>

definition ptr_errno :: "'e world \<Rightarrow> u64 \<Rightarrow> int" where
  "ptr_errno W p = int_of_long (word_of_int (PTR_ERR (bad_inode W) p))"

abbreviation EXCLUSIVE :: u32 where "EXCLUSIVE \<equiv> 2"

definition create_how :: "nfs_inode \<Rightarrow> u32 \<Rightarrow> createhow3" where
  "create_how i mode =
     (let cmode = mode AND 0xF0000; fmode = mode AND 0x1ff in
      \<lparr>how_mode = drop_bit 16 cmode,
       how_attributes =
         (if drop_bit 16 cmode = EXCLUSIVE then zero_sattr3
          else \<lparr>sa_mode = Some fmode, sa_uid = Some (i_uid i), sa_gid = Some (i_gid i), sa_size = None,
                sa_atime = SET_TO_SERVER_TIME, sa_mtime = SET_TO_SERVER_TIME\<rparr>),
       how_verf = (if drop_bit 16 cmode = EXCLUSIVE then ino i else 0)\<rparr>)"

definition hsi_nfs3_create ::
  "'e world \<Rightarrow> u64 \<Rightarrow> string \<Rightarrow> u32 \<Rightarrow> 'e hsfs_st \<Rightarrow> ((int \<times> u64 option) \<times> 'e hsfs_st) option" where
  "hsi_nfs3_create W hi name mode s =
     do { i \<leftarrow> heap s hi;
          let clnt = clntp s;
          let how = create_how i mode;
          (r, s) \<leftarrow> call W (nfs_create W) clnt (hsi_nfs3_getfh3 i, name, how) s;
          case r of
            Inl err \<Rightarrow> Some ((err, None), s)
          | Inr res \<Rightarrow>
              if status res \<noteq> 0 then
                do { _ \<leftarrow> clnt_freeres clnt s; Some ((hsi_nfs3_stat_to_errno (status res), None), s) }
              else
                do { (new, s) \<leftarrow> hsi_nfs3_handle_create W (resok res) s;
                     if IS_ERR new then
                       do { _ \<leftarrow> clnt_freeres clnt s; Some ((ptr_errno W new, Some 0), s) }
                     else if how_mode how = EXCLUSIVE then
                       do { ni \<leftarrow> heap s new;
                            let sattr = (iattr ni)\<lparr>ia_mode := mode AND 0x1ff,
                                          ia_valid := ia_valid (iattr ni) OR HSFS_ATTR_MODE\<rparr>;
                            (st, s) \<leftarrow> setattr_inode W new sattr s;
                            _ \<leftarrow> clnt_freeres clnt s;
                            Some ((st, Some new), s) }
                     else do { _ \<leftarrow> clnt_freeres clnt s; Some ((0, Some new), s) } } }"

text \<open>mkdir, symlink and mknod clear \<open>*new\<close> before they take the error number from it.\<close>

definition made :: "'e world \<Rightarrow> u64 \<Rightarrow> int \<times> u64" where
  "made W new = (if IS_ERR new then (ptr_errno W 0, 0) else (0, new))"

definition hsi_nfs3_mkdir ::
  "'e world \<Rightarrow> u64 \<Rightarrow> string \<Rightarrow> u32 \<Rightarrow> 'e hsfs_st \<Rightarrow> ((int \<times> u64 option) \<times> 'e hsfs_st) option" where
  "hsi_nfs3_mkdir W parent name mode s =
     do { i \<leftarrow> heap s parent;
          (r, s) \<leftarrow> call W (nfs_mkdir W) (clntp s)
                      (hsi_nfs3_getfh3 i, name, zero_sattr3\<lparr>sa_mode := Some (mode AND 0xfff)\<rparr>) s;
          case r of
            Inl err \<Rightarrow> Some ((err, Some 0), s)
          | Inr res \<Rightarrow>
              if status res \<noteq> 0 then
                do { _ \<leftarrow> clnt_freeres (clntp s) s; Some ((hsi_nfs3_stat_to_errno (status res), Some 0), s) }
              else
                do { (new, s) \<leftarrow> hsi_nfs3_handle_create W (resok res) s;
                     let (err, new) = made W new;
                     _ \<leftarrow> clnt_freeres (clntp s) s;
                     Some ((err, Some new), s) } }"

definition hsi_nfs3_symlink ::
  "'e world \<Rightarrow> u64 \<Rightarrow> string \<Rightarrow> string \<Rightarrow> 'e hsfs_st \<Rightarrow> ((int \<times> u64 option) \<times> 'e hsfs_st) option" where
  "hsi_nfs3_symlink W parent link name s =
     do { i \<leftarrow> heap s parent;
          (r, s) \<leftarrow> call W (nfs_symlink W) (clntp s) (hsi_nfs3_getfh3 i, name, zero_sattr3, link) s;
          case r of
            Inl err \<Rightarrow> Some ((err, None), s)
          | Inr res \<Rightarrow>
              if status res \<noteq> 0 then
                do { _ \<leftarrow> clnt_freeres (clntp s) s; Some ((hsi_nfs3_stat_to_errno (status res), None), s) }
              else
                do { (new, s) \<leftarrow> hsi_nfs3_handle_create W (resok res) s;
                     let (err, new) = made W new;
                     _ \<leftarrow> clnt_freeres (clntp s) s;
                     Some ((err, Some new), s) } }"

text \<open>The copy of a name into a buffer of \<open>NAME_MAX\<close> bytes: \<open>strcpy\<close> writes the terminator too.\<close>

definition strcpy_name :: "string \<Rightarrow> unit option" where
  "strcpy_name name = (if length name + 1 \<le> NAME_MAX then Some () else None)"

definition mknod_data :: "u32 \<Rightarrow> u64 \<Rightarrow> mknoddata3" where
  "mknod_data mode rdev =
     (let fmt = mode AND S_IFMT;
          attrs = zero_sattr3\<lparr>sa_mode := Some (mode AND 0xfff)\<rparr>
      in if fmt = S_IFCHR \<or> fmt = S_IFBLK then
           \<lparr>mk_type = (if fmt = S_IFCHR then NF3CHR else NF3BLK), mk_attributes = attrs,
            mk_major = major_of rdev, mk_minor = minor_of rdev\<rparr>
         else if fmt = S_IFSOCK \<or> fmt = S_IFIFO then
           \<lparr>mk_type = (if fmt = S_IFSOCK then NF3SOCK else NF3FIFO), mk_attributes = attrs,
            mk_major = 0, mk_minor = 0\<rparr>
         else \<lparr>mk_type = 0, mk_attributes = zero_sattr3, mk_major = 0, mk_minor = 0\<rparr>)"

definition hsi_nfs3_mknod ::
  "'e world \<Rightarrow> u64 \<Rightarrow> string \<Rightarrow> u32 \<Rightarrow> u64 \<Rightarrow> 'e hsfs_st \<Rightarrow> ((int \<times> u64 option) \<times> 'e hsfs_st) option" where
  "hsi_nfs3_mknod W parent name mode rdev s =
     (if length name > NAME_MAX then Some ((ENAMETOOLONG, None), s)
      else do {
        i \<leftarrow> heap s parent;
        if \<not> mem_ok W NAME_MAX (env s) then Some ((ENOMEM, None), s)
        else do {
          _ \<leftarrow> strcpy_name name;
          let clnt = clntp s;
          (r, s) \<leftarrow> call W (nfs_mknod W) clnt (hsi_nfs3_getfh3 i, name, mknod_data mode rdev) s;
          case r of
            Inl err \<Rightarrow> Some ((err, None), s)
          | Inr res \<Rightarrow>
              if status res \<noteq> 0 then
                do { _ \<leftarrow> clnt_freeres clnt s; Some ((hsi_nfs3_stat_to_errno (status res), None), s) }
              else
                do { (new, s) \<leftarrow> hsi_nfs3_handle_create W (resok res) s;
                     let (err, new) = made W new;
                     _ \<leftarrow> clnt_freeres clnt s;
                     Some ((err, Some new), s) } } })"


section \<open>Removing, renaming and linking\<close>

definition hsi_nfs3_unlink :: "'e world \<Rightarrow> u64 \<Rightarrow> string \<Rightarrow> 'e hsfs_st \<Rightarrow> (int \<times> 'e hsfs_st) option" where
  "hsi_nfs3_unlink W parent name s =
     do { i \<leftarrow> heap s parent;
          let clnt = clntp s;
          (r, s) \<leftarrow> call W (nfs_remove W) clnt (hsi_nfs3_getfh3 i, name) s;
          case r of
            Inl err \<Rightarrow> Some (err, s)
          | Inr res \<Rightarrow>
              do { _ \<leftarrow> clnt_freeres clnt s;
                   Some (if status res \<noteq> 0 then hsi_nfs3_stat_to_errno (status res) else 0, s) } }"

definition hsi_nfs3_rmdir :: "'e world \<Rightarrow> u64 \<Rightarrow> string \<Rightarrow> 'e hsfs_st \<Rightarrow> (int \<times> 'e hsfs_st) option" where
  "hsi_nfs3_rmdir W parent name s =
     do { i \<leftarrow> heap s parent;
          (r, s) \<leftarrow> call W (nfs_rmdir W) (clntp s) (hsi_nfs3_getfh3 i, name) s;
          case r of
            Inl err \<Rightarrow> Some (err, s)
          | Inr res \<Rightarrow>
              do { _ \<leftarrow> clnt_freeres (clntp s) s; Some (hsi_nfs3_stat_to_errno (status res), s) } }"

definition hsi_nfs3_rename ::
  "'e world \<Rightarrow> u64 \<Rightarrow> string \<Rightarrow> u64 \<Rightarrow> string \<Rightarrow> 'e hsfs_st \<Rightarrow> (int \<times> 'e hsfs_st) option" where
  "hsi_nfs3_rename W parent name newparent newname s =
     do { i \<leftarrow> heap s parent;
          j \<leftarrow> heap s newparent;
          let clnt = clntp s;
          (r, s) \<leftarrow> call W (nfs_rename W) clnt (hsi_nfs3_getfh3 i, name, hsi_nfs3_getfh3 j, newname) s;
          case r of
            Inl err \<Rightarrow> Some (err, s)
          | Inr res \<Rightarrow>
              do { _ \<leftarrow> clnt_freeres clnt s;
                   Some (if status res \<noteq> 0 then hsi_nfs3_stat_to_errno (status res) else 0, s) } }"

definition hsi_nfs3_link :: "'e world \<Rightarrow> u64 \<Rightarrow> u64 \<Rightarrow> string \<Rightarrow> 'e hsfs_st \<Rightarrow> (int \<times> 'e hsfs_st) option" where
  "hsi_nfs3_link W inode newparent name s =
     (if length name > NAME_MAX then Some (ENAMETOOLONG, s)
      else do {
        i \<leftarrow> heap s inode;
        j \<leftarrow> heap s newparent;
        if \<not> mem_ok W NAME_MAX (env s) then Some (ENOMEM, s)
        else do {
          _ \<leftarrow> strcpy_name name;
          let clnt = clntp s;
          (r, s) \<leftarrow> call W (nfs_link W) clnt (hsi_nfs3_getfh3 i, hsi_nfs3_getfh3 j, name) s;
          case r of
            Inl err \<Rightarrow> Some (err, s)
          | Inr res \<Rightarrow>
              if status res \<noteq> 0 then
                do { _ \<leftarrow> clnt_freeres clnt s; Some (hsi_nfs3_stat_to_errno (status res), s) }
              else
                do { let fattr = post_fattr (resok res);
                     (err, s) \<leftarrow>
                       (if fa_valid fattr AND NFS_ATTR_FATTR = 0
                        then do { ((err, st), s) \<leftarrow> hsi_nfs3_getattr W inode None s; Some (err, s) }
                        else nfs_refresh_inode inode fattr s);
                     _ \<leftarrow> clnt_freeres clnt s;
                     Some (err, s) } } })"

section \<open>Data\<close>

text \<open>\<open>room\<close> is the space left in the caller's buffer, into which the data of the reply are copied.\<close>

record rw_result =
  rw_data :: "u8 list"
  rw_count :: u64
  rw_eof :: bool

definition hsi_nfs3_read ::
  "'e world \<Rightarrow> u64 \<Rightarrow> u64 \<Rightarrow> u64 \<Rightarrow> nat \<Rightarrow> 'e hsfs_st \<Rightarrow> ((int + rw_result) \<times> 'e hsfs_st) option" where
  "hsi_nfs3_read W inode off sz room s =
     do { i \<leftarrow> heap s inode;
          let clnt = clntp s;
          (r, s) \<leftarrow> call W (nfs_read W) clnt
                     \<lparr>ra_file = hsi_nfs3_getfh3 i, ra_offset = off, ra_count = ucast sz\<rparr> s;
          case r of
            Inl err \<Rightarrow> Some (Inl err, s)
          | Inr res \<Rightarrow>
              let err = hsi_nfs3_stat_to_errno (status res) in
              if err = 0 then
                if length (r3_data (resok res)) \<le> room then
                  do { _ \<leftarrow> clnt_freeres clnt s;
                       Some (Inr \<lparr>rw_data = r3_data (resok res), rw_count = ucast (r3_count (resok res)),
                                  rw_eof = r3_eof (resok res)\<rparr>, s) }
                else None
              else do { _ \<leftarrow> clnt_freeres clnt s; Some (Inl err, s) } }"

definition hsi_nfs3_write ::
  "'e world \<Rightarrow> u64 \<Rightarrow> u64 \<Rightarrow> u64 \<Rightarrow> int \<Rightarrow> u8 list \<Rightarrow> 'e hsfs_st \<Rightarrow> ((int + u64) \<times> 'e hsfs_st) option" where
  "hsi_nfs3_write W inode off sz how bytes s =
     do { i \<leftarrow> heap s inode;
          let clnt = clntp s;
          (r, s) \<leftarrow> call W (nfs_write W) clnt
                     \<lparr>wa_file = hsi_nfs3_getfh3 i, wa_offset = off, wa_count = ucast sz,
                      wa_stable = how, wa_data = bytes\<rparr> s;
          case r of
            Inl err \<Rightarrow> Some (Inl err, s)
          | Inr res \<Rightarrow>
              let err = hsi_nfs3_stat_to_errno (status res) in
              do { _ \<leftarrow> clnt_freeres clnt s;
                   Some (if err = 0 then Inr (ucast (resok res)) else Inl err, s) } }"

section \<open>The file system\<close>

definition hsi_nfs3_statfs :: "'e world \<Rightarrow> u64 \<Rightarrow> 'e hsfs_st \<Rightarrow> (int \<times> 'e hsfs_st) option" where
  "hsi_nfs3_statfs W inode s =
     do { i \<leftarrow> heap s inode;
          (r, s) \<leftarrow> call W (nfs_fsstat W) (clntp s) (hsi_nfs3_getfh3 i) s;
          case r of
            Inl err \<Rightarrow> Some (err, s)
          | Inr res \<Rightarrow>
              do { _ \<leftarrow> clnt_freeres (clntp s) s;
                   if status res \<noteq> 0 then Some (hsi_nfs3_stat_to_errno (status res), s)
                   else Some (0, s\<lparr>tbytes := fs_tbytes (resok res), fbytes := fs_fbytes (resok res),
                          abytes := fs_abytes (resok res), tfiles := fs_tfiles (resok res),
                          ffiles := fs_ffiles (resok res), afiles := fs_afiles (resok res)\<rparr>) } }"

definition hsi_nfs3_pathconf :: "'e world \<Rightarrow> u64 \<Rightarrow> 'e hsfs_st \<Rightarrow> (int \<times> 'e hsfs_st) option" where
  "hsi_nfs3_pathconf W inode s =
     do { i \<leftarrow> heap s inode;
          let clnt = clntp s;
          (r, s) \<leftarrow> call W (nfs_pathconf W) clnt (hsi_nfs3_getfh3 i) s;
          case r of
            Inl err \<Rightarrow> Some (err, s)
          | Inr res \<Rightarrow>
              do { _ \<leftarrow> clnt_freeres clnt s;
                   if status res \<noteq> 0 then Some (hsi_nfs3_stat_to_errno (status res), s)
                   else Some (0, s\<lparr>namlen := resok res\<rparr>) } }"

abbreviation blk :: "u32 \<Rightarrow> u32" where
  "blk n \<equiv> ucast (fst (hsfs_block_size (ucast n) False))"

definition hsi_fsinfo_to_super :: "u32 \<Rightarrow> fsinfo3resok \<Rightarrow> 'z hsfs_super_scheme \<Rightarrow> 'z hsfs_super_scheme" where
  "hsi_fsinfo_to_super page fsinfo s =
     (let s = (if rsize s = 0 then s\<lparr>rsize := blk (fi_rtpref fsinfo)\<rparr> else s);
          s = (if wsize s = 0 then s\<lparr>wsize := blk (fi_wtpref fsinfo)\<rparr> else s);
          s = (if fi_rtmax fsinfo \<ge> 512 \<and> rsize s > fi_rtmax fsinfo then s\<lparr>rsize := blk (fi_rtmax fsinfo)\<rparr> else s);
          s = (if fi_wtmax fsinfo \<ge> 512 \<and> wsize s > fi_wtmax fsinfo then s\<lparr>wsize := blk (fi_wtmax fsinfo)\<rparr> else s);
          s = (if rsize s > ucast HSFS_MAX_FILE_IO_SIZE then s\<lparr>rsize := ucast HSFS_MAX_FILE_IO_SIZE\<rparr> else s);
          s = (if wsize s > ucast HSFS_MAX_FILE_IO_SIZE then s\<lparr>wsize := ucast HSFS_MAX_FILE_IO_SIZE\<rparr> else s);
          s = s\<lparr>dtsize := blk (fi_dtpref fsinfo)\<rparr>;
          s = (if dtsize s > page * 8 then s\<lparr>dtsize := page * 8\<rparr> else s);
          s = (if dtsize s > rsize s then s\<lparr>dtsize := rsize s\<rparr> else s)
      in s\<lparr>rtmax := fi_rtmax fsinfo, rtpref := fi_rtpref fsinfo, rtmult := fi_rtmult fsinfo,
           wtmax := fi_wtmax fsinfo, wtpref := fi_wtpref fsinfo,
           wtmult := ucast (fst (hsfs_block_bits (ucast (fi_wtmult fsinfo)) False)),
           dtpref := fi_dtpref fsinfo, maxfilesize := fi_maxfilesize fsinfo,
           time_delta := hsi_nfs3_time2spec (fi_time_delta fsinfo), properties := fi_properties fsinfo\<rparr>)"

definition hsi_nfs3_fsinfo ::
  "'e world \<Rightarrow> nfs_fh3 \<Rightarrow> nfs_fattr \<Rightarrow> 'e hsfs_st \<Rightarrow> ((int \<times> nfs_fattr) \<times> 'e hsfs_st) option" where
  "hsi_nfs3_fsinfo W f fattr s =
     do { let clnt = clntp s;
          (r, s) \<leftarrow> call W (nfs_fsinfo W) clnt f s;
          case r of
            Inl err \<Rightarrow> Some ((err, fattr), s)
          | Inr res \<Rightarrow>
              if status res \<noteq> 0 then
                do { _ \<leftarrow> clnt_freeres clnt s; Some ((hsi_nfs3_stat_to_errno (status res), fattr), s) }
              else
                do { let s = hsi_fsinfo_to_super (page_size W) (resok res) s;
                     let fattr = snd (hsi_nfs3_post2fattr (fi_attributes (resok res)) fattr);
                     ((err, fattr), s) \<leftarrow>
                       (if fa_valid fattr AND NFS_ATTR_FATTR = 0
                        then do { ((err, fattr, st), s) \<leftarrow> hsi_nfs3_do_getattr W f fattr None s;
                                  Some ((err, fattr), s) }
                        else Some ((0, fattr), s));
                     _ \<leftarrow> clnt_freeres clnt s;
                     Some ((err, fattr), s) } }"

section \<open>Device numbers\<close>

lemma bit_major: "bit (major_of d) n \<longleftrightarrow> n < 32 \<and> (if n < 12 then bit d (8 + n) else bit d (32 + n))"
  unfolding major_of_def dev_masks by (auto simp: bit_simps)

lemma bit_minor: "bit (minor_of d) n \<longleftrightarrow> n < 32 \<and> (if n < 8 then bit d n else bit d (12 + n))"
  unfolding minor_of_def dev_masks by (auto simp: bit_simps)

lemma makedev_parts: "makedev (major_of d) (minor_of d) = d"
  by (rule bit_word_eqI) (auto simp: bit_makedev bit_major bit_minor)

text \<open>C30. A device number survives the trip to the server and back: the major and minor parts that \<open>mknod\<close>
  sends for a character or block device are turned into the same number when the server reports them as attributes.\<close>

theorem mknod_rdev_roundtrip:
  assumes "mode AND S_IFMT = S_IFCHR \<or> mode AND S_IFMT = S_IFBLK"
    and "f3_major f = mk_major (mknod_data mode rdev)" "f3_minor f = mk_minor (mknod_data mode rdev)"
  shows "fa_rdev (hsi_nfs3_fattr2fattr f t) = rdev"
proof -
  have "f3_major f = major_of rdev" "f3_minor f = minor_of rdev"
    using assms by (auto simp: mknod_data_def Let_def)
  then show ?thesis by (simp add: hsi_nfs3_fattr2fattr_def Let_def makedev_parts)
qed

definition some_fattr3 :: "u32 \<Rightarrow> u64 \<Rightarrow> fattr3" where
  "some_fattr3 type n = \<lparr>f3_type = type, f3_mode = 0x1b4, f3_nlink = 1, f3_uid = 0, f3_gid = 0, f3_size = 10, f3_used = 512,
     f3_major = 0, f3_minor = 0, f3_fsid = 1, f3_fileid = n, f3_atime = \<lparr>seconds = 0, nseconds = 0\<rparr>,
     f3_mtime = \<lparr>seconds = 0, nseconds = 0\<rparr>, f3_ctime = \<lparr>seconds = 0, nseconds = 0\<rparr>\<rparr>"

theorem mknod_rdev_roundtrip_witness:
  "fa_rdev (hsi_nfs3_fattr2fattr ((some_fattr3 NF3CHR 5)\<lparr>f3_major := mk_major (mknod_data 0x21b6 0x103),
     f3_minor := mk_minor (mknod_data 0x21b6 0x103)\<rparr>) stack_fattr) = 0x103"
  by (rule mknod_rdev_roundtrip [where mode = "0x21b6"]) simp_all

end
