(* ===== verification/Nfs3_Readdir.thy ===== *)
theory Nfs3_Readdir
  imports Nfs3_Proc
begin

text \<open>
  Reading directories, nfs3/hsi_nfs3_readdir.c.  The chain of \<open>struct hsfs_readdir_ctx\<close> that the two
  operations build is the list of its elements; the caller's pointer to it is \<open>ctx_out\<close>, which tells a
  chain that has been freed from the null pointer.
\<close>

record readdir_ctx =
  rc_off :: u64
  rc_name :: string
  rc_ino :: u64
  rc_inode :: u64

datatype ctx_out = Unset | Freed | Ctx "readdir_ctx list"

abbreviation sizeof_ctx :: nat where "sizeof_ctx \<equiv> 184"

text \<open>\<open>__alloc_copy_name\<close>: the new element, with the name cut to 255 bytes, or the error.\<close>

definition alloc_copy_name :: "'e world \<Rightarrow> 'e \<Rightarrow> string \<Rightarrow> int + readdir_ctx" where
  "alloc_copy_name W e name =
     (let len = min (length name) 255 in
      if \<not> mem_ok W sizeof_ctx e then Inl ENOMEM
      else if \<not> mem_ok W (len + 1) e then Inl ENOMEM
      else Inr \<lparr>rc_off = 0, rc_name = take len name, rc_ino = 0, rc_inode = 0\<rparr>)"

text \<open>\<open>__free_ctx\<close>\<close>

fun free_ctx :: "'e world \<Rightarrow> readdir_ctx list \<Rightarrow> 'e hsfs_st \<Rightarrow> 'e hsfs_st option" where
  "free_ctx W [] s = Some s"
| "free_ctx W (c # cs) s =
     do { s \<leftarrow> (if rc_inode c \<noteq> 0 then hsfs_iput (hsi_nfs_sop (imalloc W)) (rc_inode c) s else Some s);
          free_ctx W cs s }"

definition get_cookie_verf :: "nfs_inode \<Rightarrow> u64" where
  "get_cookie_verf i = cookieverf i"

definition set_cookie_verf :: "u64 \<Rightarrow> nfs_inode \<Rightarrow> nfs_inode" where
  "set_cookie_verf v i = i\<lparr>cookieverf := v\<rparr>"

text \<open>The two loops over the entries of a reply.\<close>

fun copy_entries :: "'e world \<Rightarrow> 'e \<Rightarrow> entry3 list \<Rightarrow> readdir_ctx list \<Rightarrow> int \<times> readdir_ctx list" where
  "copy_entries W e [] acc = (0, acc)"
| "copy_entries W e (x # xs) acc =
     (case alloc_copy_name W e (e3_name x) of
        Inl err \<Rightarrow> (err, acc)
      | Inr c \<Rightarrow> copy_entries W e xs (acc @ [c\<lparr>rc_ino := e3_fileid x, rc_off := e3_cookie x\<rparr>]))"

fun copy_entries_plus ::
  "'e world \<Rightarrow> entryplus3 list \<Rightarrow> readdir_ctx list \<Rightarrow> 'e hsfs_st \<Rightarrow> ((int \<times> readdir_ctx list) \<times> 'e hsfs_st) option" where
  "copy_entries_plus W [] acc s = Some ((0, acc), s)"
| "copy_entries_plus W (x # xs) acc s =
     (case alloc_copy_name W (env s) (e3_name x) of
        Inl err \<Rightarrow> Some ((err, acc), s)
      | Inr c \<Rightarrow>
          let c = c\<lparr>rc_off := e3_cookie x, rc_ino := e3_fileid x\<rparr> in
          case e3_handle x of
            None \<Rightarrow> Some ((ENOENT, acc @ [c]), s)
          | Some h \<Rightarrow>
              do { f \<leftarrow> nfs_copy_fh3 zero_fh (length h) h;
                   (new, s) \<leftarrow> fhget W f (post_fattr (e3_attributes x)) s;
                   if IS_ERR new then Some ((ptr_errno W new, acc @ [c]), s)
                   else copy_entries_plus W xs (acc @ [c\<lparr>rc_inode := new\<rparr>]) s })"

text \<open>On a failure while copying, the chain is freed and the local pointer, not the caller's, is set to
  \<open>NULL\<close>.\<close>

definition hsi_nfs3_readdir ::
  "'e world \<Rightarrow> u64 \<Rightarrow> u32 \<Rightarrow> u64 \<Rightarrow> 'e hsfs_st \<Rightarrow> ((int \<times> ctx_out) \<times> 'e hsfs_st) option" where
  "hsi_nfs3_readdir W parent count cookie s =
     do { i \<leftarrow> heap s parent;
          let clnt = clntp s;
          (r, s) \<leftarrow> call W (nfs_readdir W) clnt (hsi_nfs3_getfh3 i, cookie, get_cookie_verf i, count) s;
          case r of
            Inl err \<Rightarrow> Some ((err, Unset), s)
          | Inr res \<Rightarrow>
              if status res \<noteq> 0 then
                do { _ \<leftarrow> clnt_freeres clnt s; Some ((hsi_nfs3_stat_to_errno (status res), Unset), s) }
              else
                do { (err, s) \<leftarrow> nfs_refresh_inode parent (post_fattr (dl_attributes (resok res))) s;
                     if err \<noteq> 0 then do { _ \<leftarrow> clnt_freeres clnt s; Some ((err, Unset), s) }
                     else do {
                       s \<leftarrow> upd_inode parent (set_cookie_verf (dl_cookieverf (resok res))) s;
                       let (err, cs) = copy_entries W (env s) (dl_entries (resok res)) [];
                       if err \<noteq> 0 then
                         do { s \<leftarrow> free_ctx W cs s;
                              _ \<leftarrow> clnt_freeres clnt s;
                              Some ((err, if cs = [] then Ctx [] else Freed), s) }
                       else do { _ \<leftarrow> clnt_freeres clnt s; Some ((0, Ctx cs), s) } } } }"

definition hsi_nfs3_readdir_plus ::
  "'e world \<Rightarrow> u64 \<Rightarrow> u32 \<Rightarrow> u64 \<Rightarrow> u32 \<Rightarrow> 'e hsfs_st \<Rightarrow> ((int \<times> ctx_out) \<times> 'e hsfs_st) option" where
  "hsi_nfs3_readdir_plus W parent count cookie maxcount s =
     do { i \<leftarrow> heap s parent;
          let clnt = clntp s;
          (r, s) \<leftarrow> call W (nfs_readdirplus W) clnt
                     (hsi_nfs3_getfh3 i, cookie, get_cookie_verf i, count, maxcount) s;
          case r of
            Inl err \<Rightarrow> Some ((err, Unset), s)
          | Inr res \<Rightarrow>
              if status res \<noteq> 0 then
                do { _ \<leftarrow> clnt_freeres clnt s; Some ((hsi_nfs3_stat_to_errno (status res), Unset), s) }
              else
                do { (err, s) \<leftarrow> nfs_refresh_inode parent (post_fattr (dl_attributes (resok res))) s;
                     if err \<noteq> 0 then do { _ \<leftarrow> clnt_freeres clnt s; Some ((err, Unset), s) }
                     else do {
                       s \<leftarrow> upd_inode parent (set_cookie_verf (dl_cookieverf (resok res))) s;
                       ((err, cs), s) \<leftarrow> copy_entries_plus W (dl_entries (resok res)) [] s;
                       if err \<noteq> 0 then
                         do { s \<leftarrow> free_ctx W cs s;
                              _ \<leftarrow> clnt_freeres clnt s;
                              Some ((err, Ctx []), s) }
                       else do { _ \<leftarrow> clnt_freeres clnt s; Some ((0, Ctx cs), s) } } } }"

section \<open>The entries that are copied\<close>

definition ctx_of :: "'a entry3_scheme \<Rightarrow> readdir_ctx" where
  "ctx_of x = \<lparr>rc_off = e3_cookie x, rc_name = take 255 (e3_name x), rc_ino = e3_fileid x, rc_inode = 0\<rparr>"

lemma alloc_copy_name_ok:
  "(\<And>n. mem_ok W n e) \<Longrightarrow>
   alloc_copy_name W e name = Inr \<lparr>rc_off = 0, rc_name = take 255 name, rc_ino = 0, rc_inode = 0\<rparr>"
  by (simp add: alloc_copy_name_def min_def)

lemma copy_entries_ok:
  "(\<And>n. mem_ok W n e) \<Longrightarrow> copy_entries W e xs acc = (0, acc @ map ctx_of xs)"
  by (induction xs arbitrary: acc) (simp_all add: alloc_copy_name_ok ctx_of_def)

lemma copy_entries_err: "copy_entries W e xs acc = (err, cs) \<Longrightarrow> err = 0 \<or> err = ENOMEM"
  by (induction xs arbitrary: acc)
     (auto simp: alloc_copy_name_def Let_def split: sum.splits if_splits)

lemma copy_entries_prefix:
  "copy_entries W e xs acc = (err, cs) \<Longrightarrow> \<exists>n. cs = acc @ map ctx_of (take n xs)"
proof (induction xs arbitrary: acc)
  case (Cons x xs)
  show ?case
  proof (cases "alloc_copy_name W e (e3_name x)")
    case (Inl a)
    then show ?thesis using Cons.prems by (auto intro: exI [of _ 0])
  next
    case (Inr c)
    then have c: "c\<lparr>rc_ino := e3_fileid x, rc_off := e3_cookie x\<rparr> = ctx_of x"
      by (auto simp: alloc_copy_name_def ctx_of_def min_def Let_def split: if_splits)
    obtain n where "cs = (acc @ [ctx_of x]) @ map ctx_of (take n xs)"
      using Cons.IH [of "acc @ [ctx_of x]"] Cons.prems Inr c by auto
    then show ?thesis by (intro exI [of _ "Suc n"]) simp
  qed
qed simp

end
