(* ===== verification/Nfs3_Inv.thy ===== *)
theory Nfs3_Inv
  imports Nfs3_Readdir
begin

text \<open>
  What every NFSv3 operation keeps.  \<open>evolves s s'\<close>: the cache is well formed afterwards, and every inode
  that was cached still is, at the same address, with the same number, for the same file of the same
  type.  The contract is the locale \<open>file_op\<close>; every operation of the theories \<open>Nfs3_Proc\<close> and
  \<open>Nfs3_Readdir\<close> is an interpretation of it, whatever the server replies.
\<close>

section \<open>Evolution\<close>

definition same_file :: "nfs_inode \<Rightarrow> nfs_inode \<Rightarrow> bool" where
  "same_file i j \<longleftrightarrow> ino j = ino i \<and> fileid j = fileid i \<and> fh_bytes (fh j) = fh_bytes (fh i) \<and>
     i_mode j AND S_IFMT = i_mode i AND S_IFMT"

definition evolves :: "'z hsfs_super_scheme \<Rightarrow> 'z hsfs_super_scheme \<Rightarrow> bool" where
  "evolves s s' \<longleftrightarrow> nfs_cache_ok s' \<and>
     (\<forall>p i. heap s p = Some i \<longrightarrow> (\<exists>j. heap s' p = Some j \<and> same_file i j))"

definition world_ok :: "'e world \<Rightarrow> bool" where
  "world_ok W \<longleftrightarrow> user_object (bad_inode W) \<and> fresh_malloc (imalloc W)"

lemma same_file_refl [simp]: "same_file i i"
  by (simp add: same_file_def)

lemma same_file_trans: "same_file i j \<Longrightarrow> same_file j k \<Longrightarrow> same_file i k"
  by (simp add: same_file_def)

lemma evolves_refl: "nfs_cache_ok s \<Longrightarrow> evolves s s"
  by (auto simp: evolves_def)

lemma evolves_ok: "evolves s s' \<Longrightarrow> nfs_cache_ok s'"
  by (simp add: evolves_def)

lemma evolves_trans: "evolves s s' \<Longrightarrow> evolves s' s'' \<Longrightarrow> evolves s s''"
  unfolding evolves_def using same_file_trans by blast

lemma evolves_heap:
  "nfs_cache_ok s' \<Longrightarrow> heap s' = heap s \<Longrightarrow> evolves s s'"
  by (auto simp: evolves_def)

text \<open>The state may change outside the heap and the tables.\<close>

lemma nfs_cache_ok_cong:
  "heap s' = heap s \<Longrightarrow> id_table s' = id_table s \<Longrightarrow> fh_table s' = fh_table s \<Longrightarrow>
   nfs_cache_ok s' = nfs_cache_ok s"
  by (simp add: nfs_cache_ok_def icache_ok_def)

lemma evolves_outside:
  "nfs_cache_ok s \<Longrightarrow> heap s' = heap s \<Longrightarrow> id_table s' = id_table s \<Longrightarrow> fh_table s' = fh_table s \<Longrightarrow> evolves s s'"
  using nfs_cache_ok_cong evolves_heap by blast

lemma evolves_core: "nfs_cache_ok s \<Longrightarrow> core s' = core s \<Longrightarrow> evolves s s'"
  using core_eqD [of s' s] by (intro evolves_outside) auto

lemma evolves_upd:
  assumes "nfs_cache_ok s" "heap s p = Some i" "same_file i i'" "i_count i' \<le> 0" "fh i' = fh i" "settled i'"
  shows "evolves s (s\<lparr>heap := (heap s)(p \<mapsto> i')\<rparr>)"
proof -
  have "nfs_cache_ok (s\<lparr>heap := (heap s)(p \<mapsto> i')\<rparr>)"
    using assms by (intro nfs_cache_ok_upd [OF assms(1,2)]) (auto simp: same_file_def)
  then show ?thesis using assms(2,3) by (auto simp: evolves_def)
qed

lemma evolves_refresh:
  assumes "nfs_cache_ok s" "nfs_refresh_inode p fattr s = Some (r, s')"
  shows "evolves s s'"
proof -
  obtain i where i: "heap s p = Some i" using assms(2) by (auto simp: nfs_refresh_inode_def bind_eq_Some_conv)
  obtain r' i' where r: "refresh fattr i = (r', i')" by fastforce
  have "s' = s\<lparr>heap := (heap s)(p \<mapsto> i')\<rparr>"
    using assms(2) i r by (auto simp: nfs_refresh_inode_def)
  moreover have "i_count i \<le> 0" "settled i"
    using i icache_ok_D(6) [OF nfs_cache_ok_D(1) [OF assms(1)]] nfs_cache_ok_D(2) [OF assms(1)] by auto
  ultimately show ?thesis
    using refresh_frame [OF r] refresh_settled [OF r]
    by (auto intro!: evolves_upd [OF assms(1) i] simp: same_file_def)
qed

lemma evolves_cookie:
  assumes "nfs_cache_ok s" "upd_inode p (set_cookie_verf v) s = Some s'"
  shows "evolves s s'"
proof -
  obtain i where i: "heap s p = Some i" using assms(2) by (auto simp: upd_inode_def bind_eq_Some_conv)
  have "s' = s\<lparr>heap := (heap s)(p \<mapsto> set_cookie_verf v i)\<rparr>"
    using assms(2) i by (simp add: upd_inode_def)
  moreover have "i_count i \<le> 0" "settled i"
    using i icache_ok_D(6) [OF nfs_cache_ok_D(1) [OF assms(1)]] nfs_cache_ok_D(2) [OF assms(1)] by auto
  ultimately show ?thesis
    by (auto intro!: evolves_upd [OF assms(1) i] simp: same_file_def set_cookie_verf_def settled_def NFS_STALE_def)
qed

lemma evolves_iput:
  assumes "nfs_cache_ok s" "hsfs_iput sop p s = Some s'"
  shows "evolves s s'"
proof (cases "p = 0")
  case True
  then show ?thesis using assms by (simp add: hsfs_iput_def evolves_refl)
next
  case False
  then obtain i where i: "heap s p = Some i" "- (2 ^ 31) \<noteq> i_count i"
    using assms(2) by (auto simp: hsfs_iput_def bind_eq_Some_conv split: if_splits)
  have c: "i_count i \<le> 0" "settled i"
    using i icache_ok_D(6) [OF nfs_cache_ok_D(1) [OF assms(1)]] nfs_cache_ok_D(2) [OF assms(1)] by auto
  then have "s' = s\<lparr>heap := (heap s)(p \<mapsto> i\<lparr>i_count := i_count i - 1\<rparr>)\<rparr>"
    using assms(2) i False by (auto simp: hsfs_iput_def upd_inode_def)
  then show ?thesis
    using c by (auto intro!: evolves_upd [OF assms(1) i(1)] simp: same_file_def settled_def NFS_STALE_def)
qed

lemma evolves_fhget:
  assumes "world_ok W" "nfs_cache_ok s" "fh_ok f" "fhget W f fattr s = Some (p, s')"
  shows "evolves s s'"
proof (cases "usable fattr \<and> ((\<exists>q. caches s f fattr q) \<or> imalloc W s \<noteq> 0)")
  case False
  have b: "user_object (bad_inode W)" using assms(1) by (simp add: world_ok_def)
  have "\<exists>q. fhget W f fattr s = Some (q, s)"
  proof (cases "usable fattr")
    case True
    then show ?thesis using hsi_nfs_fhget_nomem [OF b assms(2,3) True, of "imalloc W"] False by blast
  qed (use hsi_nfs_fhget_unusable [OF b] in blast)
  then show ?thesis using assms(2,4) by (auto simp: evolves_refl)
next
  case True
  then show ?thesis
  proof (cases "\<exists>q. caches s f fattr q")
    case True
    then obtain q i where q: "caches s f fattr q" "heap s q = Some i" by (auto simp: caches_def)
    obtain r i' where r: "refresh fattr i = (r, i')" by fastforce
    have "nfs_refresh_inode q fattr s = Some (r, s\<lparr>heap := (heap s)(q \<mapsto> i')\<rparr>)"
      using q(2) r by (simp add: nfs_refresh_inode_def)
    moreover have "s' = s\<lparr>heap := (heap s)(q \<mapsto> i')\<rparr>"
      using hsi_nfs_fhget_hit [OF _ assms(2,3) _ q, of "bad_inode W" "hsi_nfs_sop (imalloc W)"] assms(1,4) r
        \<open>usable fattr \<and> _\<close> by (simp add: world_ok_def)
    ultimately show ?thesis using evolves_refresh [OF assms(2)] by simp
  next
    case no: False
    then have m: "imalloc W s \<noteq> 0" using True by blast
    have *: "user_object (bad_inode W)" "fresh_malloc (imalloc W)" "usable fattr"
      using assms(1) True by (auto simp: world_ok_def)
    obtain p' s1 where g: "fhget W f fattr s = Some (p', s1)" "got s f fattr p' s1"
      using hsi_nfs_fhget_got [OF *(1) assms(2,3) *(3,2) m] by blast
    then have "s1 = s'" using assms(4) by simp
    have "heap s p' = None" using g(2) no by (simp add: got_def)
    then have "heap s1 q = heap s q" if "heap s q = Some i" for q i
      using g(2) that by (metis got_def option.distinct(1))
    then show ?thesis using g(2) \<open>s1 = s'\<close> by (auto simp: evolves_def got_def)
  qed
qed


text \<open>The lookup counts, by address; no operation of this layer changes one, and a new inode starts
  with 0.\<close>

definition refs :: "'z hsfs_super_scheme \<Rightarrow> u64 \<Rightarrow> u64" where
  "refs s p = (case heap s p of None \<Rightarrow> 0 | Some i \<Rightarrow> i_private i)"

lemma refs_upd:
  "heap s p = Some i \<Longrightarrow> refs (s\<lparr>heap := (heap s)(p \<mapsto> i')\<rparr>) = (refs s)(p := i_private i')"
  by (auto simp: refs_def fun_eq_iff)

lemma refs_upd_same [simp]:
  "heap s p = Some i \<Longrightarrow> i_private i' = i_private i \<Longrightarrow> refs (s\<lparr>heap := (heap s)(p \<mapsto> i')\<rparr>) = refs s"
  by (auto simp: refs_def fun_eq_iff)

lemma refs_heap: "heap s' = heap s \<Longrightarrow> refs s' = refs s"
  by (simp add: refs_def fun_eq_iff)

definition quiet :: "'z hsfs_super_scheme \<Rightarrow> 'z hsfs_super_scheme \<Rightarrow> bool" where
  "quiet s s' \<longleftrightarrow> evolves s s' \<and> refs s' = refs s"

lemma quiet_trans: "quiet s s' \<Longrightarrow> quiet s' s'' \<Longrightarrow> quiet s s''"
  unfolding quiet_def using evolves_trans by auto

lemma quiet_ok: "quiet s s' \<Longrightarrow> nfs_cache_ok s'"
  unfolding quiet_def using evolves_ok by blast

lemma quiet_outside:
  "nfs_cache_ok s \<Longrightarrow> heap s' = heap s \<Longrightarrow> id_table s' = id_table s \<Longrightarrow> fh_table s' = fh_table s \<Longrightarrow> quiet s s'"
  unfolding quiet_def by (intro conjI evolves_outside refs_heap)

lemma quiet_core: "nfs_cache_ok s \<Longrightarrow> core s' = core s \<Longrightarrow> quiet s s'"
  using core_eqD [of s' s] by (intro quiet_outside) auto

lemma quiet_refresh:
  assumes "nfs_cache_ok s" "nfs_refresh_inode p fattr s = Some (r, s')"
  shows "quiet s s'"
proof -
  obtain i where i: "heap s p = Some i" using assms(2) by (auto simp: nfs_refresh_inode_def bind_eq_Some_conv)
  obtain r' i' where r: "refresh fattr i = (r', i')" by fastforce
  have "s' = s\<lparr>heap := (heap s)(p \<mapsto> i')\<rparr>"
    using assms(2) i r by (auto simp: nfs_refresh_inode_def)
  then show ?thesis
    using evolves_refresh [OF assms] i refresh_frame(7) [OF r] by (simp add: quiet_def)
qed

lemma quiet_cookie:
  assumes "nfs_cache_ok s" "upd_inode p (set_cookie_verf v) s = Some s'"
  shows "quiet s s'"
  using evolves_cookie [OF assms] assms(2)
  by (auto simp: quiet_def upd_inode_def set_cookie_verf_def bind_eq_Some_conv)

lemma quiet_iput:
  assumes "nfs_cache_ok s" "hsfs_iput sop p s = Some s'"
  shows "quiet s s'"
proof (cases "p = 0")
  case True
  then show ?thesis using assms by (simp add: hsfs_iput_def quiet_def evolves_refl)
next
  case False
  then obtain i where i: "heap s p = Some i" "- (2 ^ 31) \<noteq> i_count i"
    using assms(2) by (auto simp: hsfs_iput_def bind_eq_Some_conv split: if_splits)
  have "i_count i \<le> 0"
    using i icache_ok_D(6) [OF nfs_cache_ok_D(1) [OF assms(1)]] by auto
  then have "s' = s\<lparr>heap := (heap s)(p \<mapsto> i\<lparr>i_count := i_count i - 1\<rparr>)\<rparr>"
    using assms(2) i False by (auto simp: hsfs_iput_def upd_inode_def)
  then show ?thesis
    using evolves_iput [OF assms] i by (simp add: quiet_def)
qed

lemma quiet_fhget:
  assumes "world_ok W" "nfs_cache_ok s" "fh_ok f" "fhget W f fattr s = Some (p, s')"
  shows "quiet s s'"
proof -
  have b: "user_object (bad_inode W)" "fresh_malloc (imalloc W)" using assms(1) by (simp_all add: world_ok_def)
  have "refs s' = refs s"
  proof (cases "usable fattr")
    case u: True
    show ?thesis
    proof (cases "\<exists>q. caches s f fattr q")
      case True
      then obtain q i where q: "caches s f fattr q" "heap s q = Some i" by (auto simp: caches_def)
      obtain r i' where r: "refresh fattr i = (r, i')" by fastforce
      show ?thesis
        using hsi_nfs_fhget_hit [OF b(1) assms(2,3) u q, of "hsi_nfs_sop (imalloc W)"] assms(4) q(2) r
          refresh_frame(7) [OF r] by auto
    next
      case no: False
      obtain k where k: "free_round s k"
        using free_round_exists [OF nfs_cache_ok_D(1) [OF assms(2)]] by blast
      show ?thesis
      proof (cases "imalloc W s = 0")
        case True
        then show ?thesis using hsi_nfs_fhget_nomem [where malloc = "imalloc W", OF b(1) assms(2,3) u no True] assms(4) by simp
      next
        case False
        then have h: "heap s (imalloc W s) = None" using b(2) by (simp add: fresh_malloc_def)
        show ?thesis
          using hsi_nfs_fhget_miss [where malloc = "imalloc W", OF b(1) assms(2,3) u no False h k] assms(4) h
          by (auto simp: with_inode_def refs_def fun_eq_iff new_inode_def fill_new_def set_nfs_fileid_def
              hsfs_unlock_new_inode_def inode_init_always_def zero_nfs_inode_def Let_def)
      qed
    qed
  qed (use hsi_nfs_fhget_unusable [OF b(1), of fattr "hsi_nfs_sop (imalloc W)" f s] assms(4) in simp)
  then show ?thesis using evolves_fhget [OF assms] by (simp add: quiet_def)
qed

section \<open>Steps of an operation\<close>

lemma openclnt_core: "hsi_mnt_openclnt lib addr m n s = ((c, a), s') \<Longrightarrow> core s' = core s"
  using openclnt_ok by blast

lemma clnt_create_core: "hsi_nfs3_clnt_create lib addr m n s = Some ((c, a), s') \<Longrightarrow> core s' = core s"
  using clnt_create_ok [of lib addr m n s] by auto

lemma reconnect_core: "hsi_nfs3_clnt_reconnect lib clnt s = Some (c, s') \<Longrightarrow> core s' = core s"
  by (auto simp: hsi_nfs3_clnt_reconnect_def hsi_mnt_closeclnt_def bind_eq_Some_conv Let_def
      dest!: clnt_create_core split: if_splits)

lemma clnt_call_retry_core:
  "clnt_call_retry lib proc args rtry clnt s = Some (r, s') \<Longrightarrow> core s' = core s"
proof (induction "5 - rtry" arbitrary: rtry clnt s rule: less_induct)
  case less
  obtain r1 s1 where call: "clnt_call proc clnt args s = Some (r1, s1)"
    using less.prems by (subst (asm) clnt_call_retry.simps) (auto split: option.splits)
  have c1: "core s1 = core s"
    using call by (auto simp: clnt_call_def split: if_splits prod.splits)
  have IH: "clnt_call_retry lib proc args (rtry + 1) c t = Some (r, s') \<Longrightarrow> rtry < 5 \<Longrightarrow> core s' = core t" for c t
    by (rule less.hyps [of "rtry + 1"]) auto
  show ?case
    using less.prems c1 IH [of clnt s1] IH reconnect_core [of lib clnt s1]
    unfolding clnt_call_retry_cases [OF call]
    by (auto simp: Let_def bind_eq_Some_conv split: sum.splits if_splits)
qed

lemma clnt_call_core: "hsi_nfs3_clnt_call lib proc clnt args s = Some (r, s') \<Longrightarrow> core s' = core s"
  unfolding hsi_nfs3_clnt_call_def by (rule clnt_call_retry_core)

text \<open>\<open>ev W s0 s\<close>: an operation that began in \<open>s0\<close> has got to \<open>s\<close>.  Each step of an operation carries it on.\<close>

definition ev :: "'e world \<Rightarrow> 'e hsfs_st \<Rightarrow> 'e hsfs_st \<Rightarrow> bool" where
  "ev W s0 s \<longleftrightarrow> world_ok W \<and> quiet s0 s"

lemma ev_start: "world_ok W \<Longrightarrow> nfs_cache_ok s \<Longrightarrow> ev W s s"
  by (simp add: ev_def quiet_def evolves_refl)

lemma ev_step: "ev W s0 s \<Longrightarrow> (nfs_cache_ok s \<Longrightarrow> quiet s s') \<Longrightarrow> ev W s0 s'"
  unfolding ev_def using quiet_trans quiet_ok by blast

abbreviation evs :: "'e world \<Rightarrow> 'e hsfs_st \<Rightarrow> ('r \<times> 'e hsfs_st) option \<Rightarrow> bool" where
  "evs W s0 m \<equiv> pres (\<lambda>x. ev W s0 (snd x)) m"

abbreviation evt :: "'e world \<Rightarrow> 'e hsfs_st \<Rightarrow> 'e hsfs_st option \<Rightarrow> bool" where
  "evt W s0 m \<equiv> pres (ev W s0) m"

lemma evs_bind: "evs W s0 m \<Longrightarrow> (\<And>x. ev W s0 (snd x) \<Longrightarrow> pres P (f x)) \<Longrightarrow> pres P (Option.bind m f)"
  by (cases m) (simp_all add: pres_def)

lemma evt_bind: "evt W s0 m \<Longrightarrow> (\<And>s. ev W s0 s \<Longrightarrow> pres P (f s)) \<Longrightarrow> pres P (Option.bind m f)"
  by (cases m) (simp_all add: pres_def)

text \<open>The rules that walk through an operation: a step that returns a state carries \<open>ev\<close> on, any other
  step leaves its equation.\<close>

lemmas ev_walk = evs_bind evt_bind pres_intros

named_theorems ev_intros

lemma evsI:
  assumes "ev W s0 s" "\<And>r s'. world_ok W \<Longrightarrow> nfs_cache_ok s \<Longrightarrow> m = Some (r, s') \<Longrightarrow> quiet s s'"
  shows "evs W s0 m"
  unfolding pres_def
proof (intro allI impI)
  fix x
  assume "m = Some x"
  then have "world_ok W \<Longrightarrow> nfs_cache_ok s \<Longrightarrow> quiet s (snd x)" using assms(2) [of "fst x" "snd x"] by simp
  then show "ev W s0 (snd x)" using assms(1) ev_step [OF assms(1)] by (auto simp: ev_def)
qed

lemma evtI:
  assumes "ev W s0 s" "\<And>s'. nfs_cache_ok s \<Longrightarrow> m = Some s' \<Longrightarrow> quiet s s'"
  shows "evt W s0 m"
  unfolding pres_def using ev_step [OF assms(1)] assms(2) by blast

lemma evs_call [ev_intros]: "ev W s0 s \<Longrightarrow> evs W s0 (hsi_nfs3_clnt_call lib proc clnt args s)"
  by (erule evsI) (blast intro: quiet_core clnt_call_core)

lemma evs_fhget [ev_intros]: "ev W s0 s \<Longrightarrow> fh_ok f \<Longrightarrow> evs W s0 (fhget W f fattr s)"
  by (erule evsI) (rule quiet_fhget)

lemma evs_refresh [ev_intros]: "ev W s0 s \<Longrightarrow> evs W s0 (nfs_refresh_inode p fattr s)"
  by (erule evsI) (rule quiet_refresh)

lemma evt_cookie [ev_intros]: "ev W s0 s \<Longrightarrow> evt W s0 (upd_inode p (set_cookie_verf v) s)"
  by (erule evtI) (rule quiet_cookie)

lemma evt_iput [ev_intros]: "ev W s0 s \<Longrightarrow> evt W s0 (hsfs_iput sop p s)"
  by (erule evtI) (rule quiet_iput)

lemma copy_fh3_ok: "nfs_copy_fh3 zero_fh n d = Some f \<Longrightarrow> fh_ok f"
  by (auto simp: nfs_copy_fh3_def memcpy_def bind_eq_Some_conv fh_ok_def zero_fh_def unsigned_of_nat
      take_bit_nat_eq_self split: if_splits)

lemma evs_handle_create [ev_intros]: "ev W s0 s \<Longrightarrow> evs W s0 (hsi_nfs3_handle_create W d s)"
  unfolding hsi_nfs3_handle_create_def
  by (intro ev_walk) (auto intro: ev_intros copy_fh3_ok)

section \<open>The contract\<close>

locale file_op =
  fixes W :: "'e world" and op :: "'e hsfs_st \<Rightarrow> ('r \<times> 'e hsfs_st) option"
  assumes op_ev: "ev W s0 s \<Longrightarrow> evs W s0 (op s)"
begin

lemma op_quiet: "world_ok W \<Longrightarrow> nfs_cache_ok s \<Longrightarrow> op s = Some (r, s') \<Longrightarrow> quiet s s'"
  using presD [OF op_ev [OF ev_start], of s "(r, s')"] by (simp add: ev_def)

lemma op_evolves: "world_ok W \<Longrightarrow> nfs_cache_ok s \<Longrightarrow> op s = Some (r, s') \<Longrightarrow> evolves s s'"
  using op_quiet unfolding quiet_def by blast

lemma op_keeps_file:
  "world_ok W \<Longrightarrow> nfs_cache_ok s \<Longrightarrow> op s = Some (r, s') \<Longrightarrow> heap s p = Some i \<Longrightarrow>
   \<exists>j. heap s' p = Some j \<and> same_file i j"
  using op_evolves unfolding evolves_def by blast

lemma op_ilookup:
  assumes "world_ok W" "nfs_cache_ok s" "op s = Some (r, s')" "hsfs_ilookup s n = Some p" "p \<noteq> 0"
  shows "hsfs_ilookup s' n = Some p"
proof -
  obtain i where i: "heap s p = Some i" "ino i = n"
    using assms(4,5) ilookup_iff [OF nfs_cache_ok_D(1) [OF assms(2)]] by blast
  obtain j where j: "heap s' p = Some j" "same_file i j"
    using op_keeps_file [OF assms(1-3) i(1)] by blast
  have "icache_ok s'" using op_evolves [OF assms(1-3)] evolves_ok nfs_cache_ok_D(1) by blast
  then show ?thesis using i(2) j assms(5) by (simp add: ilookup_iff same_file_def)
qed

end


section \<open>The operations\<close>

lemma evs_do_getattr [ev_intros]: "ev W s0 s \<Longrightarrow> evs W s0 (hsi_nfs3_do_getattr W f fa st s)"
  unfolding hsi_nfs3_do_getattr_def
  by (intro ev_walk) (auto intro: ev_intros copy_fh3_ok)

lemma evs_getattr [ev_intros]: "ev W s0 s \<Longrightarrow> evs W s0 (hsi_nfs3_getattr W p st s)"
  unfolding hsi_nfs3_getattr_def
  by (intro ev_walk) (auto intro: ev_intros copy_fh3_ok)

lemma evs_setattr3 [ev_intros]: "ev W s0 s \<Longrightarrow> evs W s0 (hsi_nfs3_setattr W p a s)"
  unfolding hsi_nfs3_setattr_def
  by (intro ev_walk) (auto intro: ev_intros copy_fh3_ok)

lemma evs_setattr [ev_intros]: "ev W s0 s \<Longrightarrow> evs W s0 (setattr_inode W p a s)"
  unfolding setattr_inode_def hsi_nfs_setattr_def
  by (intro ev_walk) (auto intro: ev_intros copy_fh3_ok)

lemma evt_free_ctx [ev_intros]: "ev W s0 s \<Longrightarrow> evt W s0 (free_ctx W cs s)"
proof (induction cs arbitrary: s)
  case (Cons c cs)
  show ?case unfolding free_ctx.simps
    by (intro ev_walk) (use Cons in \<open>auto intro: ev_intros\<close>)
qed (auto intro: pres_intros)

lemma evs_copy_entries_plus [ev_intros]: "ev W s0 s \<Longrightarrow> evs W s0 (copy_entries_plus W xs acc s)"
proof (induction xs arbitrary: acc s)
  case (Cons x xs)
  show ?case unfolding copy_entries_plus.simps
    by (intro ev_walk) (use Cons in \<open>auto intro: ev_intros copy_fh3_ok\<close>)
qed (auto intro: pres_intros)

lemma ev_outside:
  "ev W s0 s \<Longrightarrow> heap s' = heap s \<Longrightarrow> id_table s' = id_table s \<Longrightarrow> fh_table s' = fh_table s \<Longrightarrow> ev W s0 s'"
  by (erule ev_step) (auto intro: quiet_outside)

lemma fsinfo_to_super_frame:
  "heap (hsi_fsinfo_to_super pg fi s) = heap s" "id_table (hsi_fsinfo_to_super pg fi s) = id_table s"
  "fh_table (hsi_fsinfo_to_super pg fi s) = fh_table s" "curr_id (hsi_fsinfo_to_super pg fi s) = curr_id s"
  "bsize_bits (hsi_fsinfo_to_super pg fi s) = bsize_bits s"
  by (simp_all add: hsi_fsinfo_to_super_def Let_def)

lemma ev_fsinfo_to_super [ev_intros]: "ev W s0 s \<Longrightarrow> ev W s0 (hsi_fsinfo_to_super pg fi s)"
  by (erule ev_outside) (simp_all add: fsinfo_to_super_frame)

lemma ev_super_fields [ev_intros]:
  "ev W s0 s \<Longrightarrow> ev W s0 (s\<lparr>tbytes := a, fbytes := b, abytes := c, tfiles := d, ffiles := e, afiles := f\<rparr>)"
  "ev W s0 s \<Longrightarrow> ev W s0 (s\<lparr>namlen := n\<rparr>)"
  by (auto elim: ev_outside)

lemma evs_lookup [ev_intros]: "ev W s0 s \<Longrightarrow> evs W s0 (hsi_nfs3_lookup W p n s)"
  unfolding hsi_nfs3_lookup_def
  by (intro ev_walk) (auto intro: ev_intros copy_fh3_ok)

lemma evs_access [ev_intros]: "ev W s0 s \<Longrightarrow> evs W s0 (hsi_nfs3_access W p m s)"
  unfolding hsi_nfs3_access_def
  by (intro ev_walk) (auto intro: ev_intros copy_fh3_ok)

lemma evs_readlink [ev_intros]: "ev W s0 s \<Longrightarrow> evs W s0 (hsi_nfs3_readlink W p s)"
  unfolding hsi_nfs3_readlink_def
  by (intro ev_walk) (auto intro: ev_intros copy_fh3_ok)

lemma evs_create [ev_intros]: "ev W s0 s \<Longrightarrow> evs W s0 (hsi_nfs3_create W p n m s)"
  unfolding hsi_nfs3_create_def
  by (intro ev_walk) (auto intro: ev_intros copy_fh3_ok)

lemma evs_mkdir [ev_intros]: "ev W s0 s \<Longrightarrow> evs W s0 (hsi_nfs3_mkdir W p n m s)"
  unfolding hsi_nfs3_mkdir_def
  by (intro ev_walk) (auto intro: ev_intros copy_fh3_ok)

lemma evs_symlink [ev_intros]: "ev W s0 s \<Longrightarrow> evs W s0 (hsi_nfs3_symlink W p l n s)"
  unfolding hsi_nfs3_symlink_def
  by (intro ev_walk) (auto intro: ev_intros copy_fh3_ok)

lemma evs_mknod [ev_intros]: "ev W s0 s \<Longrightarrow> evs W s0 (hsi_nfs3_mknod W p n m d s)"
  unfolding hsi_nfs3_mknod_def
  by (intro ev_walk) (auto intro: ev_intros copy_fh3_ok)

lemma evs_unlink [ev_intros]: "ev W s0 s \<Longrightarrow> evs W s0 (hsi_nfs3_unlink W p n s)"
  unfolding hsi_nfs3_unlink_def
  by (intro ev_walk) (auto intro: ev_intros copy_fh3_ok)

lemma evs_rmdir [ev_intros]: "ev W s0 s \<Longrightarrow> evs W s0 (hsi_nfs3_rmdir W p n s)"
  unfolding hsi_nfs3_rmdir_def
  by (intro ev_walk) (auto intro: ev_intros copy_fh3_ok)

lemma evs_rename [ev_intros]: "ev W s0 s \<Longrightarrow> evs W s0 (hsi_nfs3_rename W p n q m s)"
  unfolding hsi_nfs3_rename_def
  by (intro ev_walk) (auto intro: ev_intros copy_fh3_ok)

lemma evs_link [ev_intros]: "ev W s0 s \<Longrightarrow> evs W s0 (hsi_nfs3_link W p q n s)"
  unfolding hsi_nfs3_link_def
  by (intro ev_walk) (auto intro: ev_intros copy_fh3_ok)

lemma evs_read [ev_intros]: "ev W s0 s \<Longrightarrow> evs W s0 (hsi_nfs3_read W p off sz room s)"
  unfolding hsi_nfs3_read_def
  by (intro ev_walk) (auto intro: ev_intros copy_fh3_ok)

lemma evs_write [ev_intros]: "ev W s0 s \<Longrightarrow> evs W s0 (hsi_nfs3_write W p off sz how bytes s)"
  unfolding hsi_nfs3_write_def
  by (intro ev_walk) (auto intro: ev_intros copy_fh3_ok)

lemma evs_readdir [ev_intros]: "ev W s0 s \<Longrightarrow> evs W s0 (hsi_nfs3_readdir W p n c s)"
  unfolding hsi_nfs3_readdir_def
  by (intro ev_walk) (auto intro: ev_intros copy_fh3_ok)

lemma evs_readdir_plus [ev_intros]: "ev W s0 s \<Longrightarrow> evs W s0 (hsi_nfs3_readdir_plus W p n c m s)"
  unfolding hsi_nfs3_readdir_plus_def
  by (intro ev_walk) (auto intro: ev_intros copy_fh3_ok)

lemma evs_statfs [ev_intros]: "ev W s0 s \<Longrightarrow> evs W s0 (hsi_nfs3_statfs W p s)"
  unfolding hsi_nfs3_statfs_def
  by (intro ev_walk) (auto intro: ev_intros copy_fh3_ok)

lemma evs_pathconf [ev_intros]: "ev W s0 s \<Longrightarrow> evs W s0 (hsi_nfs3_pathconf W p s)"
  unfolding hsi_nfs3_pathconf_def
  by (intro ev_walk) (auto intro: ev_intros copy_fh3_ok)

lemma evs_fsinfo [ev_intros]: "ev W s0 s \<Longrightarrow> evs W s0 (hsi_nfs3_fsinfo W f fa s)"
  unfolding hsi_nfs3_fsinfo_def
  by (intro ev_walk) (auto intro: ev_intros copy_fh3_ok)

interpretation op_getattr: file_op W "hsi_nfs3_getattr W p st"
  by unfold_locales (rule evs_getattr)

interpretation op_setattr: file_op W "setattr_inode W p a"
  by unfold_locales (rule evs_setattr)

interpretation op_lookup: file_op W "hsi_nfs3_lookup W p n"
  by unfold_locales (rule evs_lookup)

interpretation op_access: file_op W "hsi_nfs3_access W p m"
  by unfold_locales (rule evs_access)

interpretation op_readlink: file_op W "hsi_nfs3_readlink W p"
  by unfold_locales (rule evs_readlink)

interpretation op_create: file_op W "hsi_nfs3_create W p n m"
  by unfold_locales (rule evs_create)

interpretation op_mkdir: file_op W "hsi_nfs3_mkdir W p n m"
  by unfold_locales (rule evs_mkdir)

interpretation op_symlink: file_op W "hsi_nfs3_symlink W p l n"
  by unfold_locales (rule evs_symlink)

interpretation op_mknod: file_op W "hsi_nfs3_mknod W p n m d"
  by unfold_locales (rule evs_mknod)

interpretation op_unlink: file_op W "hsi_nfs3_unlink W p n"
  by unfold_locales (rule evs_unlink)

interpretation op_rmdir: file_op W "hsi_nfs3_rmdir W p n"
  by unfold_locales (rule evs_rmdir)

interpretation op_rename: file_op W "hsi_nfs3_rename W p n q m"
  by unfold_locales (rule evs_rename)

interpretation op_link: file_op W "hsi_nfs3_link W p q n"
  by unfold_locales (rule evs_link)

interpretation op_read: file_op W "hsi_nfs3_read W p off sz room"
  by unfold_locales (rule evs_read)

interpretation op_write: file_op W "hsi_nfs3_write W p off sz how bytes"
  by unfold_locales (rule evs_write)

interpretation op_readdir: file_op W "hsi_nfs3_readdir W p n c"
  by unfold_locales (rule evs_readdir)

interpretation op_readdir_plus: file_op W "hsi_nfs3_readdir_plus W p n c m"
  by unfold_locales (rule evs_readdir_plus)

interpretation op_statfs: file_op W "hsi_nfs3_statfs W p"
  by unfold_locales (rule evs_statfs)

interpretation op_pathconf: file_op W "hsi_nfs3_pathconf W p"
  by unfold_locales (rule evs_pathconf)

interpretation op_fsinfo: file_op W "hsi_nfs3_fsinfo W f fa"
  by unfold_locales (rule evs_fsinfo)

end
