(* ===== verification/Fuse_Ops.thy ===== *)
theory Fuse_Ops
  imports Nfs3_Inv
begin

text \<open>
  The request handlers of fuse/hsx_fuse_*.c.  A handler returns the replies it sends, in order, and the
  state; a correct handler sends exactly one.  \<open>fuse_req_userdata\<close> is the super block the session was
  created with, so the branches for a null super block are left out.  The lookup count that the kernel
  and the client keep for an inode is its field \<open>i_private\<close>.
\<close>

section \<open>Replies\<close>

record entry_param =
  e_ino :: u64
  e_generation :: u64
  e_attr :: stat
  e_attr_timeout :: int
  e_entry_timeout :: int

record statvfs =
  f_bsize :: u64
  f_frsize :: u64
  f_blocks :: u64
  f_bfree :: u64
  f_bavail :: u64
  f_files :: u64
  f_ffree :: u64
  f_favail :: u64
  f_fsid :: u64
  f_flag :: u64
  f_namemax :: u64

datatype reply =
    ReplyErr int
  | ReplyEntry entry_param
  | ReplyCreate entry_param
  | ReplyAttr stat int
  | ReplyReadlink string
  | ReplyOpen
  | ReplyBuf "u8 list"
  | ReplyDir "readdir_ctx list" nat
  | ReplyDirPlus "(readdir_ctx \<times> entry_param) list" nat
  | ReplyWrite u64
  | ReplyStatfs statvfs
  | ReplyXattr nat
  | ReplyNone

type_synonym 'e handler = "'e hsfs_st \<Rightarrow> (reply list \<times> 'e hsfs_st) option"

definition hsx_fuse_fill_reply :: "u64 \<Rightarrow> 'e hsfs_st \<Rightarrow> entry_param option" where
  "hsx_fuse_fill_reply p s =
     do { i \<leftarrow> heap s p;
          st \<leftarrow> hsfs_generic_fillattr i;
          Some \<lparr>e_ino = ino i, e_generation = 0, e_attr = st, e_attr_timeout = acdirmin s,
                e_entry_timeout = acregmin s\<rparr> }"

section \<open>Lookup counts\<close>

definition hsx_fuse_ref_xchg :: "u64 \<Rightarrow> u64 \<Rightarrow> 'e hsfs_st \<Rightarrow> (u64 \<times> 'e hsfs_st) option" where
  "hsx_fuse_ref_xchg p val s =
     do { i \<leftarrow> heap s p;
          s \<leftarrow> upd_inode p (\<lambda>i. i\<lparr>i_private := val\<rparr>) s;
          Some (i_private i, s) }"

definition hsx_fuse_ref_inc :: "u64 \<Rightarrow> u64 \<Rightarrow> 'e hsfs_st \<Rightarrow> (u64 \<times> 'e hsfs_st) option" where
  "hsx_fuse_ref_inc p val s =
     do { i \<leftarrow> heap s p;
          s \<leftarrow> upd_inode p (\<lambda>i. i\<lparr>i_private := i_private i + val\<rparr>) s;
          Some (i_private i + val, s) }"

text \<open>The assertion \<open>val <= inode->private\<close> failing is a fault.\<close>

definition hsx_fuse_ref_dec :: "u64 \<Rightarrow> u64 \<Rightarrow> 'e hsfs_st \<Rightarrow> (u64 \<times> 'e hsfs_st) option" where
  "hsx_fuse_ref_dec p val s =
     do { i \<leftarrow> heap s p;
          if val \<le> i_private i then
            do { s \<leftarrow> upd_inode p (\<lambda>i. i\<lparr>i_private := i_private i - val\<rparr>) s;
                 Some (i_private i - val, s) }
          else None }"

text \<open>\<open>FUSE_ASSERT\<close>\<close>

definition FUSE_ASSERT :: "bool \<Rightarrow> unit option" where
  "FUSE_ASSERT b = (if b then Some () else None)"

text \<open>The common end of create, mkdir, mknod and symlink: the object must be new to the kernel.\<close>

definition reply_new :: "(entry_param \<Rightarrow> reply) \<Rightarrow> u64 \<Rightarrow> 'e handler" where
  "reply_new mk new s =
     do { (ref, s) \<leftarrow> hsx_fuse_ref_xchg new 1 s;
          _ \<leftarrow> FUSE_ASSERT (ref = 0);
          e \<leftarrow> hsx_fuse_fill_reply new s;
          Some ([mk e], s) }"

section \<open>Handlers on names\<close>

definition hsx_fuse_lookup :: "'e world \<Rightarrow> u64 \<Rightarrow> string \<Rightarrow> 'e handler" where
  "hsx_fuse_lookup W n name s =
     do { parent \<leftarrow> hsfs_ilookup s n;
          if parent = 0 then Some ([ReplyErr ENOENT], s)
          else do {
            ((err, child), s) \<leftarrow> hsi_nfs3_lookup W parent name s;
            if err \<noteq> 0 then Some ([ReplyErr err], s)
            else do {
              child \<leftarrow> child;
              if child = 0 then Some ([ReplyErr ENOMEM], s)
              else do {
                (_, s) \<leftarrow> hsx_fuse_ref_inc child 1 s;
                e \<leftarrow> hsx_fuse_fill_reply child s;
                Some ([ReplyEntry e], s) } } } }"

definition hsx_fuse_forget :: "'e world \<Rightarrow> u64 \<Rightarrow> u64 \<Rightarrow> 'e handler" where
  "hsx_fuse_forget W n nlookup s =
     do { p \<leftarrow> hsfs_ilookup s n;
          _ \<leftarrow> FUSE_ASSERT (p \<noteq> 0);
          (rest, s) \<leftarrow> hsx_fuse_ref_dec p nlookup s;
          s \<leftarrow> (if rest = 0 then hsfs_iput (hsi_nfs_sop (imalloc W)) p s else Some s);
          Some ([ReplyNone], s) }"

abbreviation R_OK :: u32 where "R_OK \<equiv> 4"
abbreviation W_OK :: u32 where "W_OK \<equiv> 2"
abbreviation X_OK :: u32 where "X_OK \<equiv> 1"
abbreviation ACCESS3_READ :: u32 where "ACCESS3_READ \<equiv> 0x1"
abbreviation ACCESS3_LOOKUP :: u32 where "ACCESS3_LOOKUP \<equiv> 0x2"
abbreviation ACCESS3_MODIFY :: u32 where "ACCESS3_MODIFY \<equiv> 0x4"
abbreviation ACCESS3_EXTEND :: u32 where "ACCESS3_EXTEND \<equiv> 0x8"
abbreviation ACCESS3_DELETE :: u32 where "ACCESS3_DELETE \<equiv> 0x10"
abbreviation ACCESS3_EXECUTE :: u32 where "ACCESS3_EXECUTE \<equiv> 0x20"

definition access_mode :: "bool \<Rightarrow> u32 \<Rightarrow> u32" where
  "access_mode dir m =
     (let mode = (if has m R_OK then ACCESS3_READ else 0) in
      if dir then
        let mode = (if has m W_OK then mode OR ACCESS3_MODIFY OR ACCESS3_EXTEND OR ACCESS3_DELETE else mode)
        in if has m X_OK then mode OR ACCESS3_LOOKUP else mode
      else
        let mode = (if has m W_OK then mode OR ACCESS3_MODIFY OR ACCESS3_EXTEND else mode)
        in if has m X_OK then mode OR ACCESS3_EXECUTE else mode)"

definition hsx_fuse_access :: "'e world \<Rightarrow> u64 \<Rightarrow> u32 \<Rightarrow> 'e handler" where
  "hsx_fuse_access W n m s =
     do { hi \<leftarrow> hsfs_ilookup s n;
          if hi = 0 then Some ([], s)
          else do {
            i \<leftarrow> heap s hi;
            (err, s) \<leftarrow> hsi_nfs3_access W hi (access_mode (S_ISDIR (i_mode i)) m) s;
            Some ([ReplyErr err], s) } }"

abbreviation O_EXCL :: u32 where "O_EXCL \<equiv> 0x80"
abbreviation O_TRUNC :: u32 where "O_TRUNC \<equiv> 0x200"

definition create_mode :: "u32 \<Rightarrow> u32 \<Rightarrow> u32" where
  "create_mode mode open_flags =
     (let mymode = (mode AND 0x7) OR (mode AND 0x38) OR (mode AND 0x1c0) in
      if has open_flags O_EXCL then mymode OR 0x20000
      else if has open_flags O_TRUNC then mymode OR 0x10000 else mymode)"

text \<open>The owner of the caller (\<open>fuse_req_ctx\<close>) is written into the cached parent.\<close>

definition hsx_fuse_create :: "'e world \<Rightarrow> u32 \<Rightarrow> u32 \<Rightarrow> u64 \<Rightarrow> string \<Rightarrow> u32 \<Rightarrow> u32 \<Rightarrow> 'e handler" where
  "hsx_fuse_create W uid gid parent name mode open_flags s =
     do { hi \<leftarrow> hsfs_ilookup s parent;
          if hi = 0 then Some ([], s)
          else do {
            s \<leftarrow> upd_inode hi (\<lambda>i. i\<lparr>iattr := (iattr i)\<lparr>ia_uid := uid, ia_gid := gid\<rparr>\<rparr>) s;
            ((err, new), s) \<leftarrow> hsi_nfs3_create W hi name (create_mode mode open_flags) s;
            if err \<noteq> 0 then Some ([ReplyErr err], s)
            else
              let newhi = (case new of Some p \<Rightarrow> p | None \<Rightarrow> 0) in
              if newhi = 0 then Some ([ReplyErr ENOMEM], s)
              else reply_new ReplyCreate newhi s } }"

definition hsx_fuse_mkdir :: "'e world \<Rightarrow> u64 \<Rightarrow> string \<Rightarrow> u32 \<Rightarrow> 'e handler" where
  "hsx_fuse_mkdir W parent name mode s =
     do { hi \<leftarrow> hsfs_ilookup s parent;
          if hi = 0 then Some ([], s)
          else do {
            ((err, new), s) \<leftarrow> hsi_nfs3_mkdir W hi name mode s;
            if err \<noteq> 0 then Some ([ReplyErr err], s)
            else
              let new = (case new of Some p \<Rightarrow> p | None \<Rightarrow> 0) in
              if new = 0 then Some ([ReplyErr ENOMEM], s)
              else reply_new ReplyEntry new s } }"

definition hsx_fuse_mknod :: "'e world \<Rightarrow> u64 \<Rightarrow> string \<Rightarrow> u32 \<Rightarrow> u64 \<Rightarrow> 'e handler" where
  "hsx_fuse_mknod W parent name mode rdev s =
     do { p \<leftarrow> hsfs_ilookup s parent;
          if p = 0 then Some ([ReplyErr ENOENT], s)
          else do {
            ((err, new), s) \<leftarrow> hsi_nfs3_mknod W p name mode rdev s;
            if err \<noteq> 0 then Some ([ReplyErr err], s)
            else
              let new = (case new of Some p \<Rightarrow> p | None \<Rightarrow> 0) in
              if new = 0 then Some ([ReplyErr ENOMEM], s)
              else reply_new ReplyEntry new s } }"

definition hsx_fuse_symlink :: "'e world \<Rightarrow> string \<Rightarrow> u64 \<Rightarrow> string \<Rightarrow> 'e handler" where
  "hsx_fuse_symlink W link parent name s =
     do { p \<leftarrow> hsfs_ilookup s parent;
          if p = 0 then Some ([ReplyErr ENOENT], s)
          else do {
            ((err, new), s) \<leftarrow> hsi_nfs3_symlink W p link name s;
            if err \<noteq> 0 then Some ([ReplyErr err], s)
            else
              let new = (case new of Some p \<Rightarrow> p | None \<Rightarrow> 0) in
              if new = 0 then Some ([ReplyErr ENOMEM], s)
              else reply_new ReplyEntry new s } }"

text \<open>Kernel and libfuse never pass a null name, so only the other checks of names are modelled.\<close>

definition hsx_fuse_unlink :: "'e world \<Rightarrow> u64 \<Rightarrow> string \<Rightarrow> 'e handler" where
  "hsx_fuse_unlink W parent name s =
     (if name = [] then Some ([ReplyErr EINVAL], s)
      else if length name > NAME_MAX then Some ([ReplyErr ENAMETOOLONG], s)
      else do {
        hi \<leftarrow> hsfs_ilookup s parent;
        if hi = 0 then Some ([ReplyErr ENOENT], s)
        else do { (err, s) \<leftarrow> hsi_nfs3_unlink W hi name s; Some ([ReplyErr err], s) } })"

definition hsx_fuse_rmdir :: "'e world \<Rightarrow> u64 \<Rightarrow> string \<Rightarrow> 'e handler" where
  "hsx_fuse_rmdir W parent name s =
     do { hi \<leftarrow> hsfs_ilookup s parent;
          if hi = 0 then Some ([], s)
          else do { (err, s) \<leftarrow> hsi_nfs3_rmdir W hi name s; Some ([ReplyErr err], s) } }"

definition hsx_fuse_rename :: "'e world \<Rightarrow> u64 \<Rightarrow> string \<Rightarrow> u64 \<Rightarrow> string \<Rightarrow> u32 \<Rightarrow> 'e handler" where
  "hsx_fuse_rename W parent name newparent newname fl s =
     (if fl \<noteq> 0 then Some ([ReplyErr EINVAL], s)
      else if name = [] then Some ([ReplyErr EINVAL], s)
      else if newname = [] then Some ([ReplyErr EINVAL], s)
      else if length name > NAME_MAX then Some ([ReplyErr ENAMETOOLONG], s)
      else if length newname > NAME_MAX then Some ([ReplyErr ENAMETOOLONG], s)
      else do {
        hi \<leftarrow> hsfs_ilookup s parent;
        if hi = 0 then Some ([ReplyErr ENOENT], s)
        else do {
          newhi \<leftarrow> hsfs_ilookup s newparent;
          if newhi = 0 then Some ([ReplyErr ENOENT], s)
          else do { (err, s) \<leftarrow> hsi_nfs3_rename W hi name newhi newname s; Some ([ReplyErr err], s) } } })"

abbreviation sizeof_entry_param :: nat where "sizeof_entry_param \<equiv> 176"

text \<open>The lookup count of the inode is left as it was.\<close>

definition hsx_fuse_link :: "'e world \<Rightarrow> u64 \<Rightarrow> u64 \<Rightarrow> string \<Rightarrow> 'e handler" where
  "hsx_fuse_link W n newparent newname s =
     do { parent \<leftarrow> hsfs_ilookup s newparent;
          if parent = 0 then Some ([], s)
          else do {
            inop \<leftarrow> hsfs_ilookup s n;
            if inop = 0 then Some ([], s)
            else do {
              (err, s) \<leftarrow> hsi_nfs3_link W inop parent newname s;
              if err = 0 then
                if \<not> mem_ok W sizeof_entry_param (env s) then Some ([ReplyErr ENOMEM], s)
                else do { e \<leftarrow> hsx_fuse_fill_reply inop s; Some ([ReplyEntry e], s) }
              else Some ([ReplyErr err], s) } } }"

text \<open>\<open>fuse_reply_readlink\<close> takes the length of its argument, which must not be \<open>NULL\<close>.\<close>

definition hsx_fuse_readlink :: "'e world \<Rightarrow> u64 \<Rightarrow> 'e handler" where
  "hsx_fuse_readlink W n s =
     do { hi \<leftarrow> hsfs_ilookup s n;
          if hi = 0 then Some ([], s)
          else do {
            ((st, link), s) \<leftarrow> hsi_nfs3_readlink W hi s;
            if st \<noteq> 0 then Some ([ReplyErr st], s)
            else do { l \<leftarrow> link; Some ([ReplyReadlink l], s) } } }"

section \<open>Handlers on attributes\<close>

definition zero_stat :: stat where
  "zero_stat = \<lparr>st_ino = 0, st_mode = 0, st_nlink = 0, st_uid = 0, st_gid = 0, st_rdev = 0,
     st_atim = zero_timespec, st_mtim = zero_timespec, st_ctim = zero_timespec, st_size = 0,
     st_blocks = 0, st_blksize = 0\<rparr>"

definition attr_timeout :: "nfs_inode \<Rightarrow> 'e hsfs_st \<Rightarrow> int" where
  "attr_timeout i s = (if S_ISDIR (i_mode i) then acdirmin s else acregmin s)"

definition hsx_fuse_getattr :: "'e world \<Rightarrow> u64 \<Rightarrow> 'e handler" where
  "hsx_fuse_getattr W n s =
     do { p \<leftarrow> hsfs_ilookup s n;
          if p = 0 then Some ([ReplyErr ENOENT], s)
          else do {
            ((err, st), s) \<leftarrow> hsi_nfs3_getattr W p (Some zero_stat) s;
            if err \<noteq> 0 then Some ([ReplyErr err], s)
            else do { i \<leftarrow> heap s p; st \<leftarrow> st; Some ([ReplyAttr st (attr_timeout i s)], s) } } }"

abbreviation FUSE_SET_ATTR_MODE :: u32 where "FUSE_SET_ATTR_MODE \<equiv> 1"
abbreviation FUSE_SET_ATTR_UID :: u32 where "FUSE_SET_ATTR_UID \<equiv> 2"
abbreviation FUSE_SET_ATTR_GID :: u32 where "FUSE_SET_ATTR_GID \<equiv> 4"
abbreviation FUSE_SET_ATTR_SIZE :: u32 where "FUSE_SET_ATTR_SIZE \<equiv> 8"
abbreviation FUSE_SET_ATTR_ATIME :: u32 where "FUSE_SET_ATTR_ATIME \<equiv> 16"
abbreviation FUSE_SET_ATTR_MTIME :: u32 where "FUSE_SET_ATTR_MTIME \<equiv> 32"
abbreviation FUSE_SET_ATTR_ATIME_NOW :: u32 where "FUSE_SET_ATTR_ATIME_NOW \<equiv> 128"
abbreviation FUSE_SET_ATTR_MTIME_NOW :: u32 where "FUSE_SET_ATTR_MTIME_NOW \<equiv> 256"

text \<open>\<open>attr\<close> is what the caller's object holds before; only \<open>valid\<close> is reset.\<close>

definition hsx_fuse_stat2iattr :: "stat \<Rightarrow> u32 \<Rightarrow> hsfs_iattr \<Rightarrow> hsfs_iattr" where
  "hsx_fuse_stat2iattr st to_set attr =
     (let attr = attr\<lparr>ia_valid := 0\<rparr>;
          attr = (if has to_set FUSE_SET_ATTR_MODE
                  then attr\<lparr>ia_valid := ia_valid attr OR HSFS_ATTR_MODE, ia_mode := st_mode st AND NOT S_IFMT\<rparr>
                  else attr);
          attr = (if has to_set FUSE_SET_ATTR_UID
                  then attr\<lparr>ia_valid := ia_valid attr OR HSFS_ATTR_UID, ia_uid := st_uid st\<rparr> else attr);
          attr = (if has to_set FUSE_SET_ATTR_GID
                  then attr\<lparr>ia_valid := ia_valid attr OR HSFS_ATTR_GID, ia_gid := st_gid st\<rparr> else attr);
          attr = (if has to_set FUSE_SET_ATTR_SIZE
                  then attr\<lparr>ia_valid := ia_valid attr OR HSFS_ATTR_SIZE, ia_size := st_size st\<rparr> else attr);
          attr = (if has to_set FUSE_SET_ATTR_ATIME
                  then let attr = attr\<lparr>ia_atime := st_atim st, ia_valid := ia_valid attr OR HSFS_ATTR_ATIME\<rparr>
                       in if \<not> has to_set FUSE_SET_ATTR_ATIME_NOW
                          then attr\<lparr>ia_valid := ia_valid attr OR HSFS_ATTR_ATIME_SET\<rparr> else attr
                  else attr);
          attr = (if has to_set FUSE_SET_ATTR_MTIME
                  then let attr = attr\<lparr>ia_mtime := st_mtim st, ia_valid := ia_valid attr OR HSFS_ATTR_MTIME\<rparr>
                       in if \<not> has to_set FUSE_SET_ATTR_MTIME_NOW
                          then attr\<lparr>ia_valid := ia_valid attr OR HSFS_ATTR_MTIME_SET\<rparr> else attr
                  else attr)
      in attr)"

definition hsx_fuse_setattr :: "'e world \<Rightarrow> u64 \<Rightarrow> stat \<Rightarrow> u32 \<Rightarrow> 'e handler" where
  "hsx_fuse_setattr W n attr to_set s =
     do { p \<leftarrow> hsfs_ilookup s n;
          if p = 0 then Some ([ReplyErr ENOENT], s)
          else do {
            (err, s) \<leftarrow> setattr_inode W p (hsx_fuse_stat2iattr attr to_set zero_iattr) s;
            if err \<noteq> 0 then Some ([ReplyErr err], s)
            else do { i \<leftarrow> heap s p; st \<leftarrow> hsfs_generic_fillattr i;
                      Some ([ReplyAttr st (attr_timeout i s)], s) } } }"

section \<open>Times\<close>

lemma has_bits: "has v 8 \<longleftrightarrow> bit v 3" "has v 16 \<longleftrightarrow> bit v 4" "has v 32 \<longleftrightarrow> bit v 5"
proof -
  have "has v (push_bit n 1) \<longleftrightarrow> bit v n" for n by (simp add: has_def bit_iff_and_push_bit_not_eq_0)
  from this [of 3] this [of 4] this [of 5]
  show "has v 8 \<longleftrightarrow> bit v 3" "has v 16 \<longleftrightarrow> bit v 4" "has v 32 \<longleftrightarrow> bit v 5" by simp_all
qed

lemma stat2iattr_times:
  "bit to_set 4 \<Longrightarrow> bit (ia_valid (hsx_fuse_stat2iattr st to_set attr)) 4"
  "bit to_set 5 \<Longrightarrow> bit (ia_valid (hsx_fuse_stat2iattr st to_set attr)) 5"
  by (simp_all add: hsx_fuse_stat2iattr_def Let_def has_bits bit_simps)

lemma trim_times:
  "bit (ia_valid (trim_attr i attr)) 4 = bit (ia_valid attr) 4" "bit (ia_valid (trim_attr i attr)) 5 = bit (ia_valid attr) 5"
  by (simp_all add: trim_attr_def NFS_VALID_ATTRS_def Let_def bit_simps)

text \<open>C38. A request to set the access or modification time to a given value never reaches the server as such:
  \<open>hsx_fuse_stat2iattr\<close> always sets the flag that the conversion to the arguments of the protocol takes for
  "now", and the test for it comes last there, so that the server is told to use its own clock.\<close>

theorem setattr_explicit_times_lost:
  "(has to_set FUSE_SET_ATTR_ATIME \<longrightarrow>
     sa_atime (iattr_to_sattr3 (trim_attr i (hsx_fuse_stat2iattr st to_set attr))) = SET_TO_SERVER_TIME) \<and>
   (has to_set FUSE_SET_ATTR_MTIME \<longrightarrow>
     sa_mtime (iattr_to_sattr3 (trim_attr i (hsx_fuse_stat2iattr st to_set attr))) = SET_TO_SERVER_TIME)"
  using stat2iattr_times [of to_set st attr] trim_times [of i "hsx_fuse_stat2iattr st to_set attr"]
  by (simp add: iattr_to_sattr3_def S_ISSETATIMENOW_def S_ISSETMTIMENOW_def has_bits Let_def)

theorem setattr_explicit_times_lost_witness:
  "sa_atime (iattr_to_sattr3 (trim_attr zero_nfs_inode (hsx_fuse_stat2iattr zero_stat 0x30 zero_iattr))) = SET_TO_SERVER_TIME"
  using setattr_explicit_times_lost [of "0x30"] by (simp add: has_def)

end
