(* ===== verification/Fuse_Io.thy ===== *)
theory Fuse_Io
  imports Fuse_Ops
begin

text \<open>
  The handlers of fuse/ that move data (read, write, the two readdir), report on the file system and
  open files, and \<open>hsx_fuse_init\<close>.  The loops of read and write end when the server makes progress; they
  are partial functions, for which not returning is \<open>None\<close>.
\<close>

section \<open>Read and write\<close>

text \<open>The bytes of \<open>new\<close> over those of \<open>buf\<close> from position \<open>n\<close> on.\<close>

definition overwrite :: "nat \<Rightarrow> u8 list \<Rightarrow> u8 list \<Rightarrow> u8 list" where
  "overwrite n new buf = take n buf @ new @ drop (n + length new) buf"

definition chunk :: "u64 \<Rightarrow> u64 \<Rightarrow> u32 \<Rightarrow> u64" where
  "chunk sz cnt io = (if sz - cnt < ucast io then sz - cnt else ucast io)"

partial_function (option) read_loop ::
  "'e world \<Rightarrow> u64 \<Rightarrow> u64 \<Rightarrow> u64 \<Rightarrow> u64 \<Rightarrow> u8 list \<Rightarrow> 'e hsfs_st \<Rightarrow>
   ((int + u64 \<times> u8 list) \<times> 'e hsfs_st) option" where
  "read_loop W p sz off cnt buf s =
     (if cnt < sz then do {
        (r, s) \<leftarrow> hsi_nfs3_read W p (off + cnt) (chunk sz cnt (rsize s)) (length buf - unat cnt) s;
        case r of
          Inl err \<Rightarrow> Some (Inl err, s)
        | Inr x \<Rightarrow>
            if rw_eof x then Some (Inr (cnt + rw_count x, overwrite (unat cnt) (rw_data x) buf), s)
            else read_loop W p sz off (cnt + rw_count x) (overwrite (unat cnt) (rw_data x) buf) s }
      else Some (Inr (cnt, buf), s))"

text \<open>The first \<open>cnt\<close> bytes of the buffer are sent; \<open>cnt\<close> beyond the buffer is a fault.  The buffer that
  \<open>malloc\<close> returns holds anything, here zeros.\<close>

definition hsx_fuse_read :: "'e world \<Rightarrow> u64 \<Rightarrow> u64 \<Rightarrow> u64 \<Rightarrow> 'e handler" where
  "hsx_fuse_read W n sz off s =
     (if \<not> mem_ok W (unat sz) (env s) then Some ([ReplyErr ENOMEM], s)
      else do {
        p \<leftarrow> hsfs_ilookup s n;
        if p = 0 then Some ([ReplyErr ENOENT], s)
        else do {
          (r, s) \<leftarrow> read_loop W p sz off 0 (replicate (unat sz) 0) s;
          case r of
            Inl err \<Rightarrow> Some ([ReplyErr err], s)
          | Inr (cnt, buf) \<Rightarrow>
              if unat cnt \<le> unat sz then Some ([ReplyBuf (take (unat cnt) buf)], s) else None } })"

abbreviation HSFS_FILE_SYNC :: int where "HSFS_FILE_SYNC \<equiv> 2"
abbreviation HSFS_UNSTABLE :: int where "HSFS_UNSTABLE \<equiv> 0"

partial_function (option) write_loop ::
  "'e world \<Rightarrow> u64 \<Rightarrow> u8 list \<Rightarrow> u64 \<Rightarrow> u64 \<Rightarrow> int \<Rightarrow> u64 \<Rightarrow> 'e hsfs_st \<Rightarrow> ((int + u64) \<times> 'e hsfs_st) option" where
  "write_loop W p buf sz off how cnt s =
     (if cnt < sz then do {
        let tmp = chunk sz cnt (wsize s);
        (r, s) \<leftarrow> hsi_nfs3_write W p (off + cnt) tmp how (take (unat tmp) (drop (unat cnt) buf)) s;
        case r of
          Inl err \<Rightarrow> Some (Inl err, s)
        | Inr n \<Rightarrow> write_loop W p buf sz off how (cnt + n) s }
      else Some (Inr cnt, s))"

definition hsx_fuse_write :: "'e world \<Rightarrow> u64 \<Rightarrow> u8 list \<Rightarrow> u64 \<Rightarrow> u64 \<Rightarrow> bool \<Rightarrow> 'e handler" where
  "hsx_fuse_write W n buf sz off direct_io s =
     (if \<not> mem_ok W (unat (wsize s)) (env s) then Some ([ReplyErr ENOMEM], s)
      else do {
        p \<leftarrow> hsfs_ilookup s n;
        if p = 0 then Some ([ReplyErr ENOENT], s)
        else do {
          (r, s) \<leftarrow> write_loop W p buf sz off (if direct_io then HSFS_FILE_SYNC else HSFS_UNSTABLE) 0 s;
          case r of
            Inl err \<Rightarrow> Some ([ReplyErr err], s)
          | Inr cnt \<Rightarrow> Some ([ReplyWrite cnt], s) } })"

section \<open>Directories\<close>

text \<open>\<open>__free_ctx\<close> of hsx_fuse_readdir.c: \<open>after\<close> is the position of \<open>free_inode_after\<close> in the chain,
  \<open>None\<close> for the null pointer.\<close>

fun fuse_free_ctx :: "'e world \<Rightarrow> bool \<Rightarrow> nat option \<Rightarrow> readdir_ctx list \<Rightarrow> 'e hsfs_st \<Rightarrow> 'e hsfs_st option" where
  "fuse_free_ctx W free_inode after [] s = Some s"
| "fuse_free_ctx W free_inode after (c # cs) s =
     do { let free_inode = (free_inode \<or> after = Some 0);
          s \<leftarrow> (if free_inode \<and> rc_inode c \<noteq> 0 then do {
                  (r, s) \<leftarrow> hsx_fuse_ref_dec (rc_inode c) 1 s;
                  if r = 0 then hsfs_iput (hsi_nfs_sop (imalloc W)) (rc_inode c) s else Some s }
                else Some s);
          fuse_free_ctx W free_inode
            (case after of Some (Suc n) \<Rightarrow> Some n | Some 0 \<Rightarrow> None | None \<Rightarrow> None) cs s }"

text \<open>The loop over the chain: the entries put into the buffer and the bytes they take.  An entry that
  would fill the buffer to the last byte is not counted.\<close>

fun add_direntries :: "'e world \<Rightarrow> nat \<Rightarrow> nat \<Rightarrow> readdir_ctx list \<Rightarrow> readdir_ctx list \<times> nat" where
  "add_direntries W sz len [] = ([], len)"
| "add_direntries W sz len (c # cs) =
     (let res = dirent_size W (rc_name c) in
      if res \<ge> sz - len then ([], len)
      else let (es, n) = add_direntries W sz (len + res) cs in (c # es, n))"

fun add_direntries_plus ::
  "'e world \<Rightarrow> nat \<Rightarrow> nat \<Rightarrow> readdir_ctx list \<Rightarrow> 'e hsfs_st \<Rightarrow>
   (((readdir_ctx \<times> entry_param) list \<times> nat) \<times> 'e hsfs_st) option" where
  "add_direntries_plus W sz len [] s = Some (([], len), s)"
| "add_direntries_plus W sz len (c # cs) s =
     do { e \<leftarrow> hsx_fuse_fill_reply (rc_inode c) s;
          let res = direntplus_size W (rc_name c);
          if res > sz - len then Some (([], len), s)
          else if res = sz - len then Some (([], len), s)
          else do {
            (_, s) \<leftarrow> hsx_fuse_ref_inc (rc_inode c) 1 s;
            ((es, n), s) \<leftarrow> add_direntries_plus W sz (len + res) cs s;
            Some (((c, e) # es, n), s) } }"

text \<open>\<open>ctx\<close> starts as \<open>NULL\<close>, which is what an operation that does not set it leaves.\<close>

definition ctx_chain :: "ctx_out \<Rightarrow> readdir_ctx list option" where
  "ctx_chain c = (case c of Unset \<Rightarrow> Some [] | Freed \<Rightarrow> None | Ctx cs \<Rightarrow> Some cs)"

definition hsx_fuse_readdir_plus :: "'e world \<Rightarrow> u64 \<Rightarrow> u64 \<Rightarrow> u64 \<Rightarrow> 'e handler" where
  "hsx_fuse_readdir_plus W n sz off s =
     do { parent \<leftarrow> hsfs_ilookup s n;
          _ \<leftarrow> FUSE_ASSERT (parent \<noteq> 0);
          ((err, ctx), s) \<leftarrow> hsi_nfs3_readdir_plus W parent (ucast sz) off (ucast sz) s;
          if err \<noteq> 0 then Some ([ReplyErr err], s)
          else do {
            cs \<leftarrow> ctx_chain ctx;
            if \<not> mem_ok W (unat sz) (env s) then do {
              s \<leftarrow> fuse_free_ctx W False None cs s;
              Some ([ReplyErr ENOMEM], s) }
            else do {
              ((es, len), s) \<leftarrow> add_direntries_plus W (unat sz) 0 cs s;
              s \<leftarrow> fuse_free_ctx W False None cs s;
              Some ([ReplyDirPlus es len], s) } } }"

definition hsx_fuse_readdir :: "'e world \<Rightarrow> u64 \<Rightarrow> u64 \<Rightarrow> u64 \<Rightarrow> 'e handler" where
  "hsx_fuse_readdir W n sz off s =
     do { parent \<leftarrow> hsfs_ilookup s n;
          _ \<leftarrow> FUSE_ASSERT (parent \<noteq> 0);
          ((err, ctx), s) \<leftarrow> hsi_nfs3_readdir W parent (ucast sz) off s;
          if err \<noteq> 0 then Some ([ReplyErr err], s)
          else do {
            cs \<leftarrow> ctx_chain ctx;
            if \<not> mem_ok W (unat sz) (env s) then do {
              s \<leftarrow> fuse_free_ctx W False None cs s;
              Some ([ReplyErr ENOMEM], s) }
            else do {
              let (es, len) = add_direntries W (unat sz) 0 cs;
              s \<leftarrow> fuse_free_ctx W False None cs s;
              Some ([ReplyDir es len], s) } } }"

section \<open>File system, open, init\<close>

text \<open>\<open>1 << block_bits\<close> is an \<open>int\<close> shift: \<open>None\<close> where it has no defined value; \<open>Some None\<close> is the return
  value 1.\<close>

definition hsi_super2statvfs :: "'z hsfs_super_scheme \<Rightarrow> statvfs option option" where
  "hsi_super2statvfs sp =
     (if bsize_bits sp = 0 then Some None
      else if 31 \<le> unat (bsize_bits sp) then None
      else
        let bits = unat (bsize_bits sp);
            block_res = push_bit bits 1 - 1
        in if bsize sp = 0 then Some None
           else if namlen sp = 0 then Some None
           else Some (Some
             \<lparr>f_bsize = ucast (bsize sp), f_frsize = ucast (bsize sp),
              f_blocks = drop_bit bits (tbytes sp + block_res),
              f_bfree = drop_bit bits (fbytes sp + block_res),
              f_bavail = drop_bit bits (abytes sp + block_res),
              f_files = tfiles sp, f_ffree = ffiles sp, f_favail = afiles sp,
              f_fsid = 0, f_flag = ucast (sb_flags sp), f_namemax = ucast (namlen sp)\<rparr>))"

definition hsx_fuse_statfs :: "'e world \<Rightarrow> 'e handler" where
  "hsx_fuse_statfs W s =
     do { (err, s) \<leftarrow> hsi_nfs3_statfs W (root s) s;
          if err \<noteq> 0 then Some ([ReplyErr err], s)
          else do {
            r \<leftarrow> hsi_super2statvfs s;
            case r of None \<Rightarrow> Some ([ReplyErr EINVAL], s)
                    | Some st \<Rightarrow> Some ([ReplyStatfs st], s) } }"

abbreviation FI_FH_LEN :: nat where "FI_FH_LEN \<equiv> 10"

definition hsx_fuse_open :: "'e world \<Rightarrow> 'e handler" where
  "hsx_fuse_open W s =
     (if mem_ok W FI_FH_LEN (env s) then Some ([ReplyOpen], s) else Some ([ReplyErr ENOMEM], s))"

definition hsx_fuse_opendir :: "u64 \<Rightarrow> 'e handler" where
  "hsx_fuse_opendir n s =
     do { parent \<leftarrow> hsfs_ilookup s n;
          if parent = 0 then Some ([ReplyErr ENOENT], s) else Some ([ReplyOpen], s) }"

definition hsx_fuse_release :: "'e handler" where
  "hsx_fuse_release s = Some ([ReplyErr 0], s)"

text \<open>\<open>caps\<close> lists the capability bits that the headers of libfuse define, with their names.\<close>

definition hsx_fuse_init_cap :: "(string \<times> u32) list \<Rightarrow> u32 \<Rightarrow> u32 \<Rightarrow> u32 \<times> string list" where
  "hsx_fuse_init_cap caps capable want =
     fold (\<lambda>(name, xx) (want, unsupported).
         if has capable xx then (want OR xx, unsupported) else (want, unsupported @ [name]))
       caps (want, [])"

definition hsx_fuse_init ::
  "(string \<times> u32) list \<Rightarrow> u32 \<Rightarrow> u32 \<Rightarrow> 'e hsfs_st \<Rightarrow> (u32 \<times> 'e hsfs_st) option" where
  "hsx_fuse_init caps capable want s =
     do { (ref, s) \<leftarrow> hsx_fuse_ref_xchg (root s) 1 s;
          _ \<leftarrow> FUSE_ASSERT (ref = 0);
          Some (fst (hsx_fuse_init_cap caps capable want), s) }"

end
