(* ===== verification/Acl.thy ===== *)
theory Acl
  imports Fuse_Io
begin

text \<open>
  POSIX access control lists: the extended attribute format of nfs3/hsi_acl3.c and include/acl.h, the two
  remote operations hsi_nfs3_getxattr.c and hsi_nfs3_setxattr.c, and the two handlers of fuse/.  An ACL
  is the list of its entries; \<open>NULL\<close> is \<open>None\<close>.  Extended attributes are bytes, in the byte order of a
  little-endian host.
\<close>

section \<open>The extended attribute format\<close>

record posix_acl_entry =
  e_tag :: u16
  e_perm :: u16
  e_id :: u32

type_synonym posix_acl = "posix_acl_entry list"

abbreviation POSIX_ACL_XATTR_ACCESS :: string where "POSIX_ACL_XATTR_ACCESS \<equiv> ''system.posix_acl_access''"
abbreviation POSIX_ACL_XATTR_DEFAULT :: string where "POSIX_ACL_XATTR_DEFAULT \<equiv> ''system.posix_acl_default''"
abbreviation POSIX_ACL_XATTR_VERSION :: u32 where "POSIX_ACL_XATTR_VERSION \<equiv> 2"
abbreviation ACL_UNDEFINED_ID :: u32 where "ACL_UNDEFINED_ID \<equiv> 0xFFFFFFFF"
abbreviation ACL_USER_OBJ :: u16 where "ACL_USER_OBJ \<equiv> 0x01"
abbreviation ACL_USER :: u16 where "ACL_USER \<equiv> 0x02"
abbreviation ACL_GROUP_OBJ :: u16 where "ACL_GROUP_OBJ \<equiv> 0x04"
abbreviation ACL_GROUP :: u16 where "ACL_GROUP \<equiv> 0x08"
abbreviation ACL_MASK :: u16 where "ACL_MASK \<equiv> 0x10"
abbreviation ACL_OTHER :: u16 where "ACL_OTHER \<equiv> 0x20"

datatype acl_type = ACL_TYPE_ACCESS | ACL_TYPE_DEFAULT

definition put16 :: "u16 \<Rightarrow> u8 list" where
  "put16 w = [ucast w, ucast (drop_bit 8 w)]"

definition put32 :: "u32 \<Rightarrow> u8 list" where
  "put32 w = [ucast w, ucast (drop_bit 8 w), ucast (drop_bit 16 w), ucast (drop_bit 24 w)]"

definition get16 :: "u8 list \<Rightarrow> nat \<Rightarrow> u16" where
  "get16 v n = ucast (v ! n) OR push_bit 8 (ucast (v ! (n + 1)))"

definition get32 :: "u8 list \<Rightarrow> nat \<Rightarrow> u32" where
  "get32 v n = ucast (v ! n) OR push_bit 8 (ucast (v ! (n + 1))) OR push_bit 16 (ucast (v ! (n + 2)))
     OR push_bit 24 (ucast (v ! (n + 3)))"

definition posix_acl_xattr_size :: "nat \<Rightarrow> nat" where
  "posix_acl_xattr_size count = 4 + count * 8"

definition posix_acl_alloc :: "(nat \<Rightarrow> bool) \<Rightarrow> nat \<Rightarrow> posix_acl option" where
  "posix_acl_alloc calloc_ok count =
     (if calloc_ok (8 + count * 8) then Some (replicate count \<lparr>e_tag = 0, e_perm = 0, e_id = 0\<rparr>) else None)"

definition put_entry :: "posix_acl_entry \<Rightarrow> u8 list" where
  "put_entry x = put16 (e_tag x) @ put16 (e_perm x) @ put32 (e_id x)"

text \<open>Returns the size or \<open>ERANGE\<close>, and the buffer; \<open>sz\<close> is its length.\<close>

definition posix_acl_to_xattr :: "posix_acl \<Rightarrow> u8 list option \<Rightarrow> nat \<Rightarrow> int \<times> u8 list option" where
  "posix_acl_to_xattr acl buffer sz =
     (let real_size = posix_acl_xattr_size (length acl) in
      case buffer of
        None \<Rightarrow> (int real_size, None)
      | Some b \<Rightarrow>
          if real_size > sz then (ERANGE, Some b)
          else (int real_size,
                Some (put32 POSIX_ACL_XATTR_VERSION @ concat (map put_entry acl) @ drop real_size b)))"

text \<open>One entry of the attribute; an unknown tag makes the conversion fail.\<close>

definition get_entry :: "u8 list \<Rightarrow> nat \<Rightarrow> posix_acl_entry option" where
  "get_entry v k =
     (let tag = get16 v (4 + 8 * k); perm = get16 v (4 + 8 * k + 2) in
      if tag = ACL_USER_OBJ \<or> tag = ACL_GROUP_OBJ \<or> tag = ACL_MASK \<or> tag = ACL_OTHER then
        Some \<lparr>e_tag = tag, e_perm = perm, e_id = ACL_UNDEFINED_ID\<rparr>
      else if tag = ACL_USER \<or> tag = ACL_GROUP then
        Some \<lparr>e_tag = tag, e_perm = perm, e_id = get32 v (4 + 8 * k + 4)\<rparr>
      else None)"

text \<open>The number of entries is stored in an \<open>int\<close>.\<close>

definition posix_acl_from_xattr :: "(nat \<Rightarrow> bool) \<Rightarrow> u8 list \<Rightarrow> posix_acl option" where
  "posix_acl_from_xattr calloc_ok v =
     (if length v < 4 then None
      else if get32 v 0 \<noteq> POSIX_ACL_XATTR_VERSION then None
      else if (length v - 4) mod 8 \<noteq> 0 then None
      else
        let count = sint (of_nat ((length v - 4) div 8) :: 32 word) in
        if count < 0 then None
        else if count = 0 then None
        else if posix_acl_alloc calloc_ok (nat count) = None then None
        else those (map (get_entry v) [0..<nat count]))"

definition posix_acl_from_mode :: "(nat \<Rightarrow> bool) \<Rightarrow> u32 \<Rightarrow> posix_acl option" where
  "posix_acl_from_mode calloc_ok mode =
     (if posix_acl_alloc calloc_ok 3 = None then None
      else Some
        [\<lparr>e_tag = ACL_USER_OBJ, e_perm = ucast (drop_bit 6 (mode AND 0x1c0)), e_id = ACL_UNDEFINED_ID\<rparr>,
         \<lparr>e_tag = ACL_GROUP_OBJ, e_perm = ucast (drop_bit 3 (mode AND 0x38)), e_id = ACL_UNDEFINED_ID\<rparr>,
         \<lparr>e_tag = ACL_OTHER, e_perm = ucast (mode AND 0x7), e_id = ACL_UNDEFINED_ID\<rparr>])"

section \<open>The remote operations\<close>

abbreviation NA_ACL :: u32 where "NA_ACL \<equiv> 1"
abbreviation NA_ACLCNT :: u32 where "NA_ACLCNT \<equiv> 2"
abbreviation NA_DFACL :: u32 where "NA_DFACL \<equiv> 4"
abbreviation NA_DFACLCNT :: u32 where "NA_DFACLCNT \<equiv> 8"
abbreviation NA_ACL_DEFAULT :: u32 where "NA_ACL_DEFAULT \<equiv> 0x1000"

definition entry_of_aclent :: "u32 \<Rightarrow> aclent \<Rightarrow> posix_acl_entry" where
  "entry_of_aclent keep a = \<lparr>e_tag = ucast (ae_type a AND keep), e_perm = ae_perm a, e_id = ae_id a\<rparr>"

definition acl_of_secattr :: "acl_type \<Rightarrow> secattr \<Rightarrow> posix_acl" where
  "acl_of_secattr type a =
     (case type of
        ACL_TYPE_ACCESS \<Rightarrow> map (entry_of_aclent (- 1)) (sec_aclent a)
      | ACL_TYPE_DEFAULT \<Rightarrow> map (entry_of_aclent (NOT NA_ACL_DEFAULT)) (sec_dfaclent a))"

definition hsi_nfs3_getxattr ::
  "'e world \<Rightarrow> u64 \<Rightarrow> u32 \<Rightarrow> acl_type \<Rightarrow> 'e hsfs_st \<Rightarrow> ((int \<times> posix_acl option) \<times> 'e hsfs_st) option" where
  "hsi_nfs3_getxattr W inode msk type s =
     do { i \<leftarrow> heap s inode;
          let clnt = acl_clntp s;
          if clnt = 0 then Some ((ENOTSUP, None), s)
          else do {
            (r, s) \<leftarrow> call W (acl_getacl W) clnt (hsi_nfs3_getfh3 i, msk) s;
            case r of
              Inl err \<Rightarrow> Some ((err, None), s)
            | Inr res \<Rightarrow>
                if status res \<noteq> 0 then
                  do { _ \<leftarrow> clnt_freeres clnt s; Some ((hsi_nfs3_stat_to_errno (status res), None), s) }
                else
                  let acl = acl_of_secattr type (resok res) in
                  if posix_acl_alloc (\<lambda>n. mem_ok W n (env s)) (length acl) = None
                  then do { _ \<leftarrow> clnt_freeres (clntp s) s; Some ((ENOMEM, None), s) }
                  else do { _ \<leftarrow> clnt_freeres clnt s; Some ((0, Some acl), s) } } }"

text \<open>\<open>e_tag\<close> is a \<open>short\<close>, so that it is sign-extended.\<close>

definition aclent_of_entry :: "posix_acl_entry \<Rightarrow> aclent" where
  "aclent_of_entry x = \<lparr>ae_type = scast (e_tag x), ae_id = e_id x, ae_perm = e_perm x\<rparr>"

definition setacl_args :: "bool \<Rightarrow> posix_acl \<Rightarrow> posix_acl option \<Rightarrow> secattr" where
  "setacl_args dir acl dfacl =
     (let d = (case dfacl of None \<Rightarrow> [] | Some d \<Rightarrow> d) in
      \<lparr>sec_mask = (if dir then NA_ACL OR NA_DFACL else NA_ACL),
       sec_aclcnt = of_nat (length acl), sec_aclent = map aclent_of_entry acl,
       sec_dfaclcnt = of_nat (length d), sec_dfaclent = map aclent_of_entry d\<rparr>)"

text \<open>The two lists to send, or \<open>None\<close> where the function gives up, which returns 0.  For a directory the
  list that the request does not give is fetched from the server, with the type of the request.\<close>

definition setxattr_acls ::
  "'e world \<Rightarrow> u64 \<Rightarrow> u32 \<Rightarrow> acl_type \<Rightarrow> posix_acl option \<Rightarrow> 'e hsfs_st \<Rightarrow>
   ((posix_acl option \<times> posix_acl option) option \<times> 'e hsfs_st) option" where
  "setxattr_acls W inode mode type acl s =
     (let msk = (if type = ACL_TYPE_ACCESS then NA_ACLCNT OR NA_ACL else 0) OR
                (if S_ISDIR mode then NA_DFACLCNT OR NA_DFACL else 0) in
      if S_ISDIR mode then do {
        ((err, got), s) \<leftarrow> hsi_nfs3_getxattr W inode msk type s;
        if err \<noteq> 0 then Some (None, s)
        else Some (Some (case type of ACL_TYPE_ACCESS \<Rightarrow> (acl, got) | ACL_TYPE_DEFAULT \<Rightarrow> (got, acl)), s) }
      else if type \<noteq> ACL_TYPE_ACCESS then Some (None, s)
      else Some (Some (acl, None), s))"

text \<open>The results of the two \<open>calloc\<close> for the arguments are not checked: without memory the copy loops
  write through a null pointer.\<close>

definition args_alloc :: "'e world \<Rightarrow> 'e \<Rightarrow> posix_acl \<Rightarrow> unit option" where
  "args_alloc W e acl = (if acl \<noteq> [] \<and> \<not> mem_ok W (12 * length acl) e then None else Some ())"

definition hsi_nfs3_setxattr ::
  "'e world \<Rightarrow> u64 \<Rightarrow> u8 list \<Rightarrow> acl_type \<Rightarrow> 'e hsfs_st \<Rightarrow> (int \<times> 'e hsfs_st) option" where
  "hsi_nfs3_setxattr W inode val type s =
     do { i \<leftarrow> heap s inode;
          let clnt = acl_clntp s;
          if clnt = 0 then Some (ENOTSUP, s)
          else do {
            let acl = posix_acl_from_xattr (\<lambda>n. mem_ok W n (env s)) val;
            (r, s) \<leftarrow> setxattr_acls W inode (i_mode i) type acl s;
            case r of
              None \<Rightarrow> Some (0, s)
            | Some (acl, dfacl) \<Rightarrow>
                (case (case acl of None \<Rightarrow> posix_acl_from_mode (\<lambda>n. mem_ok W n (env s)) (i_mode i) | Some a \<Rightarrow> Some a) of
                   None \<Rightarrow> Some (0, s)
                 | Some acl \<Rightarrow>
                     do { _ \<leftarrow> args_alloc W (env s) acl;
                          _ \<leftarrow> args_alloc W (env s) (case dfacl of None \<Rightarrow> [] | Some d \<Rightarrow> d);
                          (r, s) \<leftarrow> call W (acl_setacl W) clnt
                                     (hsi_nfs3_getfh3 i, setacl_args (S_ISDIR (i_mode i)) acl dfacl) s;
                          case r of
                            Inl err \<Rightarrow> Some (err, s)
                          | Inr res \<Rightarrow>
                              do { _ \<leftarrow> clnt_freeres clnt s;
                                   Some (hsi_nfs3_stat_to_errno (status res), s) } }) } }"

section \<open>The handlers\<close>

definition xattr_type :: "string \<Rightarrow> acl_type option" where
  "xattr_type name =
     (if name = POSIX_ACL_XATTR_ACCESS then Some ACL_TYPE_ACCESS
      else if name = POSIX_ACL_XATTR_DEFAULT then Some ACL_TYPE_DEFAULT else None)"

text \<open>For a size of 0, \<open>mem_ok W 0\<close> tells whether \<open>calloc(1, 0)\<close> returns an address or \<open>NULL\<close>; the C library
  may do either.\<close>

definition hsx_fuse_getxattr :: "'e world \<Rightarrow> u64 \<Rightarrow> string \<Rightarrow> u64 \<Rightarrow> 'e handler" where
  "hsx_fuse_getxattr W n name sz s =
     (case xattr_type name of
        None \<Rightarrow> Some ([ReplyErr ENOTSUP], s)
      | Some type \<Rightarrow>
          do { p \<leftarrow> hsfs_ilookup s n;
               if p = 0 then Some ([ReplyErr ENOENT], s)
               else do {
                 let msk = (case type of ACL_TYPE_ACCESS \<Rightarrow> NA_ACLCNT OR NA_ACL
                                       | ACL_TYPE_DEFAULT \<Rightarrow> NA_DFACLCNT OR NA_DFACL);
                 ((err, acl), s) \<leftarrow> hsi_nfs3_getxattr W p msk type s;
                 if err \<noteq> 0 then Some ([ReplyErr err], s)
                 else do {
                   acl \<leftarrow> acl;
                   let buf = (if mem_ok W (unat sz) (env s) then Some (replicate (unat sz) 0) else None);
                   if buf = None \<and> sz \<noteq> 0 then Some ([ReplyErr ENOMEM], s)
                   else
                     let (real_size, buf) = posix_acl_to_xattr acl buf (unat sz) in
                     if sz = 0 then Some ([ReplyXattr (nat real_size)], s)
                     else if real_size = ERANGE then Some ([ReplyErr ERANGE], s)
                     else do { b \<leftarrow> buf; Some ([ReplyBuf (take (nat real_size) b)], s) } } } })"

text \<open>The path that calls the server sends its reply twice.\<close>

definition hsx_fuse_setxattr :: "'e world \<Rightarrow> u64 \<Rightarrow> string \<Rightarrow> u8 list \<Rightarrow> 'e handler" where
  "hsx_fuse_setxattr W n name val s =
     do { hi \<leftarrow> hsfs_ilookup s n;
          if hi = 0 then Some ([ReplyErr 0], s)
          else
            (case xattr_type name of
               None \<Rightarrow> Some ([ReplyErr 0], s)
             | Some type \<Rightarrow>
                 do { (err, s) \<leftarrow> hsi_nfs3_setxattr W hi val type s;
                      Some ([ReplyErr err, ReplyErr err], s) }) }"

section \<open>The format is a faithful encoding\<close>

lemma length_put [simp]: "length (put16 a) = 2" "length (put32 b) = 4" "length (put_entry x) = 8"
  by (simp_all add: put16_def put32_def put_entry_def)

lemma get16_put16 [simp]: "v = put16 w @ zs \<Longrightarrow> get16 v 0 = w"
  by (rule bit_word_eqI) (auto simp: get16_def put16_def bit_simps)

lemma get32_put32: "v = put32 w @ zs \<Longrightarrow> get32 v 0 = w"
proof (rule bit_word_eqI)
  fix n
  assume v: "v = put32 w @ zs" and n: "n < LENGTH(32)"
  consider "n < 8" | "8 \<le> n" "n < 16" | "16 \<le> n" "n < 24" | "24 \<le> n" by linarith
  then show "bit (get32 v 0) n = bit w n"
    by cases (use v n in \<open>auto simp: get32_def put32_def bit_simps not_less\<close>)
qed

lemma get16_drop: "n + 1 < length v \<Longrightarrow> get16 v n = get16 (drop n v) 0"
  by (simp add: get16_def)

lemma get32_drop: "n + 3 < length v \<Longrightarrow> get32 v n = get32 (drop n v) 0"
  by (simp add: get32_def)

lemma length_entries [simp]: "length (concat (map put_entry acl)) = 8 * length acl"
  by (induction acl) simp_all

lemma drop_entries: "k \<le> length acl \<Longrightarrow> drop (8 * k) (concat (map put_entry acl)) = concat (map put_entry (drop k acl))"
proof (induction acl arbitrary: k)
  case (Cons x acl)
  then show ?case by (cases k) simp_all
qed simp

text \<open>Which entries the format can carry: a known tag, and no identifier where it has none.\<close>

definition entry_ok :: "posix_acl_entry \<Rightarrow> bool" where
  "entry_ok x \<longleftrightarrow> (e_tag x \<in> {ACL_USER_OBJ, ACL_GROUP_OBJ, ACL_MASK, ACL_OTHER} \<and> e_id x = ACL_UNDEFINED_ID)
     \<or> e_tag x \<in> {ACL_USER, ACL_GROUP}"

lemma get_entry_put:
  assumes "k < length acl" "entry_ok (acl ! k)"
  shows "get_entry (put32 POSIX_ACL_XATTR_VERSION @ concat (map put_entry acl)) k = Some (acl ! k)"
proof -
  let ?v = "put32 POSIX_ACL_XATTR_VERSION @ concat (map put_entry acl)"
  have "drop k acl = acl ! k # drop (Suc k) acl" using assms(1) by (simp add: Cons_nth_drop_Suc)
  then have "drop (8 * k) (concat (map put_entry acl)) = put_entry (acl ! k) @ concat (map put_entry (drop (Suc k) acl))"
    using drop_entries [of k acl] assms(1) by simp
  then obtain zs where d: "drop (4 + 8 * k) ?v = put16 (e_tag (acl ! k)) @ put16 (e_perm (acl ! k)) @ put32 (e_id (acl ! k)) @ zs"
    unfolding drop_append put_entry_def by auto
  have len: "length ?v = 4 + 8 * length acl" by simp
  have tag: "get16 ?v (4 + 8 * k) = e_tag (acl ! k)"
    using assms(1) d by (subst get16_drop) auto
  have "drop (4 + 8 * k + 2) ?v = put16 (e_perm (acl ! k)) @ put32 (e_id (acl ! k)) @ zs"
    "drop (4 + 8 * k + 4) ?v = put32 (e_id (acl ! k)) @ zs"
    using arg_cong [OF d, of "drop 2"] arg_cong [OF d, of "drop 4"] by (simp_all add: put16_def)
  then have "get16 ?v (4 + 8 * k + 2) = e_perm (acl ! k)" "get32 ?v (4 + 8 * k + 4) = e_id (acl ! k)"
    using assms(1) len by (subst get16_drop get32_drop; auto intro: get32_put32)+
  then show ?thesis
    using assms(2) tag unfolding get_entry_def Let_def entry_ok_def by auto
qed

lemma those_map_Some: "(\<And>x. x \<in> set xs \<Longrightarrow> f x = Some (g x)) \<Longrightarrow> those (map f xs) = Some (map g xs)"
  by (induction xs) simp_all

lemma sint_count: "n < 2 ^ 31 \<Longrightarrow> sint (of_nat n :: 32 word) = int n"
  by (simp add: sint_uint unsigned_of_nat take_bit_nat_eq_self signed_take_bit_int_eq_self)

lemma acl_roundtrip:
  assumes "acl \<noteq> []" "length acl < 2 ^ 28" "\<And>x. x \<in> set acl \<Longrightarrow> entry_ok x" "ok (8 + length acl * 8)"
  shows "posix_acl_from_xattr ok (put32 POSIX_ACL_XATTR_VERSION @ concat (map put_entry acl)) = Some acl"
proof -
  let ?v = "put32 POSIX_ACL_XATTR_VERSION @ concat (map put_entry acl)"
  have "those (map (get_entry ?v) [0..<length acl]) = Some (map ((!) acl) [0..<length acl])"
    by (rule those_map_Some) (use assms(3) in \<open>auto intro!: get_entry_put\<close>)
  moreover have "sint (of_nat ((length ?v - 4) div 8) :: 32 word) = int (length acl)"
    using assms(2) by (simp add: sint_count)
  moreover have "get32 ?v 0 = POSIX_ACL_XATTR_VERSION"
    by (rule get32_put32) simp
  ultimately show ?thesis
    using assms(1,4) by (simp add: posix_acl_from_xattr_def posix_acl_alloc_def map_nth Let_def)
qed

lemma to_xattr_fits:
  assumes "posix_acl_xattr_size (length acl) \<le> n"
  shows "posix_acl_to_xattr acl (Some (replicate n 0)) n =
    (int (posix_acl_xattr_size (length acl)),
     Some (put32 POSIX_ACL_XATTR_VERSION @ concat (map put_entry acl) @
           replicate (n - posix_acl_xattr_size (length acl)) 0))"
  using assms by (simp add: posix_acl_to_xattr_def Let_def)

text \<open>The error code is never mistaken for a size.\<close>

lemma xattr_size_not_ERANGE: "int (posix_acl_xattr_size n) \<noteq> ERANGE"
  by (simp add: posix_acl_xattr_size_def) presburger

lemma sizeof_xattr: "length (put32 v @ concat (map put_entry acl)) = posix_acl_xattr_size (length acl)"
  by (simp add: posix_acl_xattr_size_def)

section \<open>Properties\<close>

text \<open>C16. The extended attribute is a faithful encoding: what \<open>posix_acl_to_xattr\<close> writes into a buffer of the
  size it reports, \<open>posix_acl_from_xattr\<close> reads back as the same list, for every list of known entries; a
  smaller buffer is refused with \<open>ERANGE\<close> and left alone.\<close>

theorem posix_acl_xattr_roundtrip:
  assumes "acl \<noteq> []" "length acl < 2 ^ 28" "\<forall>x \<in> set acl. entry_ok x" "calloc_ok (8 + length acl * 8)"
    and "n = posix_acl_xattr_size (length acl)"
  shows "\<exists>b. posix_acl_to_xattr acl (Some (replicate n 0)) n = (int n, Some b) \<and> length b = n \<and>
    posix_acl_from_xattr calloc_ok b = Some acl \<and>
    (\<forall>m < n. posix_acl_to_xattr acl (Some (replicate m 0)) m = (ERANGE, Some (replicate m 0)))"
  using to_xattr_fits [of acl n] acl_roundtrip [of acl calloc_ok] assms sizeof_xattr [of POSIX_ACL_XATTR_VERSION acl]
  by (auto simp: posix_acl_to_xattr_def Let_def)

theorem posix_acl_xattr_roundtrip_witness:
  "\<exists>b. posix_acl_to_xattr [\<lparr>e_tag = ACL_USER, e_perm = 6, e_id = 1000\<rparr>] (Some (replicate 12 0)) 12 = (int 12, Some b) \<and>
     posix_acl_from_xattr (\<lambda>_. True) b = Some [\<lparr>e_tag = ACL_USER, e_perm = 6, e_id = 1000\<rparr>]"
proof -
  let ?acl = "[\<lparr>e_tag = ACL_USER, e_perm = 6, e_id = 1000\<rparr>]"
  have "\<forall>x \<in> set ?acl. entry_ok x" "12 = posix_acl_xattr_size (length ?acl)" "?acl \<noteq> []" "length ?acl < 2 ^ 28"
    by (simp_all add: entry_ok_def posix_acl_xattr_size_def)
  from posix_acl_xattr_roundtrip [OF this(3,4,1) TrueI this(2)] show ?thesis by blast
qed

end
