(* ===== verification/Requests.thy ===== *)
theory Requests
  imports Acl
begin

text \<open>
  Serving the kernel: the table of handlers of fuse/hsfs_main.c, sequences of requests, and what holds
  over them.  Requests are served one after the other.  \<open>books\<close> relates the lookup counts of the cached
  inodes to the entries handed to the kernel.
\<close>

section \<open>Requests\<close>

datatype request =
    Lookup u64 string
  | Forget u64 u64
  | Getattr u64
  | Setattr u64 stat u32
  | Readlink u64
  | Mknod u64 string u32 u64
  | Mkdir u64 string u32
  | Unlink u64 string
  | Rmdir u64 string
  | Symlink string u64 string
  | Rename u64 string u64 string u32
  | Link u64 u64 string
  | Open u64
  | Read u64 u64 u64
  | Write u64 "u8 list" u64 u64 bool
  | Release u64
  | Opendir u64
  | Readdir u64 u64 u64
  | Readdirplus u64 u64 u64
  | Statfs u64
  | Setxattr u64 string "u8 list"
  | Getxattr u64 string u64
  | Access u64 u32
  | Create u32 u32 u64 string u32 u32

text \<open>\<open>hsfs_oper\<close>, without \<open>init\<close>, which libfuse calls once before the first request.\<close>

fun hsfs_oper :: "'e world \<Rightarrow> request \<Rightarrow> 'e handler" where
  "hsfs_oper W (Lookup n name) = hsx_fuse_lookup W n name"
| "hsfs_oper W (Forget n k) = hsx_fuse_forget W n k"
| "hsfs_oper W (Getattr n) = hsx_fuse_getattr W n"
| "hsfs_oper W (Setattr n st to_set) = hsx_fuse_setattr W n st to_set"
| "hsfs_oper W (Readlink n) = hsx_fuse_readlink W n"
| "hsfs_oper W (Mknod n name mode rdev) = hsx_fuse_mknod W n name mode rdev"
| "hsfs_oper W (Mkdir n name mode) = hsx_fuse_mkdir W n name mode"
| "hsfs_oper W (Unlink n name) = hsx_fuse_unlink W n name"
| "hsfs_oper W (Rmdir n name) = hsx_fuse_rmdir W n name"
| "hsfs_oper W (Symlink link n name) = hsx_fuse_symlink W link n name"
| "hsfs_oper W (Rename n name m newname fl) = hsx_fuse_rename W n name m newname fl"
| "hsfs_oper W (Link n m name) = hsx_fuse_link W n m name"
| "hsfs_oper W (Open n) = hsx_fuse_open W"
| "hsfs_oper W (Read n sz off) = hsx_fuse_read W n sz off"
| "hsfs_oper W (Write n buf sz off direct_io) = hsx_fuse_write W n buf sz off direct_io"
| "hsfs_oper W (Release n) = hsx_fuse_release"
| "hsfs_oper W (Opendir n) = hsx_fuse_opendir n"
| "hsfs_oper W (Readdir n sz off) = hsx_fuse_readdir W n sz off"
| "hsfs_oper W (Readdirplus n sz off) = hsx_fuse_readdir_plus W n sz off"
| "hsfs_oper W (Statfs n) = hsx_fuse_statfs W"
| "hsfs_oper W (Setxattr n name val) = hsx_fuse_setxattr W n name val"
| "hsfs_oper W (Getxattr n name sz) = hsx_fuse_getxattr W n name sz"
| "hsfs_oper W (Access n m) = hsx_fuse_access W n m"
| "hsfs_oper W (Create uid gid n name mode fl) = hsx_fuse_create W uid gid n name mode fl"

text \<open>A session: the requests served so far, each with its replies.\<close>

inductive session :: "'e world \<Rightarrow> 'e hsfs_st \<Rightarrow> (request \<times> reply list) list \<Rightarrow> 'e hsfs_st \<Rightarrow> bool" for W where
  session_start: "session W s [] s"
| session_serve: "session W s tr s' \<Longrightarrow> hsfs_oper W r s' = Some (rs, s'') \<Longrightarrow> session W s (tr @ [(r, rs)]) s''"

section \<open>The books\<close>

text \<open>How many references to inode number \<open>n\<close> a reply hands to the kernel, by the rules of libfuse.\<close>

definition given :: "u64 \<Rightarrow> reply \<Rightarrow> nat" where
  "given n r =
     (case r of
        ReplyEntry e \<Rightarrow> if e_ino e = n then 1 else 0
      | ReplyCreate e \<Rightarrow> if e_ino e = n then 1 else 0
      | ReplyDirPlus es len \<Rightarrow> length (filter (\<lambda>ce. e_ino (snd ce) = n) es)
      | _ \<Rightarrow> 0)"

definition given_all :: "u64 \<Rightarrow> reply list \<Rightarrow> nat" where
  "given_all n rs = sum_list (map (given n) rs)"

definition numbers :: "'z hsfs_super_scheme \<Rightarrow> u64 set" where
  "numbers s = {n. \<exists>p i. heap s p = Some i \<and> ino i = n}"

lemma numbers_alt: "numbers s = {n. \<exists>q. map_option ino (heap s q) = Some n}"
  by (auto simp: numbers_def)

lemma numbers_upd [simp]:
  assumes "heap s p = Some i" "ino i' = ino i"
  shows "numbers (s\<lparr>heap := (heap s)(p \<mapsto> i')\<rparr>) = numbers s"
proof -
  have "map_option ino (((heap s)(p \<mapsto> i')) q) = map_option ino (heap s q)" for q using assms by simp
  then show ?thesis unfolding numbers_alt by simp
qed

lemma numbersI: "heap s p = Some i \<Longrightarrow> ino i \<in> numbers s"
  by (auto simp: numbers_def)

definition books :: "'z hsfs_super_scheme \<Rightarrow> reply list \<Rightarrow> 'z hsfs_super_scheme \<Rightarrow> bool" where
  "books s rs s' \<longleftrightarrow> evolves s s' \<and>
     (\<forall>p j. heap s' p = Some j \<longrightarrow> i_private j = refs s p + of_nat (given_all (ino j) rs)) \<and>
     (\<forall>n. n \<notin> numbers s' \<longrightarrow> given_all n rs = 0)"

fun plain :: "reply \<Rightarrow> bool" where
  "plain (ReplyEntry e) = False"
| "plain (ReplyCreate e) = False"
| "plain (ReplyDirPlus es len) = False"
| "plain r = True"

lemma given_plain [simp]: "plain r \<Longrightarrow> given n r = 0"
  by (cases r) (simp_all add: given_def)

lemma given_all_simps [simp]:
  "given_all n [] = 0" "given_all n (r # rs) = given n r + given_all n rs"
  "given_all n (rs @ rs') = given_all n rs + given_all n rs'"
  by (simp_all add: given_all_def)

lemma ev_refs: "ev W s0 s \<Longrightarrow> heap s p = Some j \<Longrightarrow> refs s0 p = i_private j"
proof -
  assume *: "ev W s0 s" "heap s p = Some j"
  have "refs s p = i_private j" using *(2) by (simp add: refs_def)
  moreover have "refs s = refs s0" using *(1) by (simp add: ev_def quiet_def)
  ultimately show ?thesis by simp
qed

lemma ev_D: "ev W s0 s \<Longrightarrow> evolves s0 s" "ev W s0 s \<Longrightarrow> nfs_cache_ok s"
  by (simp_all add: ev_def quiet_def evolves_def)

lemma books_plain: "ev W s0 s \<Longrightarrow> list_all plain rs \<Longrightarrow> books s0 rs s"
proof -
  assume *: "ev W s0 s" "list_all plain rs"
  then have "given_all n rs = 0" for n by (induction rs) auto
  then show ?thesis using *(1) ev_refs [OF *(1)] by (simp add: books_def ev_D)
qed

text \<open>One count changes.\<close>

lemma evolves_private:
  assumes "nfs_cache_ok s" "heap s p = Some i"
  shows "evolves s (s\<lparr>heap := (heap s)(p \<mapsto> i\<lparr>i_private := v\<rparr>)\<rparr>)"
proof -
  have "i_count i \<le> 0" "settled i"
    using icache_ok_D(6) [OF nfs_cache_ok_D(1) [OF assms(1)]] nfs_cache_ok_D(2) [OF assms(1)] assms(2) by auto
  then show ?thesis
    by (auto intro!: evolves_upd [OF assms] simp: same_file_def settled_def NFS_STALE_def)
qed

lemma unique_inoD: "nfs_cache_ok s \<Longrightarrow> heap s p = Some i \<Longrightarrow> heap s q = Some j \<Longrightarrow> ino i = ino j \<Longrightarrow> p = q"
  using nfs_cache_ok_D(1) [of s] unfolding icache_ok_def unique_ino_def by blast

lemma books_private:
  assumes "ev W s0 s" "heap s p = Some i" "v = i_private i + of_nat (given_all (ino i) rs)"
    and "\<And>n. n \<noteq> ino i \<Longrightarrow> given_all n rs = 0"
  shows "books s0 rs (s\<lparr>heap := (heap s)(p \<mapsto> i\<lparr>i_private := v\<rparr>)\<rparr>)"
  unfolding books_def
proof (intro conjI allI impI)
  note D = ev_D [OF assms(1)]
  show "evolves s0 (s\<lparr>heap := (heap s)(p \<mapsto> i\<lparr>i_private := v\<rparr>)\<rparr>)"
    using evolves_trans [OF D(1) evolves_private [OF D(2) assms(2)]] .
  show "given_all n rs = 0" if "n \<notin> numbers (s\<lparr>heap := (heap s)(p \<mapsto> i\<lparr>i_private := v\<rparr>)\<rparr>)" for n
    using that assms(2,4) numbersI [OF assms(2)] by (cases "n = ino i") auto
  fix q j
  assume q: "heap (s\<lparr>heap := (heap s)(p \<mapsto> i\<lparr>i_private := v\<rparr>)\<rparr>) q = Some j"
  show "i_private j = refs s0 q + of_nat (given_all (ino j) rs)"
  proof (cases "q = p")
    case True
    then show ?thesis using q ev_refs [OF assms(1,2)] assms(3) by auto
  next
    case False
    then have "ino j \<noteq> ino i" using q unique_inoD [OF D(2) _ assms(2)] by auto
    then show ?thesis using q False ev_refs [OF assms(1)] assms(4) by simp
  qed
qed

abbreviation evb :: "'e hsfs_st \<Rightarrow> (reply list \<times> 'e hsfs_st) option \<Rightarrow> bool" where
  "evb s0 m \<equiv> pres (\<lambda>x. books s0 (fst x) (snd x)) m"

lemma fill_reply_ino: "hsx_fuse_fill_reply p s = Some e \<Longrightarrow> heap s p = Some i \<Longrightarrow> e_ino e = ino i"
  by (auto simp: hsx_fuse_fill_reply_def bind_eq_Some_conv)

lemma evb_reply_new:
  assumes "ev W s0 s" "mk = ReplyEntry \<or> mk = ReplyCreate"
  shows "evb s0 (reply_new mk p s)"
  unfolding pres_def
proof (intro allI impI)
  fix x
  assume x: "reply_new mk p s = Some x"
  then obtain i where i: "heap s p = Some i"
    by (auto simp: reply_new_def hsx_fuse_ref_xchg_def bind_eq_Some_conv)
  let ?s = "s\<lparr>heap := (heap s)(p \<mapsto> i\<lparr>i_private := 1\<rparr>)\<rparr>"
  obtain e where e: "x = ([mk e], ?s)" "i_private i = 0" "hsx_fuse_fill_reply p ?s = Some e"
    using x i by (auto simp: reply_new_def hsx_fuse_ref_xchg_def FUSE_ASSERT_def upd_inode_def
        bind_eq_Some_conv split: if_splits)
  have "e_ino e = ino i" using fill_reply_ino [OF e(3)] by simp
  then have g: "given_all n [mk e] = (if n = ino i then 1 else 0)" for n
    using assms(2) by (auto simp: given_def)
  have "books s0 [mk e] ?s"
    by (rule books_private [OF assms(1) i]) (use g e(2) in auto)
  then show "books s0 (fst x) (snd x)" using e(1) by simp
qed

lemma books_ref_inc:
  assumes "ev W s0 s" "hsx_fuse_ref_inc p 1 s = Some (r, s')" "hsx_fuse_fill_reply p s' = Some e"
  shows "books s0 [ReplyEntry e] s'"
proof -
  obtain i where i: "heap s p = Some i" using assms(2) by (auto simp: hsx_fuse_ref_inc_def bind_eq_Some_conv)
  have s': "s' = s\<lparr>heap := (heap s)(p \<mapsto> i\<lparr>i_private := i_private i + 1\<rparr>)\<rparr>"
    using assms(2) i by (auto simp: hsx_fuse_ref_inc_def upd_inode_def bind_eq_Some_conv)
  then have "e_ino e = ino i" using fill_reply_ino [OF assms(3)] by simp
  then show ?thesis
    unfolding s' by (intro books_private [OF assms(1) i]) (auto simp: given_def)
qed

section \<open>The steps of the handlers\<close>

lemma evt_owner [ev_intros]:
  assumes "ev W s0 s"
  shows "evt W s0 (upd_inode p (\<lambda>i. i\<lparr>iattr := (iattr i)\<lparr>ia_uid := u, ia_gid := g\<rparr>\<rparr>) s)"
proof (rule evtI [OF assms])
  fix s'
  assume ok: "nfs_cache_ok s" and u: "upd_inode p (\<lambda>i. i\<lparr>iattr := (iattr i)\<lparr>ia_uid := u, ia_gid := g\<rparr>\<rparr>) s = Some s'"
  then obtain i where i: "heap s p = Some i" by (auto simp: upd_inode_def bind_eq_Some_conv)
  have "i_count i \<le> 0" "settled i"
    using icache_ok_D(6) [OF nfs_cache_ok_D(1) [OF ok]] nfs_cache_ok_D(2) [OF ok] i by auto
  then show "quiet s s'"
    using u i by (auto intro!: evolves_upd [OF ok i] simp: upd_inode_def quiet_def same_file_def settled_def NFS_STALE_def)
qed

lemma evs_getxattr [ev_intros]: "ev W s0 s \<Longrightarrow> evs W s0 (hsi_nfs3_getxattr W p m t s)"
  unfolding hsi_nfs3_getxattr_def by (intro ev_walk) (auto intro: ev_intros)

lemma evs_setxattr_acls [ev_intros]: "ev W s0 s \<Longrightarrow> evs W s0 (setxattr_acls W p m t a s)"
  unfolding setxattr_acls_def by (intro ev_walk) (auto intro: ev_intros)

lemma evs_setxattr [ev_intros]: "ev W s0 s \<Longrightarrow> evs W s0 (hsi_nfs3_setxattr W p v t s)"
  unfolding hsi_nfs3_setxattr_def by (intro ev_walk) (auto intro: ev_intros)

interpretation op_getxattr: file_op W "hsi_nfs3_getxattr W p m t"
  by unfold_locales (rule evs_getxattr)

interpretation op_setxattr: file_op W "hsi_nfs3_setxattr W p v t"
  by unfold_locales (rule evs_setxattr)

lemma read_loop_ev:
  assumes run: "read_loop W p sz off cnt buf s = Some x"
  shows "\<forall>s0. ev W s0 s \<longrightarrow> ev W s0 (snd x)"
proof (rule read_loop.raw_induct [where P = "\<lambda>W p sz off cnt buf s x. \<forall>s0. ev W s0 s \<longrightarrow> ev W s0 (snd x)", OF _ run], goal_cases)
  case (1 loop W p sz off cnt buf s x)
  have IH: "evs W s0 (loop W p sz off c b t)" if "ev W s0 t" for c b t s0
    using 1(1) that unfolding pres_def by blast
  show ?case
    by (intro allI impI, rule presD [OF _ 1(2)], intro ev_walk) (use IH in \<open>auto intro: ev_intros\<close>)
qed

lemma evs_read_loop [ev_intros]: "ev W s0 s \<Longrightarrow> evs W s0 (read_loop W p sz off cnt buf s)"
  using read_loop_ev unfolding pres_def by blast

lemma write_loop_ev:
  assumes run: "write_loop W p buf sz off how cnt s = Some x"
  shows "\<forall>s0. ev W s0 s \<longrightarrow> ev W s0 (snd x)"
proof (rule write_loop.raw_induct [where P = "\<lambda>W p buf sz off how cnt s x. \<forall>s0. ev W s0 s \<longrightarrow> ev W s0 (snd x)", OF _ run], goal_cases)
  case (1 loop W p buf sz off how cnt s x)
  have IH: "evs W s0 (loop W p buf sz off how c t)" if "ev W s0 t" for c t s0
    using 1(1) that unfolding pres_def by blast
  show ?case
    by (intro allI impI, rule presD [OF _ 1(2)], intro ev_walk) (use IH in \<open>auto intro: ev_intros\<close>)
qed

lemma evs_write_loop [ev_intros]: "ev W s0 s \<Longrightarrow> evs W s0 (write_loop W p buf sz off how cnt s)"
  using write_loop_ev unfolding pres_def by blast

lemma fuse_free_ctx_none [simp]: "fuse_free_ctx W False None cs s = Some s"
  by (induction cs) simp_all

lemma evolves_ref_inc:
  assumes "books s0 rs s" "heap s p = Some i"
    and "\<And>n. given_all n rs' = given_all n rs + (if n = ino i then 1 else 0)"
  shows "books s0 rs' (s\<lparr>heap := (heap s)(p \<mapsto> i\<lparr>i_private := i_private i + 1\<rparr>)\<rparr>)"
  unfolding books_def
proof (intro conjI allI impI)
  have D: "evolves s0 s" "nfs_cache_ok s" using assms(1) by (simp_all add: books_def evolves_def)
  show "evolves s0 (s\<lparr>heap := (heap s)(p \<mapsto> i\<lparr>i_private := i_private i + 1\<rparr>)\<rparr>)"
    using evolves_trans [OF D(1) evolves_private [OF D(2) assms(2)]] .
  show "given_all n rs' = 0" if n: "n \<notin> numbers (s\<lparr>heap := (heap s)(p \<mapsto> i\<lparr>i_private := i_private i + 1\<rparr>)\<rparr>)" for n
  proof -
    have "n \<notin> numbers s" "n \<noteq> ino i" using n assms(2) numbersI [OF assms(2)] by auto
    then show ?thesis using assms(1,3) by (simp add: books_def)
  qed
  fix q j
  assume q: "heap (s\<lparr>heap := (heap s)(p \<mapsto> i\<lparr>i_private := i_private i + 1\<rparr>)\<rparr>) q = Some j"
  show "i_private j = refs s0 q + of_nat (given_all (ino j) rs')"
  proof (cases "q = p")
    case True
    then show ?thesis using q assms by (auto simp: books_def)
  next
    case False
    then have "ino j \<noteq> ino i" using q unique_inoD [OF D(2) _ assms(2)] by auto
    then show ?thesis using q False assms(1,3) by (simp add: books_def)
  qed
qed

lemma add_direntries_plus_books:
  "books s0 [ReplyDirPlus es m] s \<Longrightarrow>
   pres (\<lambda>x. books s0 [ReplyDirPlus (es @ fst (fst x)) (snd (fst x))] (snd x)) (add_direntries_plus W sz len cs s)"
proof (induction cs arbitrary: es len s)
  case Nil
  then show ?case by (simp add: pres_def books_def given_def)
next
  case (Cons c cs)
  have same: "books s0 [ReplyDirPlus es l] s" for l using Cons.prems by (simp add: books_def given_def)
  show ?case
  proof (cases "heap s (rc_inode c)")
    case None
    then show ?thesis by (simp add: pres_def hsx_fuse_fill_reply_def)
  next
    case (Some i)
    let ?s = "s\<lparr>heap := (heap s)(rc_inode c \<mapsto> i\<lparr>i_private := i_private i + 1\<rparr>)\<rparr>"
    have step: "books s0 [ReplyDirPlus (es @ [(c, e)]) m] ?s" if "hsx_fuse_fill_reply (rc_inode c) s = Some e" for e
      by (rule evolves_ref_inc [OF Cons.prems Some]) (use fill_reply_ino [OF that Some] in \<open>auto simp: given_def\<close>)
    have inc: "hsx_fuse_ref_inc (rc_inode c) 1 s = Some (i_private i + 1, ?s)"
      using Some by (simp add: hsx_fuse_ref_inc_def upd_inode_def)
    show ?thesis
      using same Cons.IH [OF step]
      by (auto simp: inc pres_def Let_def bind_eq_Some_conv split: if_splits)
  qed
qed

section \<open>The handlers\<close>

lemma evb_lookup: "ev W s0 s \<Longrightarrow> evb s0 (hsx_fuse_lookup W n name s)"
  unfolding hsx_fuse_lookup_def by (intro ev_walk) (auto intro: ev_intros books_plain books_ref_inc)

lemma evb_access: "ev W s0 s \<Longrightarrow> evb s0 (hsx_fuse_access W n m s)"
  unfolding hsx_fuse_access_def by (intro ev_walk) (auto intro: ev_intros books_plain)

lemma evb_create: "ev W s0 s \<Longrightarrow> evb s0 (hsx_fuse_create W uid gid n name mode fl s)"
  unfolding hsx_fuse_create_def by (intro ev_walk) (auto intro: ev_intros books_plain evb_reply_new books_ref_inc)

lemma evb_mkdir: "ev W s0 s \<Longrightarrow> evb s0 (hsx_fuse_mkdir W n name mode s)"
  unfolding hsx_fuse_mkdir_def by (intro ev_walk) (auto intro: ev_intros books_plain evb_reply_new books_ref_inc)

lemma evb_mknod: "ev W s0 s \<Longrightarrow> evb s0 (hsx_fuse_mknod W n name mode rdev s)"
  unfolding hsx_fuse_mknod_def by (intro ev_walk) (auto intro: ev_intros books_plain evb_reply_new books_ref_inc)

lemma evb_symlink: "ev W s0 s \<Longrightarrow> evb s0 (hsx_fuse_symlink W link n name s)"
  unfolding hsx_fuse_symlink_def by (intro ev_walk) (auto intro: ev_intros books_plain evb_reply_new books_ref_inc)

lemma evb_unlink: "ev W s0 s \<Longrightarrow> evb s0 (hsx_fuse_unlink W n name s)"
  unfolding hsx_fuse_unlink_def by (intro ev_walk) (auto intro: ev_intros books_plain)

lemma evb_rmdir: "ev W s0 s \<Longrightarrow> evb s0 (hsx_fuse_rmdir W n name s)"
  unfolding hsx_fuse_rmdir_def by (intro ev_walk) (auto intro: ev_intros books_plain)

lemma evb_rename: "ev W s0 s \<Longrightarrow> evb s0 (hsx_fuse_rename W n name m newname fl s)"
  unfolding hsx_fuse_rename_def by (intro ev_walk) (auto intro: ev_intros books_plain)

lemma evb_readlink: "ev W s0 s \<Longrightarrow> evb s0 (hsx_fuse_readlink W n s)"
  unfolding hsx_fuse_readlink_def by (intro ev_walk) (auto intro: ev_intros books_plain)

lemma evb_getattr: "ev W s0 s \<Longrightarrow> evb s0 (hsx_fuse_getattr W n s)"
  unfolding hsx_fuse_getattr_def by (intro ev_walk) (auto intro: ev_intros books_plain)

lemma evb_setattr: "ev W s0 s \<Longrightarrow> evb s0 (hsx_fuse_setattr W n st to_set s)"
  unfolding hsx_fuse_setattr_def by (intro ev_walk) (auto intro: ev_intros books_plain)

lemma evb_read: "ev W s0 s \<Longrightarrow> evb s0 (hsx_fuse_read W n sz off s)"
  unfolding hsx_fuse_read_def by (intro ev_walk) (auto intro: ev_intros books_plain)

lemma evb_write: "ev W s0 s \<Longrightarrow> evb s0 (hsx_fuse_write W n buf sz off direct_io s)"
  unfolding hsx_fuse_write_def by (intro ev_walk) (auto intro: ev_intros books_plain)

lemma evb_readdir: "ev W s0 s \<Longrightarrow> evb s0 (hsx_fuse_readdir W n sz off s)"
  unfolding hsx_fuse_readdir_def by (intro ev_walk) (auto intro: ev_intros books_plain)

lemma evb_statfs: "ev W s0 s \<Longrightarrow> evb s0 (hsx_fuse_statfs W s)"
  unfolding hsx_fuse_statfs_def by (intro ev_walk) (auto intro: ev_intros books_plain)

lemma evb_open: "ev W s0 s \<Longrightarrow> evb s0 (hsx_fuse_open W s)"
  unfolding hsx_fuse_open_def by (intro ev_walk) (auto intro: ev_intros books_plain)

lemma evb_opendir: "ev W s0 s \<Longrightarrow> evb s0 (hsx_fuse_opendir n s)"
  unfolding hsx_fuse_opendir_def by (intro ev_walk) (auto intro: ev_intros books_plain)

lemma evb_release: "ev W s0 s \<Longrightarrow> evb s0 (hsx_fuse_release s)"
  unfolding hsx_fuse_release_def by (intro ev_walk) (auto intro: ev_intros books_plain)

lemma evb_getxattr: "ev W s0 s \<Longrightarrow> evb s0 (hsx_fuse_getxattr W n name sz s)"
  unfolding hsx_fuse_getxattr_def by (intro ev_walk) (auto intro: ev_intros books_plain)

lemma evb_setxattr: "ev W s0 s \<Longrightarrow> evb s0 (hsx_fuse_setxattr W n name val s)"
  unfolding hsx_fuse_setxattr_def by (intro ev_walk) (auto intro: ev_intros books_plain)

lemma books_bind:
  assumes "ev W s0 t" "\<And>es len s'. books s0 [ReplyDirPlus es len] s' \<Longrightarrow> pres P (f ((es, len), s'))"
  shows "pres P (Option.bind (add_direntries_plus W m l cs t) f)"
proof -
  have "books s0 [ReplyDirPlus [] 0] t"
    using assms(1) by (auto simp: books_def given_def ev_D ev_refs)
  from add_direntries_plus_books [OF this, of W m l cs] show ?thesis
    using assms(2) by (cases "add_direntries_plus W m l cs t") (auto simp: pres_def)
qed

lemma evb_readdir_plus: "ev W s0 s \<Longrightarrow> evb s0 (hsx_fuse_readdir_plus W n sz off s)"
  unfolding hsx_fuse_readdir_plus_def fuse_free_ctx_none bind.bind_lunit
  by (intro books_bind ev_walk) (auto intro: ev_intros books_plain)

text \<open>Linking hands out a reference that is not counted.\<close>

lemma evs_fuse_link: "ev W s0 s \<Longrightarrow> evs W s0 (hsx_fuse_link W n m name s)"
  unfolding hsx_fuse_link_def by (intro ev_walk) (auto intro: ev_intros)

lemma evolvesD: "evolves s s' \<Longrightarrow> heap s p = Some i \<Longrightarrow> \<exists>j. heap s' p = Some j \<and> same_file i j"
  by (simp add: evolves_def)

lemma forget_books:
  assumes "world_ok W" "nfs_cache_ok s" "hsx_fuse_forget W n k s = Some (rs, s')"
  shows "rs = [ReplyNone] \<and> evolves s s' \<and> n \<in> numbers s \<and>
    (\<forall>p j. heap s' p = Some j \<longrightarrow> i_private j = refs s p - (if ino j = n then k else 0))"
proof -
  obtain p where p: "hsfs_ilookup s n = Some p" "p \<noteq> 0"
    using assms(3) by (auto simp: hsx_fuse_forget_def FUSE_ASSERT_def bind_eq_Some_conv split: if_splits)
  obtain i where i: "heap s p = Some i" "ino i = n"
    using p ilookup_iff [OF nfs_cache_ok_D(1) [OF assms(2)] p(2)] by blast
  let ?s = "s\<lparr>heap := (heap s)(p \<mapsto> i\<lparr>i_private := i_private i - k\<rparr>)\<rparr>"
  have e: "evolves s ?s" by (rule evolves_private [OF assms(2) i(1)])
  then have ok: "nfs_cache_ok ?s" by (rule evolves_ok)
  have *: "rs = [ReplyNone] \<and> (s' = ?s \<or> hsfs_iput (hsi_nfs_sop (imalloc W)) p ?s = Some s')"
    using assms(3) p i
    by (auto simp: hsx_fuse_forget_def FUSE_ASSERT_def hsx_fuse_ref_dec_def upd_inode_def bind_eq_Some_conv
        split: if_splits)
  then have q: "quiet ?s s'" using quiet_iput [OF ok] evolves_refl [OF ok] by (auto simp: quiet_def)
  obtain j' where j': "heap s' p = Some j'" "ino j' = n"
    using evolvesD [of ?s s' p "i\<lparr>i_private := i_private i - k\<rparr>"] q i(2) by (auto simp: quiet_def same_file_def)
  have "i_private j = refs s q - (if ino j = n then k else 0)" if "heap s' q = Some j" for q j
  proof -
    have "refs s' q = i_private j" using that by (simp add: refs_def)
    moreover have "refs s' = refs ?s" using q unfolding quiet_def by blast
    ultimately have r: "i_private j = refs ?s q" by simp
    show ?thesis
    proof (cases "q = p")
      case True
      then show ?thesis using r that i j' by (simp add: refs_def)
    next
      case False
      have "ino j \<noteq> n"
      proof
        assume "ino j = n"
        then show False using unique_inoD [OF quiet_ok [OF q] that j'(1)] j'(2) False by simp
      qed
      then show ?thesis using r False by (simp add: refs_def)
    qed
  qed
  moreover have "evolves s s'" using evolves_trans [OF e] q by (simp add: quiet_def)
  moreover have "n \<in> numbers s" using i by (auto simp: numbers_def)
  ultimately show ?thesis using * by blast
qed

lemma oper_books:
  assumes "world_ok W" "nfs_cache_ok s" "hsfs_oper W r s = Some (rs, s')"
    and "\<And>n k. r \<noteq> Forget n k" "\<And>n m name. r \<noteq> Link n m name"
  shows "books s rs s'"
proof -
  have "ev W s s" using assms(1,2) by (rule ev_start)
  then have "evb s (hsfs_oper W r s)"
    by (cases r)
       (use assms(4,5) in \<open>simp_all add: evb_lookup evb_access evb_create evb_mkdir evb_mknod evb_symlink evb_unlink evb_rmdir
         evb_rename evb_readlink evb_getattr evb_setattr evb_read evb_write evb_readdir evb_statfs evb_open
         evb_opendir evb_release evb_getxattr evb_setxattr evb_readdir_plus\<close>)
  then show ?thesis using presD [OF _ assms(3)] by fastforce
qed

lemma oper_evolves:
  assumes "world_ok W" "nfs_cache_ok s" "hsfs_oper W r s = Some (rs, s')"
  shows "evolves s s'"
proof (cases r)
  case (Forget n k)
  then show ?thesis using forget_books [OF assms(1,2)] assms(3) by simp
next
  case (Link n m name)
  then have "evs W s (hsfs_oper W r s)" using evs_fuse_link [OF ev_start [OF assms(1,2)]] by simp
  from presD [OF this assms(3)] show ?thesis by (simp add: ev_D)
qed (use oper_books [OF assms] in \<open>simp_all add: books_def\<close>)

lemma session_evolves:
  "session W s tr s' \<Longrightarrow> world_ok W \<Longrightarrow> nfs_cache_ok s \<Longrightarrow> evolves s s'"
proof (induction rule: session.induct)
  case (session_serve s tr s' r rs s'')
  then show ?case using oper_evolves evolves_trans evolves_ok by blast
qed (rule evolves_refl)

text \<open>References taken back by the kernel, and handed out, over a session.\<close>

definition taken :: "u64 \<Rightarrow> request \<times> reply list \<Rightarrow> u64" where
  "taken n x = (case fst x of Forget m k \<Rightarrow> if m = n then k else 0 | _ \<Rightarrow> 0)"

definition outstanding :: "u64 \<Rightarrow> (request \<times> reply list) list \<Rightarrow> u64" where
  "outstanding n tr = (\<Sum>x\<leftarrow>tr. of_nat (given_all n (snd x)) - taken n x)"

definition no_link :: "(request \<times> reply list) list \<Rightarrow> bool" where
  "no_link tr \<longleftrightarrow> (\<forall>n m name rs. (Link n m name, rs) \<notin> set tr)"

lemma oper_counts:
  assumes "world_ok W" "nfs_cache_ok s" "hsfs_oper W r s = Some (rs, s')" "\<And>n m name. r \<noteq> Link n m name"
    and "heap s' p = Some j"
  shows "i_private j = refs s p + (of_nat (given_all (ino j) rs) - taken (ino j) (r, rs))"
proof (cases "\<exists>n k. r = Forget n k")
  case True
  then obtain n k where r: "r = Forget n k" by blast
  then have "hsx_fuse_forget W n k s = Some (rs, s')" using assms(3) by simp
  from forget_books [OF assms(1,2) this] show ?thesis
    using assms(5) r by (auto simp: taken_def given_def)
next
  case False
  then have "books s rs s'" using oper_books [OF assms(1-3)] assms(4) by blast
  moreover have "taken (ino j) (r, rs) = 0" using False by (cases r) (auto simp: taken_def)
  ultimately show ?thesis using assms(5) by (simp add: books_def)
qed

lemma evolves_numbers: "evolves s s' \<Longrightarrow> n \<in> numbers s \<Longrightarrow> n \<in> numbers s'"
  unfolding numbers_def evolves_def same_file_def by blast

lemma oper_numbers:
  assumes "world_ok W" "nfs_cache_ok s" "hsfs_oper W r s = Some (rs, s')" "\<And>n m name. r \<noteq> Link n m name"
    and "n \<notin> numbers s'"
  shows "given_all n rs = 0 \<and> taken n (r, rs) = 0"
proof (cases "\<exists>m k. r = Forget m k")
  case True
  then obtain m k where r: "r = Forget m k" by blast
  then have "hsx_fuse_forget W m k s = Some (rs, s')" using assms(3) by simp
  from forget_books [OF assms(1,2) this] show ?thesis
    using assms(5) r evolves_numbers [of s s'] by (auto simp: taken_def given_def)
next
  case False
  then have "books s rs s'" using oper_books [OF assms(1-3)] assms(4) by blast
  moreover have "taken n (r, rs) = 0" using False by (cases r) (auto simp: taken_def)
  ultimately show ?thesis using assms(5) by (simp add: books_def)
qed

text \<open>Nothing is outstanding for a number that no inode has.\<close>

lemma session_numbers:
  "session W s tr s' \<Longrightarrow> world_ok W \<Longrightarrow> nfs_cache_ok s \<Longrightarrow> no_link tr \<Longrightarrow> n \<notin> numbers s' \<Longrightarrow>
   outstanding n tr = 0"
proof (induction rule: session.induct)
  case (session_serve s tr s' r rs s'')
  have nl: "no_link tr" "\<And>n m name. r \<noteq> Link n m name"
    using session_serve.prems(3) by (auto simp: no_link_def)
  have ok: "nfs_cache_ok s'"
    using session_evolves [OF session_serve.hyps(1)] session_serve.prems evolves_ok by blast
  have "evolves s' s''" using oper_evolves [OF _ ok session_serve.hyps(2)] session_serve.prems by blast
  then have "n \<notin> numbers s'" using session_serve.prems(4) evolves_numbers by blast
  then have "outstanding n tr = 0" using session_serve.IH session_serve.prems nl by blast
  then show ?case
    using oper_numbers [OF session_serve.prems(1) ok session_serve.hyps(2) nl(2) session_serve.prems(4)]
    by (simp add: outstanding_def)
qed (simp add: outstanding_def)

lemma evolves_new_number:
  assumes "evolves s s'" "heap s p = None" "heap s' p = Some j"
  shows "ino j \<notin> numbers s"
proof
  assume "ino j \<in> numbers s"
  then obtain q i where q: "heap s q = Some i" "ino i = ino j" by (auto simp: numbers_def)
  then obtain k where k: "heap s' q = Some k" "ino k = ino j"
    using evolvesD [OF assms(1) q(1)] by (auto simp: same_file_def)
  then have "q = p" using unique_inoD [OF evolves_ok [OF assms(1)] k(1) assms(3)] by simp
  then show False using q(1) assms(2) by simp
qed

lemma session_counts:
  "session W s tr s' \<Longrightarrow> world_ok W \<Longrightarrow> nfs_cache_ok s \<Longrightarrow> no_link tr \<Longrightarrow> heap s' p = Some j \<Longrightarrow>
   i_private j = refs s p + outstanding (ino j) tr"
proof (induction arbitrary: j rule: session.induct)
  case (session_start s)
  then show ?case by (simp add: refs_def outstanding_def)
next
  case (session_serve s tr s' r rs s'')
  have nl: "no_link tr" "\<And>n m name. r \<noteq> Link n m name"
    using session_serve.prems(3) by (auto simp: no_link_def)
  have e: "evolves s s'" using session_evolves [OF session_serve.hyps(1)] session_serve.prems by blast
  have ok: "nfs_cache_ok s'" using evolves_ok [OF e] .
  have e': "evolves s' s''" using oper_evolves [OF _ ok session_serve.hyps(2)] session_serve.prems by blast
  have c: "i_private j = refs s' p + (of_nat (given_all (ino j) rs) - taken (ino j) (r, rs))"
    by (rule oper_counts [OF _ ok session_serve.hyps(2) nl(2)]) (use session_serve.prems in auto)
  have "refs s' p = refs s p + outstanding (ino j) tr"
  proof (cases "heap s' p")
    case None
    then have "ino j \<notin> numbers s'" using evolves_new_number [OF e'] session_serve.prems(4) by blast
    moreover have "heap s p = None" using evolvesD [OF e, of p] None by (cases "heap s p") auto
    ultimately show ?thesis
      using None session_numbers [OF session_serve.hyps(1)] session_serve.prems nl(1) by (simp add: refs_def)
  next
    case (Some i)
    then have "ino j = ino i" using evolvesD [OF e' Some] session_serve.prems(4) by (auto simp: same_file_def)
    moreover have "refs s' p = i_private i" using Some by (simp add: refs_def)
    ultimately show ?thesis using session_serve.IH [OF _ _ nl(1) Some] session_serve.prems by simp
  qed
  then show ?case using c by (simp add: outstanding_def)
qed

end
