(* ===== verification/File_Io.thy ===== *)
theory File_Io
  imports Requests
begin

text \<open>
  Reading and writing end to end: against a server that answers READ and WRITE as RFC 1813 says, the
  handlers return the bytes that were asked for and store the bytes they were given, whatever piece of
  each call the server chooses to do.  Both loops end, since every call makes progress.
\<close>

section \<open>Pieces\<close>

lemma unat_io_less: "unat (io :: u32) < 2 ^ 32"
  using unsigned_less [of io, where 'a = nat] by simp

lemma unat_ucast_io [simp]: "unat (ucast (io :: u32) :: u64) = unat io"
  using unat_io_less [of io] by (simp add: unsigned_ucast_eq take_bit_nat_eq_self)

lemma unat_chunk:
  "cnt < sz \<Longrightarrow> unat (chunk sz cnt io) = min (unat sz - unat cnt) (unat io)"
  by (auto simp: chunk_def min_def word_less_nat_alt unat_sub word_le_nat_alt)

lemma ucast_of_nat_io: "n < 2 ^ 32 \<Longrightarrow> (ucast (of_nat n :: u32) :: u64) = of_nat n"
  by (rule unsigned_word_eqI [where 'a = nat]) (simp add: unsigned_of_nat take_bit_nat_eq_self)

lemma ucast_chunk: "cnt < sz \<Longrightarrow> unat (ucast (chunk sz cnt io) :: u32) = unat (chunk sz cnt io)"
proof -
  assume "cnt < sz"
  then have "unat (chunk sz cnt io) < 2 ^ 32" using unat_io_less [of io] by (simp add: unat_chunk)
  then show ?thesis by (simp add: unsigned_ucast_eq take_bit_nat_eq_self)
qed

lemma unat_add_small: "unat a + n < 2 ^ 64 \<Longrightarrow> unat (a + of_nat n :: u64) = unat a + n"
  by (simp add: unat_word_ariths unsigned_of_nat take_bit_nat_eq_self)

section \<open>Reading\<close>

text \<open>READ on the file \<open>f\<close> with contents \<open>content\<close>: at most the bytes asked for, at least one unless
  there is none, and the end of the file reported when it is reached.\<close>

definition read_reply :: "u8 list \<Rightarrow> nat \<Rightarrow> nat \<Rightarrow> read3resok res3" where
  "read_reply c off n = \<lparr>status = 0, resok = \<lparr>r3_count = of_nat n, r3_eof = (length c \<le> off + n),
     r3_data = take n (drop off c)\<rparr>\<rparr>"

definition reads_file :: "'e world \<Rightarrow> nfs_fh3 \<Rightarrow> ('e \<Rightarrow> u8 list) \<Rightarrow> bool" where
  "reads_file W f content \<longleftrightarrow>
     (\<forall>c off cnt e. cnt \<noteq> 0 \<longrightarrow>
        (\<exists>n e'. nfs_read W c \<lparr>ra_file = f, ra_offset = off, ra_count = cnt\<rparr> e = (Inr (read_reply (content e) (unat off) n), e') \<and>
           content e' = content e \<and> n \<le> unat cnt \<and> n \<le> length (content e) - unat off \<and>
           (unat off < length (content e) \<longrightarrow> 0 < n)))"

lemma read_step:
  assumes "reads_file W (hsi_nfs3_getfh3 i) content" "heap s p = Some i" "clnt_live s (clntp s)"
    and "unat (ucast tmp :: u32) = unat tmp" "tmp \<noteq> 0" "unat tmp \<le> room"
  shows "\<exists>n e. hsi_nfs3_read W p off tmp room s =
      Some (Inr \<lparr>rw_data = take n (drop (unat off) (content (env s))), rw_count = of_nat n,
                 rw_eof = (length (content (env s)) \<le> unat off + n)\<rparr>, s\<lparr>env := e\<rparr>) \<and>
    content e = content (env s) \<and> n \<le> unat tmp \<and> n \<le> length (content (env s)) - unat off \<and>
    (unat off < length (content (env s)) \<longrightarrow> 0 < n)"
proof -
  have "(ucast tmp :: u32) \<noteq> 0" using assms(4,5) by (metis unsigned_0 unat_eq_zero)
  then obtain n e where n: "nfs_read W (clntp s) \<lparr>ra_file = hsi_nfs3_getfh3 i, ra_offset = off, ra_count = ucast tmp\<rparr> (env s) =
      (Inr (read_reply (content (env s)) (unat off) n), e)" "content e = content (env s)"
      "n \<le> unat (ucast tmp :: u32)" "n \<le> length (content (env s)) - unat off"
      "unat off < length (content (env s)) \<longrightarrow> 0 < n"
    using assms(1) unfolding reads_file_def by blast
  have "(ucast (of_nat n :: u32) :: u64) = of_nat n"
    using n(3) unat_io_less [of "ucast tmp"] by (intro ucast_of_nat_io) simp
  then show ?thesis
    using n assms clnt_call_first [where proc = "nfs_read W", OF assms(3) n(1), of "rpc W"]
    by (auto simp: hsi_nfs3_read_def read_reply_def hsi_nfs3_stat_to_errno_def nfs_errtbl_def clnt_freeres_def
        clnt_live_def Let_def)
qed

text \<open>The invariant of the loop: the first \<open>cnt\<close> bytes of the buffer are those of the file from \<open>off\<close> on.\<close>

lemma overwrite_extends:
  assumes "take k buf = take k (drop off c)" "length buf = m" "k + n \<le> m" "k + n \<le> length c - off"
  shows "take (k + n) (overwrite k (take n (drop (off + k) c)) buf) = take (k + n) (drop off c)"
    "length (overwrite k (take n (drop (off + k) c)) buf) = m"
proof -
  have l: "length (take n (drop (off + k) c)) = n" using assms(4) by simp
  have "take (k + n) (drop off c) = take k (drop off c) @ take n (drop (off + k) c)"
    by (simp add: take_add add.commute)
  then show "take (k + n) (overwrite k (take n (drop (off + k) c)) buf) = take (k + n) (drop off c)"
    using assms l by (simp add: overwrite_def)
  show "length (overwrite k (take n (drop (off + k) c)) buf) = m"
    using assms l by (simp add: overwrite_def)
qed

lemma read_loop_correct:
  assumes "reads_file W (hsi_nfs3_getfh3 i) content" "heap s p = Some i" "clnt_live s (clntp s)" "rsize s \<noteq> 0"
    and "unat off + unat sz < 2 ^ 64" "length buf = unat sz" "content (env s) = c"
    and "unat cnt \<le> unat sz" "cnt = 0 \<or> unat off + unat cnt < length c"
    and "take (unat cnt) buf = take (unat cnt) (drop (unat off) c)"
  shows "\<exists>cnt' buf' e. read_loop W p sz off cnt buf s = Some (Inr (cnt', buf'), s\<lparr>env := e\<rparr>) \<and>
    content e = c \<and> unat cnt' \<le> unat sz \<and> take (unat cnt') buf' = take (unat sz) (drop (unat off) c)"
  using assms
proof (induction "unat sz - unat cnt" arbitrary: cnt buf s rule: less_induct)
  case less
  show ?case
  proof (cases "cnt < sz")
    case False
    then have "unat cnt = unat sz" using less.prems(8) by (simp add: word_less_nat_alt)
    moreover have "read_loop W p sz off cnt buf s = Some (Inr (cnt, buf), s\<lparr>env := env s\<rparr>)"
      using False by (subst read_loop.simps) simp
    ultimately show ?thesis
      using less.prems(7,10) by (intro exI [of _ cnt] exI [of _ buf] exI [of _ "env s"]) simp
  next
    case True
    let ?t = "chunk sz cnt (rsize s)"
    have t: "unat ?t = min (unat sz - unat cnt) (unat (rsize s))" using True by (rule unat_chunk)
    have "unat (rsize s) \<noteq> 0" "unat cnt < unat sz"
      using less.prems(4) True by (simp_all add: unat_eq_zero word_less_nat_alt)
    then have "0 < unat ?t" unfolding t by simp
    then have t0: "?t \<noteq> 0" by (metis unsigned_0 less_irrefl)
    have off: "unat (off + cnt) = unat off + unat cnt"
      using less.prems(5,8) unat_add_small [of off "unat cnt"] by simp
    have "unat ?t \<le> length buf - unat cnt" using t less.prems(6) by simp
    from read_step [OF less.prems(1-3) ucast_chunk [OF True] t0 this, of "off + cnt"]
    obtain n e where n: "hsi_nfs3_read W p (off + cnt) ?t (length buf - unat cnt) s =
        Some (Inr \<lparr>rw_data = take n (drop (unat off + unat cnt) c), rw_count = of_nat n,
                   rw_eof = (length c \<le> unat off + unat cnt + n)\<rparr>, s\<lparr>env := e\<rparr>)"
        "content e = c" "n \<le> unat ?t" "n \<le> length c - (unat off + unat cnt)"
        "unat off + unat cnt < length c \<longrightarrow> 0 < n"
      using off less.prems(7) by auto
    let ?b = "overwrite (unat cnt) (take n (drop (unat off + unat cnt) c)) buf"
    have le: "unat cnt + n \<le> unat sz" using n(3) t \<open>unat cnt < unat sz\<close> by linarith
    then have c': "unat (cnt + of_nat n) = unat cnt + n"
      using less.prems(5) by (intro unat_add_small) simp
    have fit: "unat cnt + n \<le> length c - unat off" using n(4) less.prems(9) by (cases "cnt = 0") auto
    note ow = overwrite_extends [OF less.prems(10,6) le fit]
    show ?thesis
    proof (cases "length c \<le> unat off + unat cnt + n")
      case eof: True
      have "take (unat sz) (drop (unat off) c) = take (unat cnt + n) (drop (unat off) c)"
        using eof le by simp
      then have "take (unat (cnt + of_nat n)) ?b = take (unat sz) (drop (unat off) c)"
        using ow(1) c' by simp
      then show ?thesis
        using n(1,2) eof True le c' by (subst read_loop.simps) auto
    next
      case more: False
      have "read_loop W p sz off cnt buf s = read_loop W p sz off (cnt + of_nat n) ?b (s\<lparr>env := e\<rparr>)"
        using n(1) more True by (subst read_loop.simps) simp
      moreover have "\<exists>cnt' buf' e'. read_loop W p sz off (cnt + of_nat n) ?b (s\<lparr>env := e\<rparr>) =
          Some (Inr (cnt', buf'), s\<lparr>env := e\<rparr>\<lparr>env := e'\<rparr>) \<and> content e' = c \<and> unat cnt' \<le> unat sz \<and>
          take (unat cnt') buf' = take (unat sz) (drop (unat off) c)"
      proof (rule less.hyps)
        have "0 < n" using n(5) less.prems(9) more \<open>unat cnt < unat sz\<close> by (cases "unat off + unat cnt < length c") auto
        then show "unat sz - unat (cnt + of_nat n) < unat sz - unat cnt"
          using c' \<open>unat cnt < unat sz\<close> by simp
        show "clnt_live (s\<lparr>env := e\<rparr>) (clntp (s\<lparr>env := e\<rparr>))" using less.prems(3) by (simp add: clnt_live_def)
        show "cnt + of_nat n = 0 \<or> unat off + unat (cnt + of_nat n) < length c" using more c' by simp
        show "unat (cnt + of_nat n) \<le> unat sz" using le c' by simp
        show "take (unat (cnt + of_nat n)) ?b = take (unat (cnt + of_nat n)) (drop (unat off) c)"
          unfolding c' by (rule ow)
        show "length ?b = unat sz" by (rule ow)
      qed (use less.prems(1-5) n(2) in simp_all)
      ultimately show ?thesis by simp
    qed
  qed
qed

text \<open>C3. Reading returns the bytes of the file: against a server that answers READ as the protocol says, with as many
  bytes per call as it likes, the loop ends and the one reply holds exactly the bytes of the file from the
  offset on, up to the size asked for or the end of the file.\<close>

theorem hsx_fuse_read_correct:
  assumes "reads_file W (hsi_nfs3_getfh3 i) content" "hsfs_ilookup s n = Some p" "p \<noteq> 0" "heap s p = Some i"
    and "clnt_live s (clntp s)" "rsize s \<noteq> 0" "unat off + unat sz < 2 ^ 64" "mem_ok W (unat sz) (env s)"
  shows "\<exists>e. hsx_fuse_read W n sz off s =
      Some ([ReplyBuf (take (unat sz) (drop (unat off) (content (env s))))], s\<lparr>env := e\<rparr>) \<and>
    content e = content (env s)"
proof -
  obtain cnt buf e where r: "read_loop W p sz off 0 (replicate (unat sz) 0) s = Some (Inr (cnt, buf), s\<lparr>env := e\<rparr>)"
      "content e = content (env s)" "unat cnt \<le> unat sz"
      "take (unat cnt) buf = take (unat sz) (drop (unat off) (content (env s)))"
    using read_loop_correct [OF assms(1,4-7), of "replicate (unat sz) 0" "content (env s)" 0] by auto
  then show ?thesis using assms(2,3,8) by (intro exI [of _ e]) (simp add: hsx_fuse_read_def)
qed

section \<open>Writing\<close>

text \<open>\<open>d\<close> written at position \<open>off\<close>; a gap is filled with zeros.\<close>

definition store :: "nat \<Rightarrow> u8 list \<Rightarrow> u8 list \<Rightarrow> u8 list" where
  "store off d c = (if d = [] then c
     else take off (c @ replicate (off - length c) 0) @ d @ drop (off + length d) c)"

lemma store_store:
  "store (off + length d) d' (store off d c) = store off (d @ d') c"
proof (cases "d = [] \<or> d' = []")
  case False
  have l: "length (take off (c @ replicate (off - length c) 0)) = off" by simp
  let ?x = "take off (c @ replicate (off - length c) 0)"
  have "take (off + length d) ((?x @ d @ drop (off + length d) c) @ r) = ?x @ d" for r
    using l by simp
  moreover have "drop (off + length d + length d') (?x @ d @ drop (off + length d) c) = drop (off + length d + length d') c"
    using l by (simp add: add.commute add.left_commute)
  ultimately show ?thesis using False by (simp add: store_def add.assoc)
qed (auto simp: store_def)

text \<open>WRITE on the file \<open>f\<close>: at least one of the bytes given is stored, and as many as reported.\<close>

definition writes_file :: "'e world \<Rightarrow> nfs_fh3 \<Rightarrow> ('e \<Rightarrow> u8 list) \<Rightarrow> bool" where
  "writes_file W f content \<longleftrightarrow>
     (\<forall>c off cnt how d e. cnt \<noteq> 0 \<longrightarrow> length d = unat cnt \<longrightarrow>
        (\<exists>n e'. nfs_write W c \<lparr>wa_file = f, wa_offset = off, wa_count = cnt, wa_stable = how, wa_data = d\<rparr> e =
             (Inr \<lparr>status = 0, resok = of_nat n\<rparr>, e') \<and>
           0 < n \<and> n \<le> unat cnt \<and> content e' = store (unat off) (take n d) (content e)))"

lemma write_step:
  assumes "writes_file W (hsi_nfs3_getfh3 i) content" "heap s p = Some i" "clnt_live s (clntp s)"
    and "unat (ucast tmp :: u32) = unat tmp" "tmp \<noteq> 0" "length d = unat tmp"
  shows "\<exists>n e. hsi_nfs3_write W p off tmp how d s = Some (Inr (of_nat n), s\<lparr>env := e\<rparr>) \<and>
    0 < n \<and> n \<le> unat tmp \<and> content e = store (unat off) (take n d) (content (env s))"
proof -
  have "(ucast tmp :: u32) \<noteq> 0" using assms(4,5) by (metis unsigned_0 unat_eq_zero)
  then obtain n e where n: "nfs_write W (clntp s) \<lparr>wa_file = hsi_nfs3_getfh3 i, wa_offset = off,
        wa_count = ucast tmp, wa_stable = how, wa_data = d\<rparr> (env s) = (Inr \<lparr>status = 0, resok = of_nat n\<rparr>, e)"
      "0 < n" "n \<le> unat (ucast tmp :: u32)" "content e = store (unat off) (take n d) (content (env s))"
    using assms(1,4,6) unfolding writes_file_def by metis
  have "(ucast (of_nat n :: u32) :: u64) = of_nat n"
    using n(3) unat_io_less [of "ucast tmp"] by (intro ucast_of_nat_io) simp
  then show ?thesis
    using n assms clnt_call_first [where proc = "nfs_write W", OF assms(3) n(1), of "rpc W"]
    by (auto simp: hsi_nfs3_write_def hsi_nfs3_stat_to_errno_def nfs_errtbl_def clnt_freeres_def
        clnt_live_def Let_def)
qed

lemma write_loop_correct:
  assumes "writes_file W (hsi_nfs3_getfh3 i) content" "heap s p = Some i" "clnt_live s (clntp s)" "wsize s \<noteq> 0"
    and "unat off + unat sz < 2 ^ 64" "length buf = unat sz" "unat cnt \<le> unat sz"
    and "content (env s) = store (unat off) (take (unat cnt) buf) c"
  shows "\<exists>e. write_loop W p buf sz off how cnt s = Some (Inr sz, s\<lparr>env := e\<rparr>) \<and>
    content e = store (unat off) buf c"
  using assms
proof (induction "unat sz - unat cnt" arbitrary: cnt s rule: less_induct)
  case less
  show ?case
  proof (cases "cnt < sz")
    case False
    then have "unat cnt = unat sz" using less.prems(7) by (simp add: word_less_nat_alt)
    then have "cnt = sz" by (rule unsigned_word_eqI)
    then show ?thesis
      using less.prems(6,8) by (subst write_loop.simps) (simp add: exI [of _ "env s"])
  next
    case True
    then have lt: "unat cnt < unat sz" by (simp add: word_less_nat_alt)
    let ?t = "chunk sz cnt (wsize s)"
    let ?d = "take (unat ?t) (drop (unat cnt) buf)"
    have t: "unat ?t = min (unat sz - unat cnt) (unat (wsize s))" using True by (rule unat_chunk)
    have "unat (wsize s) \<noteq> 0" using less.prems(4) by (simp add: unat_eq_zero)
    then have "0 < unat ?t" unfolding t using lt by simp
    then have t0: "?t \<noteq> 0" by (metis unsigned_0 less_irrefl)
    have off: "unat (off + cnt) = unat off + unat cnt"
      using less.prems(5,7) unat_add_small [of off "unat cnt"] by simp
    have "length ?d = unat ?t" using t less.prems(6) by simp
    from write_step [OF less.prems(1-3) ucast_chunk [OF True] t0 this, of "off + cnt" how]
    obtain n e where n: "hsi_nfs3_write W p (off + cnt) ?t how ?d s = Some (Inr (of_nat n), s\<lparr>env := e\<rparr>)"
        "0 < n" "n \<le> unat ?t" "content e = store (unat off + unat cnt) (take n ?d) (content (env s))"
      using off by auto
    have le: "unat cnt + n \<le> unat sz" using n(3) t lt by linarith
    then have c': "unat (cnt + of_nat n) = unat cnt + n"
      using less.prems(5) by (intro unat_add_small) simp
    have "take n ?d = take n (drop (unat cnt) buf)" using n(3) by (simp add: min_absorb1)
    then have "content e = store (unat off) (take (unat cnt + n) buf) c"
      using n(4) less.prems(8) store_store [of "unat off" "take (unat cnt) buf" "take n (drop (unat cnt) buf)" c]
        less.prems(6,7) by (simp add: take_add min_absorb2)
    then have inv: "content (env (s\<lparr>env := e\<rparr>)) = store (unat off) (take (unat (cnt + of_nat n)) buf) c"
      using c' by simp
    have "write_loop W p buf sz off how cnt s = write_loop W p buf sz off how (cnt + of_nat n) (s\<lparr>env := e\<rparr>)"
      using n(1) True by (subst write_loop.simps) (simp add: Let_def)
    moreover have "\<exists>e'. write_loop W p buf sz off how (cnt + of_nat n) (s\<lparr>env := e\<rparr>) =
        Some (Inr sz, s\<lparr>env := e\<rparr>\<lparr>env := e'\<rparr>) \<and> content e' = store (unat off) buf c"
    proof (rule less.hyps [OF _ less.prems(1) _ _ _ less.prems(5,6) _ inv])
      show "unat sz - unat (cnt + of_nat n) < unat sz - unat cnt" using c' lt n(2) by simp
      show "clnt_live (s\<lparr>env := e\<rparr>) (clntp (s\<lparr>env := e\<rparr>))" using less.prems(3) by (simp add: clnt_live_def)
      show "unat (cnt + of_nat n) \<le> unat sz" using le c' by simp
    qed (use less.prems(2,4) in simp_all)
    ultimately show ?thesis by simp
  qed
qed

text \<open>C4. Writing stores the bytes: against a server that answers WRITE as the protocol says, storing as many bytes
  per call as it likes but at least one, the loop ends, the reply reports the full size, and the file holds
  the buffer at the offset and is unchanged elsewhere.\<close>

theorem hsx_fuse_write_correct:
  assumes "writes_file W (hsi_nfs3_getfh3 i) content" "hsfs_ilookup s n = Some p" "p \<noteq> 0" "heap s p = Some i"
    and "clnt_live s (clntp s)" "wsize s \<noteq> 0" "unat off + unat sz < 2 ^ 64" "length buf = unat sz"
    and "mem_ok W (unat (wsize s)) (env s)"
  shows "\<exists>e. hsx_fuse_write W n buf sz off direct_io s = Some ([ReplyWrite sz], s\<lparr>env := e\<rparr>) \<and>
    content e = store (unat off) buf (content (env s))"
proof -
  obtain e where "write_loop W p buf sz off (if direct_io then HSFS_FILE_SYNC else HSFS_UNSTABLE) 0 s =
      Some (Inr sz, s\<lparr>env := e\<rparr>)" "content e = store (unat off) buf (content (env s))"
    using write_loop_correct [OF assms(1,4-8), of 0 "content (env s)" "if direct_io then HSFS_FILE_SYNC else HSFS_UNSTABLE"]
    by (auto simp: store_def)
  then show ?thesis using assms(2,3,9) by (intro exI [of _ e]) (simp add: hsx_fuse_write_def)
qed

end
