(* ===== verification/Mntent.thy ===== *)
theory Mntent
  imports Prelude
begin

text \<open>
  The format of the mount table, nfs3/nfs_mntent.c: escaping, writing an entry, reading the next entry.
  A pointer into a line is the rest of the line; an open file is its unread rest.  Files hold no NUL
  bytes.
\<close>

section \<open>Escaping\<close>

abbreviation SP :: char where "SP \<equiv> CHR 0x20"
abbreviation TAB :: char where "TAB \<equiv> CHR 0x09"
abbreviation NL :: char where "NL \<equiv> CHR 0x0A"
abbreviation CR :: char where "CR \<equiv> CHR 0x0D"
abbreviation BACKSLASH :: char where "BACKSLASH \<equiv> CHR 0x5C"

definition need_escaping :: "char list" where
  "need_escaping = [SP, TAB, NL, BACKSLASH]"

definition ascii_digit :: "nat \<Rightarrow> char" where
  "ascii_digit n = char_of (48 + n)"

fun mangle :: "string \<Rightarrow> string" where
  "mangle [] = []"
| "mangle (c # s) =
     (if c \<in> set need_escaping then
        BACKSLASH # ascii_digit (of_char c div 64) # ascii_digit (of_char c div 8 mod 8) #
          ascii_digit (of_char c mod 8) # mangle s
      else c # mangle s)"

definition is_space_or_tab :: "char \<Rightarrow> bool" where
  "is_space_or_tab c \<longleftrightarrow> c = SP \<or> c = TAB"

definition skip_spaces :: "string \<Rightarrow> string" where
  "skip_spaces s = dropWhile is_space_or_tab s"

definition skip_nonspaces :: "string \<Rightarrow> string" where
  "skip_nonspaces s = dropWhile (\<lambda>c. \<not> is_space_or_tab c) s"

definition isoctal :: "char \<Rightarrow> bool" where
  "isoctal a \<longleftrightarrow> of_char a div 8 * 8 = (48 :: nat)"

fun unmangle_field :: "string \<Rightarrow> string" where
  "unmangle_field [] = []"
| "unmangle_field (c # s) =
     (case s of
        a # b # d # s' \<Rightarrow>
          if c = BACKSLASH \<and> isoctal a \<and> isoctal b \<and> isoctal d then
            char_of (64 * (of_char a mod 8) + 8 * (of_char b mod 8) + of_char d mod 8 :: nat) # unmangle_field s'
          else c # unmangle_field s
      | _ \<Rightarrow> c # unmangle_field s)"

definition unmangle :: "string \<Rightarrow> string" where
  "unmangle s = unmangle_field (takeWhile (\<lambda>c. \<not> is_space_or_tab c) s)"

section \<open>Entries\<close>

record mntent =
  mnt_fsname :: string
  mnt_dir :: string
  mnt_type :: string
  mnt_opts :: string
  mnt_freq :: int
  mnt_passno :: int

text \<open>\<open>%d\<close>\<close>

fun dec :: "nat \<Rightarrow> string" where
  "dec n = (if n < 10 then [ascii_digit n] else dec (n div 10) @ [ascii_digit (n mod 10)])"

declare dec.simps [simp del]

definition show_int :: "int \<Rightarrow> string" where
  "show_int k = (if k < 0 then CHR ''-'' # dec (nat (- k)) else dec (nat k))"

definition mntent_line :: "mntent \<Rightarrow> string" where
  "mntent_line m = mangle (mnt_fsname m) @ [SP] @ mangle (mnt_dir m) @ [SP] @ mangle (mnt_type m) @ [SP] @
     mangle (mnt_opts m) @ [SP] @ show_int (mnt_freq m) @ [SP] @ show_int (mnt_passno m) @ [NL]"

text \<open>\<open>io_ok\<close>: both \<open>fseek\<close> and \<open>fprintf\<close> succeed.  The file is positioned at its end.\<close>

definition nfs_addmntent :: "bool \<Rightarrow> string \<Rightarrow> mntent \<Rightarrow> int \<times> string" where
  "nfs_addmntent io_ok file m = (if io_ok then (0, file @ mntent_line m) else (1, file))"

section \<open>Reading\<close>

abbreviation ERR_MAX :: nat where "ERR_MAX \<equiv> 5"
abbreviation BUFLEN :: nat where "BUFLEN \<equiv> 4096"

record mntfile =
  mf_rest :: string
  mntent_lineno :: nat
  mntent_errs :: bool
  mntent_softerrs :: nat

text \<open>\<open>fgets\<close> into a buffer of \<open>BUFLEN\<close> bytes: what it reads, with the newline if there is one, and the
  rest of the file.\<close>

definition fgets :: "string \<Rightarrow> (string \<times> string) option" where
  "fgets r =
     (if r = [] then None
      else
        let l = takeWhile (\<lambda>c. c \<noteq> NL) (take (BUFLEN - 1) r) in
        if length l < length (take (BUFLEN - 1) r) then Some (l @ [NL], drop (length l + 1) r)
        else Some (l, drop (length l) r))"

definition isdigit :: "char \<Rightarrow> bool" where
  "isdigit c \<longleftrightarrow> 48 \<le> (of_char c :: nat) \<and> of_char c \<le> (57 :: nat)"

definition atoi :: "string \<Rightarrow> int" where
  "atoi s = int (fold (\<lambda>c n. 10 * n + (of_char c - 48)) (takeWhile isdigit s) 0)"

text \<open>A number field; \<open>None\<close> where something else follows it.\<close>

definition number_field :: "string \<Rightarrow> (int \<times> string) option" where
  "number_field s =
     (let v = (if s \<noteq> [] \<and> isdigit (hd s) then atoi s else 0);
          s = dropWhile isdigit s
      in if s \<noteq> [] \<and> \<not> is_space_or_tab (hd s) then None else Some (v, s))"

definition parse_mntent :: "string \<Rightarrow> mntent option" where
  "parse_mntent s =
     do { let fsname = unmangle s;
          let s = skip_spaces (skip_nonspaces s);
          let dir = unmangle s;
          let s = skip_spaces (skip_nonspaces s);
          let type = unmangle s;
          let s = skip_spaces (skip_nonspaces s);
          let opts = unmangle s;
          let s = skip_spaces (skip_nonspaces s);
          (freq, s) \<leftarrow> number_field s;
          let s = skip_spaces s;
          (passno, s) \<leftarrow> number_field s;
          Some \<lparr>mnt_fsname = fsname, mnt_dir = dir, mnt_type = type, mnt_opts = opts,
                mnt_freq = freq, mnt_passno = passno\<rparr> }"

definition chomp :: "string \<Rightarrow> string" where
  "chomp l = (if l \<noteq> [] \<and> last l = CR then butlast l else l)"

lemma fgets_shorter: "fgets r = Some (b, r') \<Longrightarrow> length r' < length r"
  by (cases r) (auto simp: fgets_def Let_def split: if_splits)

function nfs_getmntent :: "mntfile \<Rightarrow> mntent option \<times> mntfile" where
  "nfs_getmntent f =
     (if mntent_errs f \<or> mntent_softerrs f \<ge> ERR_MAX then (None, f)
      else
        case fgets (mf_rest f) of
          None \<Rightarrow> (None, f)
        | Some (buf, rest) \<Rightarrow>
            let f = f\<lparr>mf_rest := rest, mntent_lineno := mntent_lineno f + 1\<rparr> in
            if NL \<notin> set buf \<and> length buf = BUFLEN - 1 then
              nfs_getmntent (f\<lparr>mntent_errs := True, mntent_softerrs := mntent_softerrs f + 1\<rparr>)
            else
              let s = skip_spaces (chomp (takeWhile (\<lambda>c. c \<noteq> NL) buf)) in
              if s = [] \<or> hd s = CHR ''#'' then nfs_getmntent f
              else
                case parse_mntent s of
                  Some me \<Rightarrow> (Some me, f)
                | None \<Rightarrow> nfs_getmntent (f\<lparr>mntent_softerrs := mntent_softerrs f + 1\<rparr>))"
  by pat_completeness auto
termination
  by (relation "measure (\<lambda>f. length (mf_rest f))") (auto dest: fgets_shorter)

declare nfs_getmntent.simps [simp del]

definition open_mntent :: "string \<Rightarrow> mntfile" where
  "open_mntent file = \<lparr>mf_rest = file, mntent_lineno = 0, mntent_errs = False, mntent_softerrs = 0\<rparr>"

section \<open>Escaping is undone\<close>

lemma of_char_ascii_digit [simp]: "k < 10 \<Longrightarrow> of_char (ascii_digit k) = (48 + k :: nat)"
  by (simp add: ascii_digit_def)

lemma ascii_digit_neq:
  "k < 10 \<Longrightarrow> of_char c < (48 :: nat) \<or> 57 < (of_char c :: nat) \<Longrightarrow> ascii_digit k \<noteq> c"
  using of_char_ascii_digit [of k] by auto

lemma ascii_digit_plain [simp]:
  "k < 10 \<Longrightarrow> \<not> is_space_or_tab (ascii_digit k)" "k < 10 \<Longrightarrow> ascii_digit k \<noteq> NL"
  "k < 10 \<Longrightarrow> ascii_digit k \<noteq> CR" "k < 10 \<Longrightarrow> ascii_digit k \<noteq> CHR ''#''" "k < 10 \<Longrightarrow> isdigit (ascii_digit k)"
  by (simp_all add: ascii_digit_neq is_space_or_tab_def isdigit_def)

lemma octal_digits_less [simp]:
  "of_char (c :: char) div 64 < (10 :: nat)" "of_char c div 8 mod 8 < (10 :: nat)" "of_char c mod 8 < (10 :: nat)"
proof -
  have "of_char c < (256 :: nat)" by simp
  then show "of_char c div 64 < (10 :: nat)" by linarith
  show "of_char c div 8 mod 8 < (10 :: nat)" "of_char c mod 8 < (10 :: nat)"
    using pos_mod_bound [of 8] by (simp_all add: less_le_trans [of _ 8])
qed

lemma mangle_plain: "c \<in> set (mangle s) \<Longrightarrow> \<not> is_space_or_tab c \<and> c \<noteq> NL"
  by (induction s) (auto simp: need_escaping_def is_space_or_tab_def [of BACKSLASH] split: if_splits,
     auto simp: is_space_or_tab_def)

lemma unmangle_field_mangle: "unmangle_field (mangle s) = s"
proof (induction s)
  case (Cons c s)
  show ?case
  proof (cases "c \<in> set need_escaping")
    case True
    have "64 * (of_char c div 64) + 8 * (of_char c div 8 mod 8) + of_char c mod 8 = (of_char c :: nat)"
      using True by (auto simp: need_escaping_def)
    moreover have "isoctal (ascii_digit (of_char c div 64))" "isoctal (ascii_digit (of_char c div 8 mod 8))"
      "isoctal (ascii_digit (of_char c mod 8))"
      using True by (auto simp: need_escaping_def isoctal_def)
    moreover have "of_char (ascii_digit (of_char c div 64)) mod 8 = (of_char c div 64 :: nat)"
      "of_char (ascii_digit (of_char c div 8 mod 8)) mod 8 = (of_char c div 8 mod 8 :: nat)"
      "of_char (ascii_digit (of_char c mod 8)) mod 8 = (of_char c mod 8 :: nat)"
      using True by (auto simp: need_escaping_def)
    ultimately show ?thesis
      using True Cons by (simp del: of_char_ascii_digit)
  next
    case False
    then have "unmangle_field (c # mangle s) = c # unmangle_field (mangle s)"
      by (auto simp: need_escaping_def split: list.splits)
    then show ?thesis using False Cons by simp
  qed
qed simp

lemma takeWhile_mangle:
  "r = [] \<or> is_space_or_tab (hd r) \<Longrightarrow> takeWhile (\<lambda>c. \<not> is_space_or_tab c) (mangle s @ r) = mangle s"
  "r = [] \<or> is_space_or_tab (hd r) \<Longrightarrow> dropWhile (\<lambda>c. \<not> is_space_or_tab c) (mangle s @ r) = r"
  using mangle_plain [of _ s] by (cases r; simp add: takeWhile_append dropWhile_append)+

lemma unmangle_mangle: "r = [] \<or> is_space_or_tab (hd r) \<Longrightarrow> unmangle (mangle s @ r) = s"
  by (simp add: unmangle_def takeWhile_mangle unmangle_field_mangle)

section \<open>An entry that is written is read back\<close>

lemma dec_digits: "\<forall>c \<in> set (dec n). isdigit c \<and> \<not> is_space_or_tab c \<and> c \<noteq> NL \<and> c \<noteq> CR"
proof (induction n rule: dec.induct)
  case (1 n)
  then show ?case by (subst dec.simps) auto
qed

lemma dec_value: "fold (\<lambda>c n. 10 * n + (of_char c - 48)) (dec n) 0 = (n :: nat)"
proof (induction n rule: dec.induct)
  case (1 n)
  then show ?case by (subst dec.simps) auto
qed

lemma dec_nonempty [simp]: "dec n \<noteq> []"
  by (subst dec.simps) simp

lemma takeWhile_dec:
  assumes "r = [] \<or> \<not> isdigit (hd r)"
  shows "takeWhile isdigit (dec n @ r) = dec n" "dropWhile isdigit (dec n @ r) = r"
  using assms dec_digits [of n] by (cases r; simp add: takeWhile_append dropWhile_append)+

lemma number_field_show:
  assumes "0 \<le> k" "r = [] \<or> is_space_or_tab (hd r)"
  shows "number_field (show_int k @ r) = Some (k, r)"
proof -
  have "r = [] \<or> \<not> isdigit (hd r)"
    using assms(2) by (auto simp: is_space_or_tab_def isdigit_def)
  note t = takeWhile_dec [OF this, of "nat k"]
  have "isdigit (hd (dec (nat k)))" using dec_digits [of "nat k"] by simp
  then show ?thesis
    using assms t by (simp add: number_field_def show_int_def atoi_def dec_value)
qed

lemma space_is_space [simp]: "is_space_or_tab SP"
  by (simp add: is_space_or_tab_def)

lemma skip_spaces_plain: "s = [] \<or> \<not> is_space_or_tab (hd s) \<Longrightarrow> skip_spaces (SP # s) = s"
  by (cases s) (auto simp: skip_spaces_def is_space_or_tab_def)

lemma mangle_hd:
  assumes "s \<noteq> []"
  shows "mangle s \<noteq> []" "\<not> is_space_or_tab (hd (mangle s @ r))" "hd s \<noteq> CHR ''#'' \<Longrightarrow> hd (mangle s @ r) \<noteq> CHR ''#''"
  using assms by (cases s; auto simp: need_escaping_def is_space_or_tab_def)+

lemma show_int_hd: "0 \<le> k \<Longrightarrow> show_int k \<noteq> []" "0 \<le> k \<Longrightarrow> \<not> is_space_or_tab (hd (show_int k @ r))"
  using dec_digits [of "nat k"] by (simp_all add: show_int_def)

definition mntent_ok :: "mntent \<Rightarrow> bool" where
  "mntent_ok m \<longleftrightarrow> mnt_fsname m \<noteq> [] \<and> hd (mnt_fsname m) \<noteq> CHR ''#'' \<and> mnt_dir m \<noteq> [] \<and> mnt_type m \<noteq> [] \<and>
     mnt_opts m \<noteq> [] \<and> 0 \<le> mnt_freq m \<and> 0 \<le> mnt_passno m \<and> length (mntent_line m) < BUFLEN"

lemma next_field:
  "t \<noteq> [] \<Longrightarrow> skip_spaces (skip_nonspaces (mangle s @ SP # mangle t @ r)) = mangle t @ r"
  using skip_spaces_plain [of "mangle t @ r"] mangle_hd(2) [of t r] by (simp add: skip_nonspaces_def takeWhile_mangle)

lemma next_number:
  "0 \<le> k \<Longrightarrow> skip_spaces (skip_nonspaces (mangle s @ SP # show_int k @ r)) = show_int k @ r"
  using skip_spaces_plain [OF disjI2, OF show_int_hd(2) [of k r]] by (simp add: skip_nonspaces_def takeWhile_mangle)

lemma parse_mntent_line:
  assumes "mntent_ok m"
  shows "parse_mntent (butlast (mntent_line m)) = Some m"
proof -
  have l: "butlast (mntent_line m) = mangle (mnt_fsname m) @ SP # mangle (mnt_dir m) @ SP # mangle (mnt_type m) @ SP #
     mangle (mnt_opts m) @ SP # show_int (mnt_freq m) @ SP # show_int (mnt_passno m)"
    by (simp add: mntent_line_def butlast_append)
  have u: "unmangle (mangle t @ SP # r) = t" for t r by (rule unmangle_mangle) simp
  have n: "number_field (show_int (mnt_freq m) @ SP # r) = Some (mnt_freq m, SP # r)" for r
    using assms by (intro number_field_show) (simp_all add: mntent_ok_def)
  have n': "number_field (show_int (mnt_passno m)) = Some (mnt_passno m, [])"
    using assms number_field_show [of "mnt_passno m" "[]"] by (simp add: mntent_ok_def)
  have "skip_spaces (SP # show_int (mnt_passno m)) = show_int (mnt_passno m)"
    using assms show_int_hd(2) [of "mnt_passno m" "[]"] by (intro skip_spaces_plain) (simp add: mntent_ok_def)
  then show ?thesis
    using assms unfolding l parse_mntent_def
    by (simp add: mntent_ok_def u n n' next_field next_number)
qed

lemma line_parts:
  assumes "mntent_ok m"
  obtains b where "mntent_line m = b @ [NL]" "NL \<notin> set b" "b \<noteq> []" "\<not> is_space_or_tab (hd b)" "hd b \<noteq> CHR ''#''"
    "last b \<noteq> CR" "length b < BUFLEN - 1"
proof
  let ?b = "butlast (mntent_line m)"
  have l: "mntent_line m \<noteq> [] \<and> last (mntent_line m) = NL" by (simp add: mntent_line_def)
  then show "mntent_line m = ?b @ [NL]" by (metis append_butlast_last_id)
  have b: "?b = mangle (mnt_fsname m) @ SP # mangle (mnt_dir m) @ SP # mangle (mnt_type m) @ SP #
     mangle (mnt_opts m) @ SP # show_int (mnt_freq m) @ SP # show_int (mnt_passno m)"
    by (simp add: mntent_line_def butlast_append)
  have d: "c \<noteq> NL \<and> c \<noteq> CR" if "c \<in> set (show_int k)" "0 \<le> k" for c k
    using that dec_digits [of "nat k"] by (auto simp: show_int_def)
  show "NL \<notin> set ?b"
    unfolding b using assms mangle_plain d by (fastforce simp: mntent_ok_def)
  show "?b \<noteq> []" unfolding b by simp
  have h: "mnt_fsname m \<noteq> []" "hd (mnt_fsname m) \<noteq> CHR ''#''" using assms by (simp_all add: mntent_ok_def)
  show "\<not> is_space_or_tab (hd ?b)" "hd ?b \<noteq> CHR ''#''"
    unfolding b by (rule mangle_hd(2,3) [OF h(1)], rule mangle_hd(3) [OF h])
  have s: "show_int (mnt_passno m) \<noteq> []" using assms show_int_hd(1) [of "mnt_passno m"] by (simp add: mntent_ok_def)
  then have "last ?b = last (show_int (mnt_passno m))" unfolding b by simp
  then show "last ?b \<noteq> CR" using d [OF last_in_set [OF s]] assms by (simp add: mntent_ok_def)
  have "0 < length (mntent_line m)" "length (mntent_line m) < BUFLEN" using assms l by (simp_all add: mntent_ok_def)
  then show "length ?b < BUFLEN - 1" by (simp only: length_butlast)
qed

lemma getmntent_line:
  assumes "mntent_ok m" "\<not> mntent_errs f" "mntent_softerrs f < ERR_MAX" "mf_rest f = mntent_line m @ rest"
  shows "nfs_getmntent f = (Some m, f\<lparr>mf_rest := rest, mntent_lineno := mntent_lineno f + 1\<rparr>)"
proof -
  obtain b where b: "mntent_line m = b @ [NL]" "NL \<notin> set b" "b \<noteq> []" "\<not> is_space_or_tab (hd b)" "hd b \<noteq> CHR ''#''"
      "last b \<noteq> CR" "length b < BUFLEN - 1"
    using line_parts [OF assms(1)] .
  have tw: "takeWhile (\<lambda>c. c \<noteq> NL) (b @ NL # r) = b" for r
    using b(2) by (subst takeWhile_append2) auto
  obtain k where "BUFLEN - 1 - length b = Suc k" using b(7) by (metis Suc_diff_Suc)
  then have "take (BUFLEN - 1) (b @ NL # rest) = b @ NL # take k rest" by simp
  then have "fgets (mf_rest f) = Some (b @ [NL], rest)"
    using assms(4) b(1) tw by (simp add: fgets_def)
  moreover have "skip_spaces b = b" using b(3,4) by (cases b) (simp_all add: skip_spaces_def)
  moreover have "parse_mntent b = Some m" using parse_mntent_line [OF assms(1)] b(1) by simp
  ultimately show ?thesis
    using assms(2,3) b tw [of "[]"] by (subst nfs_getmntent.simps) (simp add: chomp_def)
qed

lemma getmntent_end: "mf_rest f = [] \<Longrightarrow> nfs_getmntent f = (None, f)"
  by (subst nfs_getmntent.simps) (simp add: fgets_def)

end
