(* ===== verification/Parse_Dev.thy ===== *)
theory Parse_Dev
  imports Prelude
begin

text \<open>
  The device name "host:path" of a mount, utils/mount/parse_dev.c.  The parser works on a copy of the
  name that it cuts with NUL bytes; here the pieces are the strings they delimit.  \<open>alloc_ok n\<close> tells
  whether a copy of \<open>n\<close> bytes can be allocated.
\<close>

abbreviation NFS_MAXHOSTNAME :: nat where "NFS_MAXHOSTNAME \<equiv> 255"
abbreviation NFS_MAXPATHNAME :: nat where "NFS_MAXPATHNAME \<equiv> 1024"

datatype pdn_error =
    no_devname_err | hostname_too_long_err | pathname_too_long_err | bad_format_err | nomem_err
  | missing_brace_err | nfs_url_err

text \<open>\<open>strchr\<close>: what is before the first \<open>c\<close>, and what is behind it.\<close>

definition cut_at :: "char \<Rightarrow> string \<Rightarrow> (string \<times> string) option" where
  "cut_at c s =
     (if c \<in> set s then Some (takeWhile (\<lambda>x. x \<noteq> c) s, tl (dropWhile (\<lambda>x. x \<noteq> c) s)) else None)"

text \<open>The two copies at the end of both parsers.\<close>

definition dup_parts :: "(nat \<Rightarrow> bool) \<Rightarrow> string \<Rightarrow> string \<Rightarrow> pdn_error + string \<times> string" where
  "dup_parts alloc_ok host path =
     (if \<not> alloc_ok (length host + 1) then Inl nomem_err
      else if \<not> alloc_ok (length path + 1) then Inl nomem_err
      else Inr (host, path))"

text \<open>\<open>colon++\<close> belongs to the \<open>else\<close> of the test for a comma: with a comma the path is what is between
  the NUL at the colon and itself.\<close>

definition nfs_parse_simple_hostname :: "(nat \<Rightarrow> bool) \<Rightarrow> string \<Rightarrow> pdn_error + string \<times> string" where
  "nfs_parse_simple_hostname alloc_ok dev =
     (case cut_at CHR '':'' dev of
        None \<Rightarrow> Inl bad_format_err
      | Some (host, rest) \<Rightarrow>
          if length host > NFS_MAXHOSTNAME then Inl hostname_too_long_err
          else
            let (host, path) = (case cut_at CHR '','' host of
                                  Some (host1, others) \<Rightarrow> (host1, [])
                                | None \<Rightarrow> (host, rest))
            in if length path > NFS_MAXPATHNAME then Inl pathname_too_long_err
               else dup_parts alloc_ok host path)"

definition nfs_parse_square_bracket :: "(nat \<Rightarrow> bool) \<Rightarrow> string \<Rightarrow> pdn_error + string \<times> string" where
  "nfs_parse_square_bracket alloc_ok dev =
     (case cut_at CHR '']'' (tl dev) of
        None \<Rightarrow> Inl missing_brace_err
      | Some (host, rest) \<Rightarrow>
          if rest = [] \<or> hd rest \<noteq> CHR '':'' then Inl bad_format_err
          else if length host > NFS_MAXHOSTNAME then Inl hostname_too_long_err
          else if length (tl rest) > NFS_MAXPATHNAME then Inl pathname_too_long_err
          else dup_parts alloc_ok host (tl rest))"

definition nfs_parse_nfs_url :: "string \<Rightarrow> pdn_error + string \<times> string" where
  "nfs_parse_nfs_url dev = Inl nfs_url_err"

definition nfs_parse_devname :: "(nat \<Rightarrow> bool) \<Rightarrow> string option \<Rightarrow> pdn_error + string \<times> string" where
  "nfs_parse_devname alloc_ok devname =
     (case devname of
        None \<Rightarrow> Inl no_devname_err
      | Some dev \<Rightarrow>
          if \<not> alloc_ok (length dev + 1) then Inl nomem_err
          else if dev \<noteq> [] \<and> hd dev = CHR ''['' then nfs_parse_square_bracket alloc_ok dev
          else if take 6 dev = ''nfs://'' then nfs_parse_nfs_url dev
          else nfs_parse_simple_hostname alloc_ok dev)"

section \<open>Lemmas\<close>

lemma cut_at_append: "c \<notin> set s \<Longrightarrow> cut_at c (s @ c # t) = Some (s, t)"
  by (simp add: cut_at_def takeWhile_append dropWhile_append)

lemma cut_at_none: "c \<notin> set s \<Longrightarrow> cut_at c s = None"
  by (simp add: cut_at_def)

lemma cut_at_join: "cut_at c s = Some (a, b) \<Longrightarrow> s = a @ c # b \<and> c \<notin> set a"
proof -
  assume *: "cut_at c s = Some (a, b)"
  then have c: "c \<in> set s" "a = takeWhile (\<lambda>x. x \<noteq> c) s" "b = tl (dropWhile (\<lambda>x. x \<noteq> c) s)"
    by (auto simp: cut_at_def split: if_splits)
  have d: "dropWhile (\<lambda>x. x \<noteq> c) s \<noteq> []" using c(1) by simp
  then have "hd (dropWhile (\<lambda>x. x \<noteq> c) s) = c" using hd_dropWhile [OF d] by simp
  then have "dropWhile (\<lambda>x. x \<noteq> c) s = c # b" using d c(3) by (metis list.collapse)
  then show ?thesis
    using c(2) takeWhile_dropWhile_id [of "\<lambda>x. x \<noteq> c" s] set_takeWhileD [of _ "\<lambda>x. x \<noteq> c" s] by metis
qed

lemma parse_simple:
  assumes "CHR '':'' \<notin> set h" "CHR '','' \<notin> set h" "length h \<le> NFS_MAXHOSTNAME" "length p \<le> NFS_MAXPATHNAME"
    and "\<And>n. alloc_ok n"
  shows "nfs_parse_simple_hostname alloc_ok (h @ CHR '':'' # p) = Inr (h, p)"
  using assms by (simp add: nfs_parse_simple_hostname_def cut_at_append cut_at_none dup_parts_def)

lemma parse_simple_list:
  assumes "CHR '':'' \<notin> set h" "CHR '','' \<notin> set h" "CHR '':'' \<notin> set hs"
    and "length h + length hs < NFS_MAXHOSTNAME" "\<And>n. alloc_ok n"
  shows "nfs_parse_simple_hostname alloc_ok (h @ CHR '','' # hs @ CHR '':'' # p) = Inr (h, [])"
proof -
  have "cut_at CHR '':'' ((h @ CHR '','' # hs) @ CHR '':'' # p) = Some (h @ CHR '','' # hs, p)"
    using assms by (intro cut_at_append) simp
  then show ?thesis
    using assms by (simp add: nfs_parse_simple_hostname_def cut_at_append dup_parts_def)
qed

lemma parse_bracket:
  assumes "CHR '']'' \<notin> set h" "length h \<le> NFS_MAXHOSTNAME" "length p \<le> NFS_MAXPATHNAME" "\<And>n. alloc_ok n"
  shows "nfs_parse_square_bracket alloc_ok (CHR ''['' # h @ CHR '']'' # CHR '':'' # p) = Inr (h, p)"
  using assms by (simp add: nfs_parse_square_bracket_def cut_at_append dup_parts_def)

text \<open>Whatever is accepted has bounded parts.\<close>

lemma parse_bounds:
  "nfs_parse_devname alloc_ok dev = Inr (h, p) \<Longrightarrow> length h \<le> NFS_MAXHOSTNAME \<and> length p \<le> NFS_MAXPATHNAME"
proof -
  assume *: "nfs_parse_devname alloc_ok dev = Inr (h, p)"
  have cut: "length a < length s" if "cut_at c s = Some (a, b)" for c s a b
    using cut_at_join [OF that] by simp
  show ?thesis
    using * by (auto simp: nfs_parse_devname_def nfs_parse_square_bracket_def nfs_parse_simple_hostname_def
        nfs_parse_nfs_url_def dup_parts_def dest!: cut [of "CHR '','' "] split: option.splits if_splits)
qed

section \<open>Properties\<close>

text \<open>C21. A device string of the documented form, "host:path" or "[address]:path", is taken apart into exactly its
  host and its path, for every host and path within the limits of the protocol.\<close>

theorem nfs_parse_devname_roundtrip:
  assumes "\<forall>n. alloc_ok n" "length h \<le> NFS_MAXHOSTNAME" "length p \<le> NFS_MAXPATHNAME"
  shows "(CHR '':'' \<notin> set h \<and> CHR '','' \<notin> set h \<and> take 1 h \<noteq> ''['' \<and> h \<noteq> ''nfs'' \<longrightarrow>
           nfs_parse_devname alloc_ok (Some (h @ CHR '':'' # p)) = Inr (h, p)) \<and>
    (CHR '']'' \<notin> set h \<longrightarrow> nfs_parse_devname alloc_ok (Some (CHR ''['' # h @ CHR '']'' # CHR '':'' # p)) = Inr (h, p))"
proof -
  have "take 6 (h @ CHR '':'' # p) \<noteq> ''nfs://''" if "CHR '':'' \<notin> set h" "h \<noteq> ''nfs''"
  proof
    assume *: "take 6 (h @ CHR '':'' # p) = ''nfs://''"
    then have "takeWhile (\<lambda>c. c \<noteq> CHR '':'') (take 6 (h @ CHR '':'' # p)) = ''nfs''" by simp
    moreover have "takeWhile (\<lambda>c. c \<noteq> CHR '':'') (take 6 (h @ CHR '':'' # p)) = take 6 h"
      using that(1) by (auto simp: takeWhile_append take_Cons' dest: in_set_takeD)
    ultimately have "take 6 h = ''nfs''" by simp
    then have "length (take 6 h) = 3" by simp
    then have "length h = 3" by simp
    then show False using \<open>take 6 h = ''nfs''\<close> that(2) by simp
  qed
  then show ?thesis
    using assms parse_simple [of h p alloc_ok] parse_bracket [of h p alloc_ok]
    by (cases h) (auto simp: nfs_parse_devname_def)
qed

theorem nfs_parse_devname_roundtrip_witness:
  "nfs_parse_devname (\<lambda>_. True) (Some ''filer:/export/home'') = Inr (''filer'', ''/export/home'') \<and>
   nfs_parse_devname (\<lambda>_. True) (Some ''[fe80::1]:/x'') = Inr (''fe80::1'', ''/x'')"
  using nfs_parse_devname_roundtrip [of "\<lambda>_. True" "''filer''" "''/export/home''"]
    nfs_parse_devname_roundtrip [of "\<lambda>_. True" "''fe80::1''" "''/x''"] by simp

text \<open>With a list of hosts before the colon the parser succeeds with the first host and an empty path,
  whatever path the string gives: the increment of \<open>colon\<close> has become the \<open>else\<close> branch of the test for a comma.\<close>

theorem nfs_parse_devname_list:
  assumes "\<forall>n. alloc_ok n" "CHR '':'' \<notin> set h" "CHR '','' \<notin> set h" "take 1 h \<noteq> ''[''"
    and "CHR '':'' \<notin> set hs" "length h + length hs < NFS_MAXHOSTNAME"
  shows "nfs_parse_devname alloc_ok (Some (h @ CHR '','' # hs @ CHR '':'' # p)) = Inr (h, [])"
proof -
  have "take 6 (h @ CHR '','' # hs @ CHR '':'' # p) \<noteq> ''nfs://''"
  proof
    assume *: "take 6 (h @ CHR '','' # hs @ CHR '':'' # p) = ''nfs://''"
    show False
    proof (cases "length h < 6")
      case True
      then have "CHR '','' \<in> set (take 6 (h @ CHR '','' # hs @ CHR '':'' # p))" by (simp add: take_Cons')
      then show False unfolding * by simp
    next
      case False
      then have "take 6 h = ''nfs://''" using * by simp
      then have "CHR '':'' \<in> set (take 6 h)" by simp
      then show False using assms(2) by (blast dest: in_set_takeD)
    qed
  qed
  then show ?thesis
    using assms parse_simple_list [of h hs alloc_ok p] by (cases h) (auto simp: nfs_parse_devname_def)
qed

theorem nfs_parse_devname_list_witness:
  "nfs_parse_devname (\<lambda>_. True) (Some ''a,b:/export'') = Inr (''a'', [])"
  using nfs_parse_devname_list [of "\<lambda>_. True" "''a''" "''b''" "''/export''"] by simp

end
