(* ===== verification/Options.thy ===== *)
theory Options
  imports Rpc Blocks Mntent Parse_Dev
begin

text \<open>
  Mount options: the splitting of an option string that fuse/hsfs_main.c and nfs3/hsi_nfs3_mount.c share,
  \<open>hsi_nfs3_parse_options\<close>, \<open>hsi_gethostbyname\<close>, \<open>hsi_nfsmnt_check_compat\<close> and
  \<open>hsi_validate_mount_data\<close>.
\<close>

section \<open>Splitting\<close>

abbreviation QUOTE :: char where "QUOTE \<equiv> CHR 0x22"

text \<open>One character of the loop: \<open>cur\<close> is the item so far (\<open>None\<close>: no item begun), \<open>q\<close> the flag \<open>open_quote\<close>.
  An item that is still quoted at the end of the string is dropped.\<close>

fun split_opts :: "bool \<Rightarrow> string option \<Rightarrow> string \<Rightarrow> string list" where
  "split_opts q cur [] = []"
| "split_opts q cur (c # r) =
     (let item = (case cur of None \<Rightarrow> [] | Some i \<Rightarrow> i);
          q = (if c = QUOTE then \<not> q else q)
      in if q then split_opts q (Some (item @ [c])) r
         else if c = CHR '','' then item # split_opts q None r
         else if r = [] then [item @ [c]]
         else split_opts q (Some (item @ [c])) r)"

section \<open>The NFS options\<close>

record 'e opt_state =
  os_super :: "'e hsfs_st"
  os_retry :: int
  os_mnt :: clnt_addr
  os_nfs :: clnt_addr
  os_new :: string
  os_mounthost :: "string option"

abbreviation NFS_MOUNT_TCP :: u32 where "NFS_MOUNT_TCP \<equiv> 1"
abbreviation CBUF :: nat where "CBUF \<equiv> 128"

text \<open>What one option does: its text is kept, it is skipped, \<open>goto bad_parameter\<close> or \<open>goto out_bad\<close>.\<close>

datatype 'e opt_result = Keep string "'e opt_state" | Skip | Bad_parameter | Out_bad

definition upd_super :: "('e hsfs_st \<Rightarrow> 'e hsfs_st) \<Rightarrow> 'e opt_state \<Rightarrow> 'e opt_state" where
  "upd_super f st = st\<lparr>os_super := f (os_super st)\<rparr>"

definition set_prot :: "u64 \<Rightarrow> 'e opt_state \<Rightarrow> 'e opt_state" where
  "set_prot p st = st\<lparr>os_mnt := (os_mnt st)\<lparr>pm_prot := p\<rparr>, os_nfs := (os_nfs st)\<lparr>pm_prot := p\<rparr>\<rparr>"

definition set_tcp :: "bool \<Rightarrow> 'e opt_state \<Rightarrow> 'e opt_state" where
  "set_tcp b = upd_super (\<lambda>s. s\<lparr>sb_flags := if b then sb_flags s OR NFS_MOUNT_TCP else sb_flags s AND NOT NFS_MOUNT_TCP\<rparr>)"

definition host_of :: "string \<Rightarrow> string" where
  "host_of v = takeWhile (\<lambda>c. c \<notin> {SP, TAB, NL, CR, CHR '',''}) v"

text \<open>An option with a number.\<close>

definition num_option :: "string \<Rightarrow> string \<Rightarrow> 'e opt_state \<Rightarrow> 'e opt_result" where
  "num_option opt v st =
     (let val = atoi v; keep = (\<lambda>st. Keep (opt @ CHR ''='' # v @ [CHR '','']) st) in
      if opt = ''rsize'' then keep (upd_super (\<lambda>s. s\<lparr>rsize := word_of_int val\<rparr>) st)
      else if opt = ''wsize'' then keep (upd_super (\<lambda>s. s\<lparr>wsize := word_of_int val\<rparr>) st)
      else if opt = ''timeo'' then keep (upd_super (\<lambda>s. s\<lparr>timeo := val\<rparr>) st)
      else if opt = ''retrans'' then keep (upd_super (\<lambda>s. s\<lparr>retrans := val\<rparr>) st)
      else if opt = ''acregmin'' then keep (upd_super (\<lambda>s. s\<lparr>acregmin := val\<rparr>) st)
      else if opt = ''acregmax'' then keep (upd_super (\<lambda>s. s\<lparr>acregmax := val\<rparr>) st)
      else if opt = ''acdirmin'' then keep (upd_super (\<lambda>s. s\<lparr>acdirmin := val\<rparr>) st)
      else if opt = ''acdirmax'' then keep (upd_super (\<lambda>s. s\<lparr>acdirmax := val\<rparr>) st)
      else if opt = ''actimeo'' then
        keep (upd_super (\<lambda>s. s\<lparr>acregmin := val, acregmax := val, acdirmin := val, acdirmax := val\<rparr>) st)
      else if opt = ''retry'' then keep (st\<lparr>os_retry := val\<rparr>)
      else if opt = ''port'' then keep (st\<lparr>os_nfs := (os_nfs st)\<lparr>pm_port := word_of_int val\<rparr>\<rparr>)
      else if opt = ''mountport'' then keep (st\<lparr>os_mnt := (os_mnt st)\<lparr>pm_port := word_of_int val\<rparr>\<rparr>)
      else if opt = ''mountprog'' then keep (st\<lparr>os_mnt := (os_mnt st)\<lparr>pm_prog := word_of_int val\<rparr>\<rparr>)
      else if opt = ''mountvers'' then keep (st\<lparr>os_mnt := (os_mnt st)\<lparr>pm_vers := word_of_int val\<rparr>\<rparr>)
      else if opt = ''mounthost'' then keep (st\<lparr>os_mounthost := Some (host_of v)\<rparr>)
      else if opt = ''nfsprog'' then keep (st\<lparr>os_nfs := (os_nfs st)\<lparr>pm_prog := word_of_int val\<rparr>\<rparr>)
      else if opt = ''nfsvers'' \<or> opt = ''vers'' then
        Keep (''nfsvers='' @ v @ [CHR '','']) (st\<lparr>os_nfs := (os_nfs st)\<lparr>pm_vers := word_of_int val\<rparr>\<rparr>)
      else if opt = ''namlen'' then Skip
      else if opt = ''addr'' then Skip
      else Bad_parameter)"

text \<open>An option with any other value.\<close>

definition val_option :: "string \<Rightarrow> string \<Rightarrow> 'e opt_state \<Rightarrow> 'e opt_result" where
  "val_option opt v st =
     (let keep = (\<lambda>st. Keep (opt @ CHR ''='' # v @ [CHR '','']) st) in
      if opt = ''proto'' then
        if v = ''udp'' then keep (set_tcp False (set_prot IPPROTO_UDP st))
        else if v = ''tcp'' then keep (set_tcp True (set_prot IPPROTO_TCP st))
        else Bad_parameter
      else if opt = ''sec'' then Skip
      else if opt = ''mounthost'' then keep (st\<lparr>os_mounthost := Some (host_of v)\<rparr>)
      else if opt = ''context'' then keep st
      else Bad_parameter)"

definition ignored_flags :: "string list" where
  "ignored_flags = [''bg'', ''fg'', ''soft'', ''hard'', ''intr'', ''posix'', ''cto'', ''ac'', ''lock'',
     ''broken_suid'', ''acl'', ''rdirplus'', ''sharecache'']"

text \<open>An option without a value; a leading "no" is cut off.\<close>

definition flag_option :: "string \<Rightarrow> 'e opt_state \<Rightarrow> 'e opt_result" where
  "flag_option opt st =
     (let val = (take 2 opt \<noteq> ''no'');
          opt = (if val then opt else drop 2 opt);
          keep = (\<lambda>st. Keep ((if val then [] else ''no'') @ opt @ [CHR '','']) st)
      in if opt \<in> set ignored_flags then Skip
         else if opt = ''tcp'' then
           if val then keep (set_tcp True (set_prot IPPROTO_TCP st)) else keep (set_prot IPPROTO_UDP st)
         else if opt = ''udp'' then
           let st = set_tcp False st in
           if \<not> val then keep (set_tcp True (set_prot IPPROTO_TCP st)) else keep (set_prot IPPROTO_UDP st)
         else Out_bad)"

definition one_option :: "string \<Rightarrow> 'e opt_state \<Rightarrow> 'e opt_result" where
  "one_option opt st =
     (if length opt \<ge> CBUF then Bad_parameter
      else
        case cut_at CHR ''='' opt of
          Some (name, v) \<Rightarrow>
            if v \<noteq> [] \<and> isdigit (hd v) then num_option name v st else val_option name v st
        | None \<Rightarrow> flag_option opt st)"

text \<open>The return value and the state.  The text of an option is printed into \<open>cbuf\<close>: too long for it is a
  fault.  After \<open>goto bad_parameter\<close> the function returns 0.\<close>

datatype loop_end = At_end | Returned int

fun parse_items :: "nat \<Rightarrow> string list \<Rightarrow> 'e opt_state \<Rightarrow> (loop_end \<times> 'e opt_state) option" where
  "parse_items opt_size [] st = Some (At_end, st)"
| "parse_items opt_size (opt # opts) st =
     (case one_option opt st of
        Keep cbuf st \<Rightarrow>
          if length cbuf + 1 > CBUF then None
          else if length (os_new st) + length cbuf \<ge> opt_size then Some (Returned 1, st)
          else parse_items opt_size opts (st\<lparr>os_new := os_new st @ cbuf\<rparr>)
      | Skip \<Rightarrow> parse_items opt_size opts st
      | Bad_parameter \<Rightarrow> Some (Returned 0, st)
      | Out_bad \<Rightarrow> Some (Returned 1, st))"

text \<open>\<open>resolve\<close> is the resolver of the C library: an address, or the value of \<open>errno\<close> after a failure, which
  \<open>gethostbyname\<close> does not set.\<close>

definition hsi_gethostbyname :: "(string \<Rightarrow> int + u32) \<Rightarrow> string \<Rightarrow> u32 \<Rightarrow> int \<times> u32" where
  "hsi_gethostbyname resolve hostname addr =
     (case resolve hostname of Inr a \<Rightarrow> (0, a) | Inl e \<Rightarrow> (e, addr))"

definition hsi_nfs3_parse_options ::
  "(string \<Rightarrow> int + u32) \<Rightarrow> string \<Rightarrow> nat \<Rightarrow> 'e opt_state \<Rightarrow> (int \<times> 'e opt_state) option" where
  "hsi_nfs3_parse_options resolve old_opts opt_size st =
     do { (r, st) \<leftarrow> parse_items opt_size (split_opts False None old_opts) st;
          case r of
            Returned n \<Rightarrow> Some (n, st)
          | At_end \<Rightarrow>
              (case os_mounthost st of
                 None \<Rightarrow> Some (0, st)
               | Some h \<Rightarrow>
                   let (e, a) = hsi_gethostbyname resolve h (sin_addr (os_mnt st)) in
                   if e \<noteq> 0 then Some (1, st)
                   else Some (0, st\<lparr>os_mnt := (os_mnt st)\<lparr>sin_addr := a\<rparr>\<rparr>)) }"

section \<open>Checks and defaults\<close>

text \<open>The second \<open>goto\<close> does not belong to the test above it.\<close>

definition hsi_nfsmnt_check_compat :: "u64 \<Rightarrow> u64 \<Rightarrow> int" where
  "hsi_nfsmnt_check_compat nfs_vers mnt_vers =
     (if nfs_vers \<noteq> 0 \<and> nfs_vers \<noteq> 3 then 1 else if mnt_vers \<noteq> 0 then 1 else 0)"

abbreviation MOUNTPROG :: u64 where "MOUNTPROG \<equiv> 100005"
abbreviation UDPMSGSIZE :: u32 where "UDPMSGSIZE \<equiv> 8800"
abbreviation RPC_MAXDATASIZE :: u32 where "RPC_MAXDATASIZE \<equiv> 9000"

definition validate_times :: "'e hsfs_st \<Rightarrow> 'e hsfs_st" where
  "validate_times s =
     (let s = (if timeo s = 0 then s\<lparr>timeo := 600\<rparr> else s);
          s = (if retrans s = 0 then s\<lparr>retrans := 3\<rparr> else s);
          s = (if acregmin s = 0 then s\<lparr>acregmin := 3\<rparr> else s);
          s = (if acregmax s = 0 then s\<lparr>acregmax := 60\<rparr> else s);
          s = (if acregmin s > acregmax s then s\<lparr>acregmin := 3, acregmax := 60\<rparr> else s);
          s = (if acdirmin s = 0 then s\<lparr>acdirmin := 30\<rparr> else s);
          s = (if acdirmax s = 0 then s\<lparr>acdirmax := 60\<rparr> else s)
      in if acdirmin s > acdirmax s then s\<lparr>acdirmin := 30, acdirmax := 60\<rparr> else s)"

definition validate_server :: "u32 \<Rightarrow> u64 \<Rightarrow> clnt_addr \<Rightarrow> clnt_addr" where
  "validate_server addr prog a =
     (let a = a\<lparr>sin_addr := addr, sin_port := 0, pm_prog := prog, pm_vers := 3\<rparr>
      in if pm_prot a = 0 then a\<lparr>pm_prot := IPPROTO_TCP\<rparr> else a)"

definition io_size :: "u64 \<Rightarrow> u32" where
  "io_size prot = (if prot = IPPROTO_TCP then 64 * 1024 else if prot = IPPROTO_UDP then UDPMSGSIZE else RPC_MAXDATASIZE)"

text \<open>The sizes that the options gave are overwritten, as are the address, the program and the version of
  the mount server.\<close>

definition hsi_validate_mount_data :: "'e opt_state \<Rightarrow> 'e opt_state" where
  "hsi_validate_mount_data st =
     (let s = validate_times (os_super st);
          (b, bits) = hsfs_block_size (ucast (bsize s)) True;
          s = s\<lparr>bsize := ucast b, bsize_bits := (case bits of Some n \<Rightarrow> of_nat n | None \<Rightarrow> bsize_bits s)\<rparr>;
          ms = validate_server (sb_addr s) MOUNTPROG (os_mnt st);
          ns = validate_server (sb_addr s) NFS_PROGRAM (os_nfs st);
          s = s\<lparr>rsize := io_size (pm_prot ns), wsize := io_size (pm_prot ns)\<rparr>
      in st\<lparr>os_super := s, os_mnt := ms, os_nfs := ns,
            os_retry := if os_retry st = - 1 then 10000 else os_retry st\<rparr>)"

section \<open>Lemmas\<close>

text \<open>The pieces of a plain option string: no quotes, no empty item.\<close>

lemma split_item:
  assumes "x \<noteq> []" "QUOTE \<notin> set x" "CHR '','' \<notin> set x"
  shows "split_opts False cur x = [(case cur of None \<Rightarrow> [] | Some i \<Rightarrow> i) @ x]"
    "split_opts False cur (x @ CHR '','' # r) = ((case cur of None \<Rightarrow> [] | Some i \<Rightarrow> i) @ x) # split_opts False None r"
proof -
  have "split_opts False cur x = [(case cur of None \<Rightarrow> [] | Some i \<Rightarrow> i) @ x] \<and>
      split_opts False cur (x @ CHR '','' # r) = ((case cur of None \<Rightarrow> [] | Some i \<Rightarrow> i) @ x) # split_opts False None r"
    using assms
  proof (induction x arbitrary: cur)
    case (Cons a x)
    then show ?case by (cases "x = []") (auto simp: Let_def)
  qed simp
  then show "split_opts False cur x = [(case cur of None \<Rightarrow> [] | Some i \<Rightarrow> i) @ x]"
    "split_opts False cur (x @ CHR '','' # r) = ((case cur of None \<Rightarrow> [] | Some i \<Rightarrow> i) @ x) # split_opts False None r"
    by simp_all
qed

fun join_opts :: "string list \<Rightarrow> string" where
  "join_opts [] = []"
| "join_opts [x] = x"
| "join_opts (x # xs) = x @ CHR '','' # join_opts xs"

lemma split_join:
  "(\<And>x. x \<in> set xs \<Longrightarrow> x \<noteq> [] \<and> QUOTE \<notin> set x \<and> CHR '','' \<notin> set x) \<Longrightarrow>
   split_opts False None (join_opts xs) = xs"
  by (induction xs rule: join_opts.induct) (simp_all add: split_item)

text \<open>No option touches the text collected so far; the items are appended with their commas, and never fill
  the buffer.\<close>

definition keeps_new :: "'e opt_state \<Rightarrow> 'e opt_result \<Rightarrow> bool" where
  "keeps_new st r \<longleftrightarrow> (\<forall>cbuf st'. r = Keep cbuf st' \<longrightarrow> os_new st' = os_new st)"

lemma keeps_new_intros:
  "keeps_new st a \<Longrightarrow> keeps_new st b \<Longrightarrow> keeps_new st (if c then a else b)"
  "os_new st' = os_new st \<Longrightarrow> keeps_new st (Keep cbuf st')"
  "keeps_new st Skip" "keeps_new st Bad_parameter" "keeps_new st Out_bad"
  by (simp_all add: keeps_new_def)

lemma keeps_new_option:
  "keeps_new st (num_option opt v st)" "keeps_new st (val_option opt v st)" "keeps_new st (flag_option opt st)"
  unfolding num_option_def val_option_def flag_option_def Let_def
  by (intro keeps_new_intros; simp add: set_tcp_def set_prot_def upd_super_def)+

lemma one_option_new: "one_option opt st = Keep cbuf st' \<Longrightarrow> os_new st' = os_new st"
proof -
  assume "one_option opt st = Keep cbuf st'"
  moreover have "keeps_new st (one_option opt st)"
    unfolding one_option_def
    by (auto intro: keeps_new_intros keeps_new_option split: option.split)
  ultimately show ?thesis by (simp add: keeps_new_def)
qed

lemma parse_items_bound:
  "parse_items m opts st = Some (r, st') \<Longrightarrow> length (os_new st) < m \<Longrightarrow> length (os_new st') < m"
proof (induction opts arbitrary: st)
  case (Cons opt opts)
  show ?case
  proof (cases "one_option opt st")
    case (Keep cbuf st1)
    then show ?thesis using Cons one_option_new [OF Keep] by (auto split: if_splits)
  qed (use Cons in auto)
qed simp

lemma validate_times_bounds:
  "0 \<le> acregmin s \<Longrightarrow> 0 \<le> acregmax s \<Longrightarrow> 0 \<le> acdirmin s \<Longrightarrow> 0 \<le> acdirmax s \<Longrightarrow>
   0 < acregmin (validate_times s) \<and> acregmin (validate_times s) \<le> acregmax (validate_times s) \<and>
   0 < acdirmin (validate_times s) \<and> acdirmin (validate_times s) \<le> acdirmax (validate_times s) \<and>
   timeo (validate_times s) \<noteq> 0 \<and> retrans (validate_times s) \<noteq> 0"
  by (simp add: validate_times_def Let_def)

section \<open>Properties\<close>

definition fresh_opts :: "'e \<Rightarrow> 'e opt_state" where
  "fresh_opts e =
     (let a = \<lparr>sin_addr = 0, sin_port = 0, pm_prog = 0, pm_vers = 0, pm_prot = 0, pm_port = 0\<rparr> in
      \<lparr>os_super = fresh_st e, os_retry = - 1, os_mnt = a, os_nfs = a, os_new = [], os_mounthost = None\<rparr>)"



text \<open>C23. The text of the accepted options never overruns the buffer that \<open>hsi_nfs3_parse_options\<close> collects it
  in: with \<open>opt_size\<close> bytes there is always room for the final NUL.\<close>

theorem parse_options_in_bounds:
  assumes "hsi_nfs3_parse_options resolve old_opts opt_size st = Some (r, st')" "length (os_new st) < opt_size"
  shows "length (os_new st') < opt_size"
proof -
  obtain e st1 where p: "parse_items opt_size (split_opts False None old_opts) st = Some (e, st1)"
    using assms(1) by (auto simp: hsi_nfs3_parse_options_def bind_eq_Some_conv)
  have "os_new st' = os_new st1"
    using assms(1) p
    by (cases e) (auto simp: hsi_nfs3_parse_options_def Let_def split: option.splits prod.splits if_splits)
  then show ?thesis using parse_items_bound [OF p assms(2)] by simp
qed

theorem parse_options_in_bounds_witness:
  "\<exists>st'. hsi_nfs3_parse_options (\<lambda>_. Inl 2) ''tcp,rsize=8192'' 1024 (fresh_opts ()) = Some (0, st') \<and>
     length (os_new st') < 1024"
proof -
  have "split_opts False None ''tcp,rsize=8192'' = [''tcp'', ''rsize=8192'']" by code_simp
  then have "\<exists>st'. hsi_nfs3_parse_options (\<lambda>_. Inl 2) ''tcp,rsize=8192'' 1024 (fresh_opts ()) = Some (0, st')"
    by (simp add: hsi_nfs3_parse_options_def one_option_def cut_at_def flag_option_def num_option_def isdigit_def
        ignored_flags_def set_tcp_def set_prot_def upd_super_def fresh_opts_def Let_def)
  then show ?thesis using parse_options_in_bounds by (fastforce simp: fresh_opts_def Let_def)
qed

text \<open>An option of 127 characters passes the test against the size of \<open>cbuf\<close> and is then printed into it
  with a comma and a NUL, one byte past the end.\<close>

theorem parse_options_overrun:
  assumes "length v = 119" "QUOTE \<notin> set v" "CHR '','' \<notin> set v" "\<not> isdigit (hd v)"
  shows "hsi_nfs3_parse_options resolve (''context='' @ v) opt_size st = None"
proof -
  have "split_opts False None (''context='' @ v) = [''context='' @ v]"
    using assms split_item(1) [of "''context='' @ v" None] by simp
  moreover have "one_option (''context='' @ v) st = Keep (''context='' @ v @ [CHR '','']) st"
    using assms cut_at_append [of "CHR ''=''" "''context''" v] by (simp add: one_option_def val_option_def)
  ultimately show ?thesis using assms(1) by (simp add: hsi_nfs3_parse_options_def)
qed

theorem parse_options_overrun_witness:
  "hsi_nfs3_parse_options (\<lambda>_. Inl 2) (''context='' @ replicate 119 CHR ''x'') 1024 (fresh_opts ()) = None"
  using parse_options_overrun [of "replicate 119 CHR ''x''"] by (simp add: isdigit_def)



text \<open>The only mount protocol version that passes the check is 0, no version given: the supported
  version 3 is refused like every other.\<close>

lemma check_compat_iff:
  "hsi_nfsmnt_check_compat nfs_vers mnt_vers = 0 \<longleftrightarrow> (nfs_vers = 0 \<or> nfs_vers = 3) \<and> mnt_vers = 0"
  by (simp add: hsi_nfsmnt_check_compat_def)

lemma validate_server_sel [simp]:
  "sin_addr (validate_server addr prog a) = addr" "pm_prot (validate_server addr prog a) \<noteq> 0"
  by (simp_all add: validate_server_def Let_def)

lemma validate_fields:
  fixes st :: "'e opt_state"
  assumes "s = os_super st"
  shows "acregmin (os_super (hsi_validate_mount_data st)) = acregmin (validate_times s)"
    "acregmax (os_super (hsi_validate_mount_data st)) = acregmax (validate_times s)"
    "acdirmin (os_super (hsi_validate_mount_data st)) = acdirmin (validate_times s)"
    "acdirmax (os_super (hsi_validate_mount_data st)) = acdirmax (validate_times s)"
    "timeo (os_super (hsi_validate_mount_data st)) = timeo (validate_times s)"
    "retrans (os_super (hsi_validate_mount_data st)) = retrans (validate_times s)"
    "os_mnt (hsi_validate_mount_data st) = validate_server (sb_addr s) MOUNTPROG (os_mnt st)"
    "os_nfs (hsi_validate_mount_data st) = validate_server (sb_addr s) NFS_PROGRAM (os_nfs st)"
    "rsize (os_super (hsi_validate_mount_data st)) = io_size (pm_prot (os_nfs (hsi_validate_mount_data st)))"
    "wsize (os_super (hsi_validate_mount_data st)) = io_size (pm_prot (os_nfs (hsi_validate_mount_data st)))"
    "hsfs_block_size (ucast (bsize s)) True = (b, Some k) \<Longrightarrow>
       bsize (os_super (hsi_validate_mount_data st)) = ucast b \<and> bsize_bits (os_super (hsi_validate_mount_data st)) = of_nat k"
proof -
  have "bsize (validate_times s) = bsize s" "sb_addr (validate_times s) = sb_addr s" for s :: "'e hsfs_st"
    by (simp_all add: validate_times_def Let_def)
  note f = this
  show "acregmin (os_super (hsi_validate_mount_data st)) = acregmin (validate_times s)"
    "acregmax (os_super (hsi_validate_mount_data st)) = acregmax (validate_times s)"
    "acdirmin (os_super (hsi_validate_mount_data st)) = acdirmin (validate_times s)"
    "acdirmax (os_super (hsi_validate_mount_data st)) = acdirmax (validate_times s)"
    "timeo (os_super (hsi_validate_mount_data st)) = timeo (validate_times s)"
    "retrans (os_super (hsi_validate_mount_data st)) = retrans (validate_times s)"
    "os_mnt (hsi_validate_mount_data st) = validate_server (sb_addr s) MOUNTPROG (os_mnt st)"
    "os_nfs (hsi_validate_mount_data st) = validate_server (sb_addr s) NFS_PROGRAM (os_nfs st)"
    "rsize (os_super (hsi_validate_mount_data st)) = io_size (pm_prot (os_nfs (hsi_validate_mount_data st)))"
    "wsize (os_super (hsi_validate_mount_data st)) = io_size (pm_prot (os_nfs (hsi_validate_mount_data st)))"
    by (simp_all add: assms hsi_validate_mount_data_def Let_def split_beta f)
  show "bsize (os_super (hsi_validate_mount_data st)) = ucast b \<and> bsize_bits (os_super (hsi_validate_mount_data st)) = of_nat k"
    if "hsfs_block_size (ucast (bsize s)) True = (b, Some k)"
    using that by (simp add: assms hsi_validate_mount_data_def Let_def split_beta f)
qed



end
