(* ===== verification/Mount.thy ===== *)
theory Mount
  imports Requests Options
begin

text \<open>
  Mounting and unmounting, nfs3/hsi_nfs3_mount.c: the calls of the MOUNT protocol, \<open>hsi_fill_super\<close>,
  \<open>hsfs_do_mount\<close> and \<open>hsfs_do_unmount\<close>.  The mount server, the clock and the resolver are outside the
  program (record \<open>mountlib\<close>).
\<close>

section \<open>The MOUNT protocol\<close>

record mountres =
  fhs_status :: int
  mr_fhandle :: nfs_fh3

text \<open>A procedure of the mount server returns the \<open>clnt_stat\<close> of the call, 0 for success, and the decoded
  result.  \<open>createerr\<close> and \<open>sys_errno\<close> are \<open>rpc_createerr.cf_stat\<close> and \<open>errno\<close>.\<close>

record 'e mountlib =
  mountproc_mnt :: "u64 \<Rightarrow> string \<Rightarrow> 'e \<Rightarrow> (int \<times> mountres) \<times> 'e"
  mountproc_umnt :: "u64 \<Rightarrow> string \<Rightarrow> 'e \<Rightarrow> int \<times> 'e"
  resolve :: "string \<Rightarrow> int + u32"
  clock :: "'e \<Rightarrow> int"
  createerr :: "'e \<Rightarrow> int"
  sys_errno :: "'e \<Rightarrow> int"

abbreviation MNT_SENDBUFSIZE :: int where "MNT_SENDBUFSIZE \<equiv> 2048"
abbreviation MNT_RECVBUFSIZE :: int where "MNT_RECVBUFSIZE \<equiv> 1024"

text \<open>Returns the return value, the address, \<open>mntres\<close> (\<open>None\<close>: left as it was) and the state.  The
  result of a failed call is copied like any other.\<close>

definition hsi_nfs3_mount ::
  "'e world \<Rightarrow> 'e mountlib \<Rightarrow> clnt_addr \<Rightarrow> string \<Rightarrow> 'e hsfs_st \<Rightarrow>
   ((int \<times> clnt_addr \<times> mountres option) \<times> 'e hsfs_st) option" where
  "hsi_nfs3_mount W M addr dir s =
     (let ((c, addr), s) = hsi_mnt_openclnt (rpc W) addr MNT_SENDBUFSIZE MNT_RECVBUFSIZE s in
      if c = 0 then Some ((- 1, addr, None), s)
      else
        let ((ret, tres), e) = mountproc_mnt M c dir (env s);
            s = s\<lparr>env := e\<rparr>;
            (ret, mntres) = (if mem_ok W (length (mr_fhandle tres)) (env s) then (ret, Some tres) else (ENOMEM, None))
        in do { _ \<leftarrow> clnt_freeres c s;
                s \<leftarrow> hsi_mnt_closeclnt c s;
                Some ((ret, addr, mntres), s) })"

definition hsi_nfs3_unmount ::
  "'e world \<Rightarrow> 'e mountlib \<Rightarrow> clnt_addr \<Rightarrow> string \<Rightarrow> 'e hsfs_st \<Rightarrow> (int \<times> 'e hsfs_st) option" where
  "hsi_nfs3_unmount W M addr dir s =
     (let ((c, addr), s) = hsi_mnt_openclnt (rpc W) addr MNT_SENDBUFSIZE MNT_RECVBUFSIZE s in
      if c = 0 then Some (- 1, s)
      else
        let (ret, e) = mountproc_umnt M c dir (env s); s = s\<lparr>env := e\<rparr>
        in do { s \<leftarrow> hsi_mnt_closeclnt c s; Some (ret, s) })"

section \<open>The root inode\<close>

definition hsi_fill_super :: "'e world \<Rightarrow> nfs_fh3 \<Rightarrow> 'e hsfs_st \<Rightarrow> (int \<times> 'e hsfs_st) option" where
  "hsi_fill_super W f s =
     do { let s = (hsfs_init_icache s)\<lparr>curr_id := 0\<rparr>;
          ((ret, fattr), s) \<leftarrow> hsi_nfs3_fsinfo W f (nfs_init_fattr stack_fattr) s;
          if ret \<noteq> 0 then Some (ret, s)
          else do {
            nfh \<leftarrow> nfs_copy_fh3 zero_fh (length f) f;
            (p, s) \<leftarrow> fhget W nfh fattr s;
            if IS_ERR p then Some (ptr_errno W p, s)
            else do {
              let s = s\<lparr>root := p\<rparr>;
              i \<leftarrow> heap s p;
              _ \<leftarrow> FUSE_ASSERT (ino i = 1);
              (ret, s) \<leftarrow> hsi_nfs3_pathconf W p s;
              Some (ret, s) } } }"

section \<open>\<open>hsfs_do_mount\<close>\<close>

abbreviation RPC_TIMEDOUT :: int where "RPC_TIMEDOUT \<equiv> 5"
abbreviation RPC_SYSTEMERROR :: int where "RPC_SYSTEMERROR \<equiv> 12"

text \<open>The loop: \<open>Inl\<close> is \<open>goto fail\<close> with the value of \<open>ret\<close>.  The \<open>pmap\<close> of the mount server is restored before
  another attempt.  In the background the loop ends only with a success.\<close>

definition restore_pmap :: "clnt_addr \<Rightarrow> clnt_addr \<Rightarrow> clnt_addr" where
  "restore_pmap saved a = a\<lparr>pm_prog := pm_prog saved, pm_vers := pm_vers saved, pm_prot := pm_prot saved, pm_port := pm_port saved\<rparr>"

partial_function (option) mount_loop ::
  "'e world \<Rightarrow> 'e mountlib \<Rightarrow> bool \<Rightarrow> int \<Rightarrow> string \<Rightarrow> clnt_addr \<Rightarrow> clnt_addr \<Rightarrow> mountres \<Rightarrow> 'e hsfs_st \<Rightarrow>
   ((int + clnt_addr \<times> mountres) \<times> 'e hsfs_st) option" where
  "mount_loop W M fg timeout dir saved addr mntres s =
     do { ((ret, addr, res), s) \<leftarrow> hsi_nfs3_mount W M addr dir s;
          let mntres = (case res of None \<Rightarrow> mntres | Some r \<Rightarrow> r);
          if ret = 0 then Some (Inr (addr, mntres), s)
          else
            let addr = restore_pmap saved addr in
            if fg then
              if createerr M (env s) = RPC_TIMEDOUT \<or>
                 createerr M (env s) = RPC_SYSTEMERROR \<and> sys_errno M (env s) = ETIMEDOUT then
                if clock M (env s) \<ge> timeout then Some (Inl ret, s)
                else mount_loop W M fg timeout dir saved addr mntres s
              else Some (Inl ret, s)
            else mount_loop W M fg timeout dir saved addr mntres s }"

definition zero_addr :: clnt_addr where
  "zero_addr = \<lparr>sin_addr = 0, sin_port = 0, pm_prog = 0, pm_vers = 0, pm_prot = 0, pm_port = 0\<rparr>"

text \<open>\<open>clnt_destroy\<close>; a null handle is a fault.\<close>

definition clnt_destroy :: "u64 \<Rightarrow> 'e hsfs_st \<Rightarrow> 'e hsfs_st option" where
  "clnt_destroy c s = hsi_mnt_closeclnt c s"

text \<open>The label \<open>umnt_fail\<close>.\<close>

definition umnt_fail ::
  "'e world \<Rightarrow> 'e mountlib \<Rightarrow> clnt_addr \<Rightarrow> string \<Rightarrow> int \<Rightarrow> 'e hsfs_st \<Rightarrow> (int \<times> 'e hsfs_st) option" where
  "umnt_fail W M mnt dir ret s =
     do { s \<leftarrow> (if acl_clntp s \<noteq> 0 then clnt_destroy (acl_clntp s) s else Some s);
          s \<leftarrow> clnt_destroy (clntp s) s;
          (_, s) \<leftarrow> hsi_nfs3_unmount W M mnt dir s;
          Some (ret, s) }"

text \<open>The part after the loop: \<open>ret\<close> is 0 there.\<close>

definition connect_root ::
  "'e world \<Rightarrow> 'e mountlib \<Rightarrow> clnt_addr \<Rightarrow> clnt_addr \<Rightarrow> string \<Rightarrow> mountres \<Rightarrow> 'e hsfs_st \<Rightarrow> (int \<times> 'e hsfs_st) option" where
  "connect_root W M mnt nfs dir mntres s =
     do { ((c, nfs), s) \<leftarrow> hsi_nfs3_clnt_create (rpc W) nfs (uint (wsize s)) (uint (rsize s)) s;
          let s = s\<lparr>clntp := c\<rparr>;
          if c = 0 then umnt_fail W M mnt dir 0 s
          else do {
            ((a, _), s) \<leftarrow> hsi_nfs3_clnt_create (rpc W) (nfs\<lparr>pm_prog := NFS_ACL_PROGRAM, pm_vers := 3\<rparr>)
                            (uint (wsize s)) (uint (rsize s)) s;
            let s = s\<lparr>acl_clntp := a\<rparr>;
            if fhs_status mntres \<noteq> 0 then Some (0, s)
            else do {
              (r, s) \<leftarrow> hsi_fill_super W (mr_fhandle mntres) s;
              if r \<noteq> 0 then umnt_fail W M mnt dir 0 s else Some (0, s) } } }"

record cmdline_opts =
  co_flags :: u32
  fake :: bool
  fg_opt :: bool
  spec :: "string option"
  udata :: "string option"

definition hsfs_do_mount :: "'e world \<Rightarrow> 'e mountlib \<Rightarrow> cmdline_opts \<Rightarrow> 'e hsfs_st \<Rightarrow> (int \<times> 'e hsfs_st) option" where
  "hsfs_do_mount W M opts s = do { dev \<leftarrow> spec opts;
     (if length dev \<ge> 1024 then Some (- 1, s)
      else
        case nfs_parse_devname (\<lambda>n. mem_ok W n (env s)) (Some dev) of
          Inl _ \<Rightarrow> Some (- 1, s)
        | Inr (hostname, dirname) \<Rightarrow>
            let (e, a) = hsi_gethostbyname (resolve M) hostname (sb_addr s); s = s\<lparr>sb_addr := a\<rparr> in
            if e \<noteq> 0 then Some (- 1, s)
            else do {
              let old_opts = (case udata opts of None \<Rightarrow> [] | Some u \<Rightarrow> u);
              (r, st) \<leftarrow> hsi_nfs3_parse_options (resolve M) old_opts 1024
                 \<lparr>os_super = s, os_retry = - 1, os_mnt = zero_addr, os_nfs = zero_addr, os_new = [], os_mounthost = None\<rparr>;
              if r \<noteq> 0 then Some (- 1, os_super st)
              else if hsi_nfsmnt_check_compat (pm_vers (os_nfs st)) (pm_vers (os_mnt st)) \<noteq> 0 then Some (- 1, os_super st)
              else do {
                let st = hsi_validate_mount_data st;
                let s = os_super st;
                let timeout = clock M (env s) + 60 * os_retry st;
                (r, s) \<leftarrow> mount_loop W M (fg_opt opts) timeout dirname (os_mnt st) (os_mnt st)
                            \<lparr>fhs_status = 0, mr_fhandle = []\<rparr> s;
                case r of
                  Inl ret \<Rightarrow> Some (ret, s)
                | Inr (mnt, mntres) \<Rightarrow> connect_root W M mnt (os_nfs st) dirname mntres s } }) }"

text \<open>The ACL handle is not destroyed.  A longer device string overruns \<open>hostdir\<close>.  The protocol is chosen by the flag that only an option sets.\<close>

definition hsfs_do_unmount :: "'e world \<Rightarrow> 'e mountlib \<Rightarrow> cmdline_opts \<Rightarrow> 'e hsfs_st \<Rightarrow> (int \<times> 'e hsfs_st) option" where
  "hsfs_do_unmount W M opts s = do { dev \<leftarrow> spec opts;
     (if length dev \<ge> 1024 then None
      else case nfs_parse_devname (\<lambda>n. mem_ok W n (env s)) (Some dev) of
        Inl _ \<Rightarrow> Some (- 1, s)
      | Inr (hostname, dirname) \<Rightarrow>
          do { s \<leftarrow> clnt_destroy (clntp s) s;
               let a = zero_addr\<lparr>sin_addr := sb_addr s, pm_prog := MOUNTPROG, pm_vers := 3,
                         pm_prot := if sb_flags s AND NFS_MOUNT_TCP \<noteq> 0 then IPPROTO_TCP else IPPROTO_UDP\<rparr>;
               s \<leftarrow> hsfs_iput (hsi_nfs_sop (imalloc W)) (root s) s;
               hsi_nfs3_unmount W M a dirname s }) }"

end
