(* ===== verification/Mtab.thy ===== *)
theory Mtab
  imports Mntent
begin

text \<open>
  The mount table, nfs3/fstab.c: the chain of entries that is read from a file, the searches in it, the
  lock file and \<open>update_mtab\<close>.  The chain is kept at the level of its pointers: nodes are numbers, 0 is the
  dummy head and \<open>None\<close> the null pointer.  \<open>die\<close> is the outcome \<open>Inl\<close> with the exit code.
\<close>

section \<open>Chains\<close>

record chain =
  nxt :: "nat \<Rightarrow> nat option"
  prv :: "nat \<Rightarrow> nat option"
  ment :: "nat \<Rightarrow> mntent"
  unused :: nat

abbreviation MNTTYPE_IGNORE :: string where "MNTTYPE_IGNORE \<equiv> ''ignore''"

definition no_ment :: mntent where
  "no_ment = \<lparr>mnt_fsname = [], mnt_dir = [], mnt_type = [], mnt_opts = [], mnt_freq = 0, mnt_passno = 0\<rparr>"

definition new_chain :: chain where
  "new_chain = \<lparr>nxt = (\<lambda>_. None), prv = (\<lambda>_. None), ment = (\<lambda>_. no_ment), unused = 1\<rparr>"

definition link_after :: "nat \<Rightarrow> mntent \<Rightarrow> chain \<Rightarrow> nat \<times> chain" where
  "link_after mc m c =
     (let a = unused c in
      (a, c\<lparr>nxt := (nxt c)(mc := Some a, a := Some 0), prv := (prv c)(a := Some mc),
            ment := (ment c)(a := m), unused := a + 1\<rparr>))"

lemma getmntent_shorter:
  "nfs_getmntent f = (Some m, f') \<Longrightarrow> length (mf_rest f') < length (mf_rest f)"
proof (induction "length (mf_rest f)" arbitrary: f rule: less_induct)
  case less
  obtain buf rest where g: "fgets (mf_rest f) = Some (buf, rest)"
    using less.prems by (subst (asm) nfs_getmntent.simps) (auto split: if_splits option.splits)
  have lt: "length rest < length (mf_rest f)" by (rule fgets_shorter [OF g])
  have IH: "nfs_getmntent g = (Some m, f') \<Longrightarrow> mf_rest g = rest \<Longrightarrow> length (mf_rest f') < length (mf_rest f)" for g
    using less.hyps [of g] lt by simp
  show ?case
    using less.prems lt
    by (subst (asm) nfs_getmntent.simps) (auto simp: g Let_def dest: IH split: if_splits option.splits)
qed

text \<open>The loop of \<open>read_mntentchn\<close>: \<open>mc\<close> is the last node.\<close>

function read_entries :: "mntfile \<Rightarrow> nat \<Rightarrow> chain \<Rightarrow> nat \<times> chain" where
  "read_entries f mc c =
     (case nfs_getmntent f of
        (None, f) \<Rightarrow> (mc, c)
      | (Some m, f) \<Rightarrow>
          if mnt_type m \<noteq> MNTTYPE_IGNORE then let (a, c) = link_after mc m c in read_entries f a c
          else read_entries f mc c)"
  by pat_completeness auto
termination
  by (relation "measure (\<lambda>(f, mc, c). length (mf_rest f))") (auto dest: getmntent_shorter [OF sym])

declare read_entries.simps [simp del]

definition read_mntentchn :: "bool \<Rightarrow> mntfile \<Rightarrow> chain \<Rightarrow> chain" where
  "read_mntentchn ferror f c =
     (let (mc, c) = read_entries f 0 c;
          c = c\<lparr>prv := (prv c)(0 := Some mc)\<rparr>
      in if ferror then c\<lparr>nxt := (nxt c)(0 := None), prv := (prv c)(0 := None)\<rparr> else c)"

text \<open>The searches: along \<open>prev\<close> from \<open>mc\<close>, along \<open>nxt\<close> from \<open>mc\<close>.  They end at the head or at a null
  pointer; a chain that does neither is walked for ever.\<close>

partial_function (option) search_back :: "chain \<Rightarrow> (mntent \<Rightarrow> bool) \<Rightarrow> nat option \<Rightarrow> nat option option" where
  "search_back c p mc =
     (case mc of
        None \<Rightarrow> Some None
      | Some n \<Rightarrow> if n = 0 then Some (Some 0) else if p (ment c n) then Some (Some n) else search_back c p (prv c n))"

partial_function (option) search_fwd :: "chain \<Rightarrow> (mntent \<Rightarrow> bool) \<Rightarrow> nat option \<Rightarrow> nat option option" where
  "search_fwd c p mc =
     (case mc of
        None \<Rightarrow> Some None
      | Some n \<Rightarrow> if n = 0 then Some None else if p (ment c n) then Some (Some n) else search_fwd c p (nxt c n))"

definition getmntdirbackward :: "chain \<Rightarrow> string \<Rightarrow> nat option \<Rightarrow> nat option option" where
  "getmntdirbackward c name mcprev =
     map_option (\<lambda>r. if r = Some 0 then None else r)
       (search_back c (\<lambda>m. mnt_dir m = name) (prv c (case mcprev of None \<Rightarrow> 0 | Some n \<Rightarrow> n)))"

definition getmntdevbackward :: "chain \<Rightarrow> string \<Rightarrow> nat option \<Rightarrow> nat option option" where
  "getmntdevbackward c name mcprev =
     map_option (\<lambda>r. if r = Some 0 then None else r)
       (search_back c (\<lambda>m. mnt_fsname m = name) (prv c (case mcprev of None \<Rightarrow> 0 | Some n \<Rightarrow> n)))"

definition getfsfile :: "chain \<Rightarrow> string \<Rightarrow> nat option option" where
  "getfsfile c file = search_fwd c (\<lambda>m. mnt_dir m = file) (nxt c 0)"

definition getfsspec :: "chain \<Rightarrow> string \<Rightarrow> nat option option" where
  "getfsspec c spec = search_fwd c (\<lambda>m. mnt_fsname m = spec) (nxt c 0)"

section \<open>The lock file\<close>

datatype link_result = LinkOk | LinkExists | LinkError
datatype open_result = OpenOk nat | OpenNoent | OpenError

text \<open>What the system does in one round of the loop; \<open>at_lock\<close> is the result of \<open>fcntl\<close>.\<close>

record attempt =
  at_link :: link_result
  at_open :: open_result
  at_lock :: bool

record lock_state =
  we_created_lockfile :: bool
  lockfile_fd :: int
  waits :: nat

abbreviation EX_FILEIO :: int where "EX_FILEIO \<equiv> 16"

definition unlock_mtab :: "lock_state \<Rightarrow> lock_state" where
  "unlock_mtab l = (if we_created_lockfile l then l\<lparr>lockfile_fd := - 1, we_created_lockfile := False\<rparr> else l)"

text \<open>\<open>die\<close>, with \<open>at_die\<close> set to \<open>unlock_mtab\<close>.\<close>

definition die_locked :: "int \<Rightarrow> lock_state \<Rightarrow> (int + unit) \<times> lock_state" where
  "die_locked err l = (Inl err, unlock_mtab l)"

text \<open>\<open>tries\<close> is the local counter, \<open>waits\<close> the static one of the inner block.\<close>

function lock_loop :: "(nat \<Rightarrow> attempt) \<Rightarrow> nat \<Rightarrow> nat \<Rightarrow> lock_state \<Rightarrow> (int + unit) \<times> lock_state" where
  "lock_loop env k tries l =
     (if we_created_lockfile l then (Inr (), l)
      else
        let a = env k; l = (if at_link a = LinkOk then l\<lparr>we_created_lockfile := True\<rparr> else l) in
        if at_link a = LinkError then die_locked EX_FILEIO l
        else
          case at_open a of
            OpenNoent \<Rightarrow>
              let l = l\<lparr>lockfile_fd := - 1\<rparr> in
              if tries > 0 then lock_loop env (k + 1) (tries - 1) l else die_locked EX_FILEIO l
          | OpenError \<Rightarrow> die_locked EX_FILEIO (l\<lparr>lockfile_fd := - 1\<rparr>)
          | OpenOk fd \<Rightarrow>
              let l = l\<lparr>lockfile_fd := int fd\<rparr> in
              if at_link a = LinkOk then lock_loop env (k + 1) tries l
              else if \<not> at_lock a then die_locked EX_FILEIO l
              else
                let l = l\<lparr>waits := waits l + 1\<rparr> in
                if waits l > 100000 then die_locked EX_FILEIO l
                else lock_loop env (k + 1) tries l)"
  by pat_completeness auto
termination
  by (relation "measures [\<lambda>(env, k, tries, l). if we_created_lockfile l then 0 else 1,
        \<lambda>(env, k, tries, l). tries + (100001 - waits l)]")
     (auto simp: Let_def split: if_splits)

declare lock_loop.simps [simp del]

definition lock_mtab :: "bool \<Rightarrow> (nat \<Rightarrow> attempt) \<Rightarrow> lock_state \<Rightarrow> (int + unit) \<times> lock_state" where
  "lock_mtab target_ok env l =
     (if \<not> target_ok then die_locked EX_FILEIO l else lock_loop env 0 100000 l)"

section \<open>\<open>update_mtab\<close>\<close>

text \<open>The outcomes of the system calls, and the files.\<close>

record mtab_io =
  io_rdwr :: bool
  io_read :: bool
  io_ferror :: bool
  io_tmp :: bool
  io_print :: bool
  io_rename :: bool
  io_target :: bool
  io_lock :: "nat \<Rightarrow> attempt"

record mtab_fs =
  mtab_file :: "string option"
  mtab_link :: bool
  tmp_file :: "string option"
  have_mtab_info :: bool
  var_mtab_does_not_exist :: bool
  var_mtab_is_a_symlink :: bool
  lk :: lock_state

definition get_mtab_info :: "mtab_fs \<Rightarrow> mtab_fs" where
  "get_mtab_info fs =
     (if \<not> have_mtab_info fs then
        let fs = (if mtab_file fs = None then fs\<lparr>var_mtab_does_not_exist := True\<rparr>
                  else if mtab_link fs then fs\<lparr>var_mtab_is_a_symlink := True\<rparr> else fs)
        in fs\<lparr>have_mtab_info := True\<rparr>
      else fs)"

definition mtab_does_not_exist :: "mtab_fs \<Rightarrow> bool \<times> mtab_fs" where
  "mtab_does_not_exist fs = (let fs = get_mtab_info fs in (var_mtab_does_not_exist fs, fs))"

definition mtab_is_a_symlink :: "mtab_fs \<Rightarrow> bool \<times> mtab_fs" where
  "mtab_is_a_symlink fs = (let fs = get_mtab_info fs in (var_mtab_is_a_symlink fs, fs))"

text \<open>The file is opened with \<open>O_CREAT\<close>.\<close>

definition mtab_is_writable :: "mtab_io \<Rightarrow> mtab_fs \<Rightarrow> bool \<times> mtab_fs" where
  "mtab_is_writable io fs =
     (let (symlink, fs) = mtab_is_a_symlink fs in
      if symlink then (False, fs)
      else if io_rdwr io then
        (True, if mtab_file fs = None then fs\<lparr>mtab_file := Some []\<rparr> else fs)
      else (False, fs))"

text \<open>The change of the chain; following a null pointer is a fault.\<close>

definition change_chain :: "mntent option \<Rightarrow> nat option \<Rightarrow> chain \<Rightarrow> chain option" where
  "change_chain instead mc c =
     (case mc of
        Some (Suc n) \<Rightarrow>
          (case instead of
             None \<Rightarrow>
               do { p \<leftarrow> prv c (Suc n);
                    let c = c\<lparr>nxt := (nxt c)(p := nxt c (Suc n))\<rparr>;
                    q \<leftarrow> nxt c (Suc n);
                    Some (c\<lparr>prv := (prv c)(q := prv c (Suc n))\<rparr>) }
           | Some m \<Rightarrow> Some (c\<lparr>ment := (ment c)(Suc n := (ment c (Suc n))\<lparr>mnt_opts := mnt_opts m\<rparr>)\<rparr>))
      | _ \<Rightarrow>
          (case instead of
             None \<Rightarrow> Some c
           | Some m \<Rightarrow>
               let a = unused c;
                   c = c\<lparr>unused := a + 1, ment := (ment c)(a := m), nxt := (nxt c)(a := Some 0),
                         prv := (prv c)(a := prv c 0)\<rparr>;
                   c = c\<lparr>prv := (prv c)(0 := Some a)\<rparr>
               in Some (if nxt c 0 = None then c\<lparr>nxt := (nxt c)(0 := Some a)\<rparr> else c)))"

text \<open>Writing the chain to the temporary file; \<open>Inl\<close> is the first failure.\<close>

partial_function (option) write_chain :: "bool \<Rightarrow> chain \<Rightarrow> nat option \<Rightarrow> string \<Rightarrow> (unit + string) option" where
  "write_chain io_ok c mc file =
     (case mc of
        None \<Rightarrow> Some (Inr file)
      | Some n \<Rightarrow>
          if n = 0 then Some (Inr file)
          else if fst (nfs_addmntent io_ok file (ment c n)) = 1 then Some (Inl ())
          else write_chain io_ok c (nxt c n) (snd (nfs_addmntent io_ok file (ment c n))))"

definition unlocked :: "mtab_fs \<Rightarrow> mtab_fs" where
  "unlocked fs = fs\<lparr>lk := unlock_mtab (lk fs)\<rparr>"

definition update_mtab :: "mtab_io \<Rightarrow> string \<Rightarrow> mntent option \<Rightarrow> mtab_fs \<Rightarrow> ((int + unit) \<times> mtab_fs) option" where
  "update_mtab io dir instead fs =
     (let (absent, fs) = mtab_does_not_exist fs in
      if absent then Some (Inr (), fs)
      else let (writable, fs) = mtab_is_writable io fs in
      if \<not> writable then Some (Inr (), fs)
      else let (r, l) = lock_mtab (io_target io) (io_lock io) (lk fs); fs = fs\<lparr>lk := l\<rparr> in
      case r of
        Inl err \<Rightarrow> Some (Inl err, fs)
      | Inr _ \<Rightarrow>
          if \<not> io_read io \<or> mtab_file fs = None then Some (Inr (), unlocked fs)
          else do {
            file \<leftarrow> mtab_file fs;
            let c = read_mntentchn (io_ferror io) (open_mntent file) new_chain;
            mc \<leftarrow> search_back c (\<lambda>m. mnt_dir m = dir) (prv c 0);
            c \<leftarrow> change_chain instead mc c;
            if \<not> io_tmp io then Some (Inr (), unlocked fs)
            else do {
              w \<leftarrow> write_chain (io_print io) c (nxt c 0) [];
              case w of
                Inl _ \<Rightarrow> Some (Inl EX_FILEIO, unlocked fs)
              | Inr text \<Rightarrow>
                  let fs = (if io_rename io then fs\<lparr>mtab_file := Some text, tmp_file := None\<rparr>
                            else fs\<lparr>tmp_file := Some text\<rparr>)
                  in Some (Inr (), unlocked fs) } })"

section \<open>What the chain holds\<close>

text \<open>The entries that reading a file yields.\<close>

function entries_of :: "mntfile \<Rightarrow> mntent list" where
  "entries_of f = (case nfs_getmntent f of (None, f) \<Rightarrow> [] | (Some m, f) \<Rightarrow> m # entries_of f)"
  by pat_completeness auto
termination
  by (relation "measure (\<lambda>f. length (mf_rest f))") (auto dest: getmntent_shorter [OF sym])

declare entries_of.simps [simp del]

definition listed :: "mntent \<Rightarrow> bool" where
  "listed m \<longleftrightarrow> mnt_type m \<noteq> MNTTYPE_IGNORE"

definition built :: "chain \<Rightarrow> mntent list \<Rightarrow> bool" where
  "built c es \<longleftrightarrow> unused c = Suc (length es) \<and>
     (\<forall>i < length es. ment c (Suc i) = es ! i \<and> nxt c i = Some (Suc i) \<and> prv c (Suc i) = Some i) \<and>
     nxt c (length es) = (if es = [] then None else Some 0)"

lemma built_new: "built new_chain []"
  by (simp add: built_def new_chain_def)

lemma built_link:
  assumes "built c es"
  shows "link_after (length es) m c = (a, c') \<Longrightarrow> a = length (es @ [m]) \<and> built c' (es @ [m])"
  using assms by (auto simp: built_def link_after_def Let_def nth_append less_Suc_eq)

lemma read_entries_built:
  "built c es \<Longrightarrow> read_entries f (length es) c = (mc, c') \<Longrightarrow>
   mc = length (es @ filter listed (entries_of f)) \<and> built c' (es @ filter listed (entries_of f))"
proof (induction "length (mf_rest f)" arbitrary: f es c rule: less_induct)
  case less
  obtain r g where g: "nfs_getmntent f = (r, g)" by fastforce
  show ?case
  proof (cases r)
    case None
    then show ?thesis using less.prems g by (simp add: read_entries.simps [of f] entries_of.simps [of f])
  next
    case (Some m)
    have lt: "length (mf_rest g) < length (mf_rest f)" using getmntent_shorter g Some by blast
    have e: "entries_of f = m # entries_of g" using g Some by (simp add: entries_of.simps [of f])
    show ?thesis
    proof (cases "listed m")
      case True
      obtain a c1 where l: "link_after (length es) m c = (a, c1)" by fastforce
      have b: "a = length (es @ [m])" "built c1 (es @ [m])" using built_link [OF less.prems(1) l] by simp_all
      have "read_entries g (length (es @ [m])) c1 = (mc, c')"
        using less.prems(2) g Some l b(1) True by (simp add: read_entries.simps [of f] listed_def)
      from less.hyps [OF lt b(2) this] show ?thesis using True by (simp add: e)
    next
      case False
      then have "read_entries g (length es) c = (mc, c')"
        using less.prems(2) g Some by (simp add: read_entries.simps [of f] listed_def)
      from less.hyps [OF lt less.prems(1) this] show ?thesis using False by (simp add: e)
    qed
  qed
qed

lemma read_mntentchn_built:
  assumes "es = filter listed (entries_of f)"
  shows "built (read_mntentchn False f new_chain) es" "prv (read_mntentchn False f new_chain) 0 = Some (length es)"
proof -
  obtain mc c where r: "read_entries f 0 new_chain = (mc, c)" by fastforce
  then have "mc = length es" "built c es"
    using read_entries_built [OF built_new, of f mc c] assms by simp_all
  then show "built (read_mntentchn False f new_chain) es" "prv (read_mntentchn False f new_chain) 0 = Some (length es)"
    using r by (simp_all add: read_mntentchn_def built_def)
qed

section \<open>What \<open>update_mtab\<close> writes\<close>

text \<open>The position, from 1, of the last of the first \<open>k\<close> entries with \<open>p\<close>; 0 if there is none.\<close>

fun last_ix :: "(mntent \<Rightarrow> bool) \<Rightarrow> mntent list \<Rightarrow> nat \<Rightarrow> nat" where
  "last_ix p es 0 = 0"
| "last_ix p es (Suc k) = (if p (es ! k) then Suc k else last_ix p es k)"

lemma last_ix_le: "last_ix p es k \<le> k"
  by (induction k) simp_all

lemma search_back_built:
  "built c es \<Longrightarrow> k \<le> length es \<Longrightarrow> search_back c p (Some k) = Some (Some (last_ix p es k))"
proof (induction k)
  case 0
  then show ?case by (subst search_back.simps) simp
next
  case (Suc k)
  then have "ment c (Suc k) = es ! k" "prv c (Suc k) = Some k" by (simp_all add: built_def)
  then show ?case using Suc by (subst search_back.simps) simp
qed

text \<open>\<open>seg c a ns b\<close>: following \<open>nxt\<close> from the pointer \<open>a\<close> visits the nodes \<open>ns\<close> and arrives at \<open>b\<close>.\<close>

fun seg :: "chain \<Rightarrow> nat option \<Rightarrow> nat list \<Rightarrow> nat option \<Rightarrow> bool" where
  "seg c a [] b \<longleftrightarrow> a = b"
| "seg c a (n # ns) b \<longleftrightarrow> a = Some n \<and> n \<noteq> 0 \<and> seg c (nxt c n) ns b"

lemma seg_append: "seg c a (ms @ ns) b \<longleftrightarrow> (\<exists>d. seg c a ms d \<and> seg c d ns b)"
  by (induction ms arbitrary: a) auto

lemma seg_cong: "(\<And>n. n \<in> set ns \<Longrightarrow> nxt c' n = nxt c n) \<Longrightarrow> seg c' a ns b = seg c a ns b"
  by (induction ns arbitrary: a) auto

lemma seg_built: "built c es \<Longrightarrow> i \<le> j \<Longrightarrow> j \<le> length es \<Longrightarrow> seg c (nxt c i) [Suc i..<Suc j] (nxt c j)"
proof (induction j)
  case (Suc j)
  show ?case
  proof (cases "i \<le> j")
    case True
    then have "seg c (nxt c i) [Suc i..<Suc j] (nxt c j)" "nxt c j = Some (Suc j)"
      using Suc by (simp_all add: built_def)
    then show ?thesis using True by (auto simp: seg_append)
  next
    case False
    then have "i = Suc j" using Suc.prems(2) by simp
    then show ?thesis by simp
  qed
qed simp

lemma write_chain_seg:
  "seg c a ns b \<Longrightarrow> b = None \<or> b = Some 0 \<Longrightarrow>
   write_chain True c a t = Some (Inr (t @ concat (map (\<lambda>n. mntent_line (ment c n)) ns)))"
proof (induction ns arbitrary: a t)
  case Nil
  then show ?case by (subst write_chain.simps) auto
next
  case (Cons n ns)
  then show ?case by (subst write_chain.simps) (simp add: nfs_addmntent_def)
qed

text \<open>The table that should be there afterwards, except that a new entry gets lost unless the table was
  empty.\<close>

definition changed :: "string \<Rightarrow> mntent option \<Rightarrow> mntent list \<Rightarrow> mntent list" where
  "changed dir instead es =
     (let n = last_ix (\<lambda>m. mnt_dir m = dir) es (length es) in
      case instead of
        None \<Rightarrow> if n = 0 then es else take (n - 1) es @ drop n es
      | Some m \<Rightarrow>
          if n = 0 then (if es = [] then [m] else es)
          else es[n - 1 := (es ! (n - 1))\<lparr>mnt_opts := mnt_opts m\<rparr>])"

lemma nxt_last: "built c es \<Longrightarrow> nxt c (length es) = None \<or> nxt c (length es) = Some 0"
  by (auto simp: built_def)

lemma built_ment: "built c es \<Longrightarrow> i \<le> j \<Longrightarrow> j \<le> length es \<Longrightarrow> map (ment c) [Suc i..<Suc j] = take (j - i) (drop i es)"
  by (rule nth_equalityI) (auto simp: built_def simp del: upt_Suc)

lemma write_built:
  assumes "built c es"
  shows "write_chain True c (nxt c 0) [] = Some (Inr (concat (map mntent_line es)))"
proof -
  have "map (ment c) [Suc 0..<Suc (length es)] = es" using built_ment [OF assms, of 0 "length es"] by simp
  then have "map (\<lambda>n. mntent_line (ment c n)) [Suc 0..<Suc (length es)] = map mntent_line es"
    by (metis (no_types, lifting) comp_apply list.map_comp map_eq_conv)
  then show ?thesis
    using write_chain_seg [OF seg_built [OF assms, of 0 "length es"] nxt_last [OF assms], of "[]"] by simp
qed

lemma write_removed:
  assumes "built c es" "i < length es" "change_chain None (Some (Suc i)) c = Some c'"
  shows "write_chain True c' (nxt c' 0) [] = Some (Inr (concat (map mntent_line (take i es @ drop (Suc i) es))))"
proof -
  have n: "nxt c' = (nxt c)(i := nxt c (Suc i))" "ment c' = ment c"
    using assms by (auto simp: change_chain_def built_def bind_eq_Some_conv Let_def)
  let ?k = "length es"
  have tail: "seg c' (nxt c (Suc i)) [Suc (Suc i)..<Suc ?k] (nxt c ?k)"
    using seg_built [OF assms(1), of "Suc i" ?k] assms(2) n(1)
    by (subst seg_cong [where c = c]) auto
  have "seg c' (nxt c' 0) [Suc 0..<Suc i] (nxt c (Suc i))"
  proof (cases i)
    case 0
    then show ?thesis using n by simp
  next
    case (Suc j)
    have "seg c (nxt c 0) [Suc 0..<Suc j] (nxt c j)" using seg_built [OF assms(1), of 0 j] assms(2) Suc by simp
    then have "seg c' (nxt c' 0) [Suc 0..<Suc j] (nxt c j)"
      using n(1) Suc by (subst seg_cong [where c = c]) auto
    moreover have "nxt c j = Some i" using assms(1,2) Suc by (simp add: built_def)
    ultimately show ?thesis using n(1) Suc by (auto simp: seg_append)
  qed
  then have "seg c' (nxt c' 0) ([Suc 0..<Suc i] @ [Suc (Suc i)..<Suc ?k]) (nxt c ?k)"
    using tail by (auto simp: seg_append simp del: upt_Suc)
  from write_chain_seg [OF this nxt_last [OF assms(1)], of "[]"]
  have "write_chain True c' (nxt c' 0) [] =
      Some (Inr (concat (map mntent_line (map (ment c) ([Suc 0..<Suc i] @ [Suc (Suc i)..<Suc ?k])))))"
    using n(2) by (simp add: comp_def del: upt_Suc)
  then show ?thesis
    using built_ment [OF assms(1), of 0 i] built_ment [OF assms(1), of "Suc i" ?k] assms(2)
    by (simp del: upt_Suc map_map)
qed

lemma write_updated:
  assumes "built c es" "i < length es" "change_chain (Some m) (Some (Suc i)) c = Some c'"
  shows "write_chain True c' (nxt c' 0) [] =
    Some (Inr (concat (map mntent_line (es[i := (es ! i)\<lparr>mnt_opts := mnt_opts m\<rparr>]))))"
proof (rule write_built)
  show "built c' (es[i := (es ! i)\<lparr>mnt_opts := mnt_opts m\<rparr>])"
    using assms by (auto simp: change_chain_def built_def nth_list_update)
qed

lemma write_absent:
  assumes "built c es" "change_chain (Some m) (Some 0) c = Some c'" "prv c 0 = Some (length es)"
  shows "write_chain True c' (nxt c' 0) [] = Some (Inr (concat (map mntent_line (if es = [] then [m] else es))))"
proof (cases "es = []")
  case True
  then have "built c' [m]"
    using assms by (auto simp: change_chain_def built_def Let_def)
  then show ?thesis using write_built [of c' "[m]"] True by simp
next
  case False
  then have n: "nxt c' = (nxt c)(Suc (length es) := Some 0)" "\<forall>i \<le> length es. ment c' i = ment c i"
    using assms by (auto simp: change_chain_def built_def Let_def split: if_splits)
  have "seg c' (nxt c' 0) [Suc 0..<Suc (length es)] (nxt c (length es))"
    using seg_built [OF assms(1), of 0 "length es"] n(1)
    by (subst seg_cong [where c = c]) auto
  from write_chain_seg [OF this nxt_last [OF assms(1)], of "[]"]
  have "write_chain True c' (nxt c' 0) [] = Some (Inr (concat (map mntent_line (map (ment c') [Suc 0..<Suc (length es)]))))"
    by (simp add: comp_def del: upt_Suc)
  moreover have "map (ment c') [Suc 0..<Suc (length es)] = map (ment c) [Suc 0..<Suc (length es)]"
    using n(2) by (intro map_cong) auto
  ultimately show ?thesis
    using built_ment [OF assms(1), of 0 "length es"] False by (simp del: upt_Suc map_map)
qed

lemma write_changed:
  assumes "built c es" "prv c 0 = Some (length es)"
  shows "\<exists>mc c'. search_back c (\<lambda>m. mnt_dir m = dir) (prv c 0) = Some mc \<and> change_chain instead mc c = Some c' \<and>
    write_chain True c' (nxt c' 0) [] = Some (Inr (concat (map mntent_line (changed dir instead es))))"
proof -
  let ?n = "last_ix (\<lambda>m. mnt_dir m = dir) es (length es)"
  have s: "search_back c (\<lambda>m. mnt_dir m = dir) (prv c 0) = Some (Some ?n)"
    using search_back_built [OF assms(1)] assms(2) by simp
  have "\<exists>c'. change_chain instead (Some ?n) c = Some c' \<and>
    write_chain True c' (nxt c' 0) [] = Some (Inr (concat (map mntent_line (changed dir instead es))))"
  proof (cases ?n)
    case 0
    then show ?thesis
      using write_built [OF assms(1)] write_absent [OF assms(1) _ assms(2)]
      by (cases instead) (auto simp: changed_def change_chain_def Let_def)
  next
    case (Suc i)
    then have i: "i < length es" using last_ix_le [of "\<lambda>m. mnt_dir m = dir" es "length es"] by simp
    have "nxt c (Suc i) = Some (if Suc i = length es then 0 else Suc (Suc i))" "prv c (Suc i) = Some i"
      using assms(1) i by (auto simp: built_def)
    then have "\<exists>c'. change_chain instead (Some (Suc i)) c = Some c'"
      by (cases instead) (simp_all add: change_chain_def Let_def)
    then obtain c' where c': "change_chain instead (Some (Suc i)) c = Some c'" by blast
    show ?thesis
      using c' write_removed [OF assms(1) i] write_updated [OF assms(1) i] Suc
      by (cases instead) (auto simp: changed_def)
  qed
  then show ?thesis using s by blast
qed

text \<open>The lock is taken when \<open>lock_mtab\<close> returns, and given back when it dies.\<close>

definition lock_outcome :: "(int + unit) \<times> lock_state \<Rightarrow> bool" where
  "lock_outcome r \<longleftrightarrow> (case fst r of Inr _ \<Rightarrow> we_created_lockfile (snd r)
     | Inl e \<Rightarrow> e = EX_FILEIO \<and> \<not> we_created_lockfile (snd r))"

lemma lock_outcome_die: "lock_outcome (die_locked EX_FILEIO l)"
  by (simp add: lock_outcome_def die_locked_def unlock_mtab_def)

lemma lock_outcome_got: "we_created_lockfile l \<Longrightarrow> lock_outcome (Inr u, l)"
  by (simp add: lock_outcome_def)

lemma lock_outcome_loop: "lock_outcome (lock_loop env k tries l)"
proof (induction env k tries l rule: lock_loop.induct)
  case (1 env k tries l)
  show ?case
  proof (cases "we_created_lockfile l \<or> at_link (env k) = LinkError")
    case True
    then show ?thesis
      by (subst lock_loop.simps) (auto simp: lock_outcome_die lock_outcome_got Let_def)
  next
    case False
    note IH = 1 [OF _ refl refl]
    show ?thesis
      using False IH
      by (subst lock_loop.simps) (auto simp: lock_outcome_die Let_def split: open_result.split)
  qed
qed

lemma lock_outcome_mtab: "lock_outcome (lock_mtab ok env l)"
  by (simp add: lock_mtab_def lock_outcome_die lock_outcome_loop)

text \<open>A table that holds written entries is read back entry by entry.\<close>

lemma entries_of_written:
  "\<forall>m \<in> set es. mntent_ok m \<Longrightarrow> \<not> mntent_errs f \<Longrightarrow> mntent_softerrs f < ERR_MAX \<Longrightarrow>
   mf_rest f = concat (map mntent_line es) \<Longrightarrow> entries_of f = es"
proof (induction es arbitrary: f)
  case Nil
  then show ?case by (subst entries_of.simps) (simp add: getmntent_end)
next
  case (Cons m es)
  then show ?case
    by (subst entries_of.simps) (simp add: getmntent_line [of m f "concat (map mntent_line es)"])
qed

definition mtab_io_ok :: "mtab_io \<Rightarrow> bool" where
  "mtab_io_ok io \<longleftrightarrow> io_rdwr io \<and> io_read io \<and> \<not> io_ferror io \<and> io_tmp io \<and> io_print io \<and> io_rename io"

definition mtab_plain :: "mtab_fs \<Rightarrow> bool" where
  "mtab_plain fs \<longleftrightarrow> mtab_file fs \<noteq> None \<and> \<not> mtab_link fs \<and> \<not> var_mtab_does_not_exist fs \<and> \<not> var_mtab_is_a_symlink fs"

lemma update_mtab_ok:
  assumes "mtab_io_ok io" "mtab_plain fs" "mtab_file fs = Some t"
    and "fst (lock_mtab (io_target io) (io_lock io) (lk fs)) = Inr ()"
  shows "\<exists>fs'. update_mtab io dir instead fs = Some (Inr (), fs') \<and> \<not> we_created_lockfile (lk fs') \<and>
    mtab_file fs' = Some (concat (map mntent_line (changed dir instead (filter listed (entries_of (open_mntent t))))))"
proof -
  let ?es = "filter listed (entries_of (open_mntent t))"
  let ?c = "read_mntentchn False (open_mntent t) new_chain"
  obtain l where l: "lock_mtab (io_target io) (io_lock io) (lk fs) = (Inr (), l)"
    using assms(4) by (metis prod.collapse)
  obtain mc c' where w: "search_back ?c (\<lambda>m. mnt_dir m = dir) (prv ?c 0) = Some mc" "change_chain instead mc ?c = Some c'"
      "write_chain True c' (nxt c' 0) [] = Some (Inr (concat (map mntent_line (changed dir instead ?es))))"
    using write_changed [OF read_mntentchn_built [OF refl]] by blast
  have i: "get_mtab_info fs = fs\<lparr>have_mtab_info := True\<rparr>"
    using assms(2) by (auto simp: get_mtab_info_def mtab_plain_def Let_def)
  have i': "get_mtab_info (fs\<lparr>have_mtab_info := True\<rparr>) = fs\<lparr>have_mtab_info := True\<rparr>"
    by (simp add: get_mtab_info_def)
  show ?thesis
    using assms(1-3) l w i i'
    by (auto simp: update_mtab_def mtab_does_not_exist_def mtab_is_writable_def mtab_is_a_symlink_def
        mtab_io_ok_def mtab_plain_def Let_def unlocked_def unlock_mtab_def)
qed

section \<open>Properties\<close>

lemma last_ix_nth:
  "i < n \<Longrightarrow> p (es ! i) \<Longrightarrow> (\<And>j. i < j \<Longrightarrow> j < n \<Longrightarrow> \<not> p (es ! j)) \<Longrightarrow> last_ix p es n = Suc i"
  by (induction n) (auto simp: less_Suc_eq)

lemma last_ix_last:
  assumes "p m" "\<not> (\<exists>x \<in> set ys. p x)"
  shows "last_ix p (xs @ m # ys) (length xs + Suc (length ys)) = Suc (length xs)"
proof (rule last_ix_nth)
  fix j
  assume "length xs < j" "j < length xs + Suc (length ys)"
  then have "(xs @ m # ys) ! j \<in> set ys" by (auto simp: nth_append nth_Cons split: nat.splits)
  then show "\<not> p ((xs @ m # ys) ! j)" using assms(2) by blast
qed (use assms in simp_all)

lemma last_ix_none: "\<not> (\<exists>x \<in> set es. p x) \<Longrightarrow> k \<le> length es \<Longrightarrow> last_ix p es k = 0"
  by (induction k) (auto simp: Suc_le_eq)

text \<open>The files a mount table goes through: lines that \<open>nfs_addmntent\<close> has written.\<close>

definition written :: "mntent list \<Rightarrow> string" where
  "written es = fold (\<lambda>m file. snd (nfs_addmntent True file m)) es []"

lemma written_concat: "written es = concat (map mntent_line es)"
proof -
  have "fold (\<lambda>m file. snd (nfs_addmntent True file m)) es t = t @ concat (map mntent_line es)" for t
    by (induction es arbitrary: t) (simp_all add: nfs_addmntent_def)
  then show ?thesis by (simp add: written_def)
qed

lemma entries_written: "\<forall>m \<in> set es. mntent_ok m \<Longrightarrow> entries_of (open_mntent (written es)) = es"
  by (rule entries_of_written) (simp_all add: open_mntent_def written_concat)

text \<open>The inputs of the witnesses.\<close>

definition quick_io :: mtab_io where
  "quick_io = \<lparr>io_rdwr = True, io_read = True, io_ferror = False, io_tmp = True, io_print = True, io_rename = True,
     io_target = True, io_lock = (\<lambda>_. \<lparr>at_link = LinkOk, at_open = OpenOk 3, at_lock = True\<rparr>)\<rparr>"

definition some_ment :: "string \<Rightarrow> string \<Rightarrow> mntent" where
  "some_ment d opts = \<lparr>mnt_fsname = ''srv:/e'', mnt_dir = d, mnt_type = ''nfs'', mnt_opts = opts, mnt_freq = 0, mnt_passno = 0\<rparr>"

definition some_fs :: "mntent list \<Rightarrow> mtab_fs" where
  "some_fs es = \<lparr>mtab_file = Some (written es), mtab_link = False, tmp_file = None, have_mtab_info = False,
     var_mtab_does_not_exist = False, var_mtab_is_a_symlink = False,
     lk = \<lparr>we_created_lockfile = False, lockfile_fd = - 1, waits = 0\<rparr>\<rparr>"

lemma quick_io_ok: "mtab_io_ok quick_io" "mtab_plain (some_fs es)" "mtab_file (some_fs es) = Some (written es)"
  "fst (lock_mtab (io_target quick_io) (io_lock quick_io) (lk (some_fs es))) = Inr ()"
  by (simp_all add: mtab_io_ok_def quick_io_def mtab_plain_def some_fs_def lock_mtab_def lock_loop.simps Let_def)

lemma some_ment_ok:
  assumes "d \<noteq> []" "opts \<noteq> []" "length (mangle d) < 1000" "length (mangle opts) < 1000"
  shows "mntent_ok (some_ment d opts)"
proof -
  have "mangle ''srv:/e'' = ''srv:/e''" "mangle ''nfs'' = ''nfs''" "show_int 0 = ''0''" by code_simp+
  then show ?thesis using assms by (simp add: mntent_ok_def some_ment_def mntent_line_def)
qed

lemma some_mangled:
  "mangle ''/a'' = ''/a''" "mangle ''/b'' = ''/b''" "mangle ''/m'' = ''/m''" "mangle ''rw'' = ''rw''" "mangle ''ro'' = ''ro''"
  "length (mangle ''/my dir'') = 10"
  by code_simp+

text \<open>C17. Entries that \<open>nfs_addmntent\<close> writes one after the other are read back by \<open>nfs_getmntent\<close> one after the
  other, unchanged and in order, whatever blanks, newlines and backslashes their fields contain.\<close>

theorem mntent_roundtrip:
  assumes "\<forall>m \<in> set es. mntent_ok m"
  shows "entries_of (open_mntent (fold (\<lambda>m file. snd (nfs_addmntent True file m)) es [])) = es"
  using entries_written [OF assms] unfolding written_def .

theorem mntent_roundtrip_witness:
  "entries_of (open_mntent (fold (\<lambda>m file. snd (nfs_addmntent True file m))
     [some_ment ''/my dir'' ''rw'', some_ment ''/b'' ''ro''] [])) = [some_ment ''/my dir'' ''rw'', some_ment ''/b'' ''ro'']"
  by (rule mntent_roundtrip) (simp add: some_ment_ok some_mangled)

text \<open>C18. Unmounting removes exactly one line of the mount table, the last one for the mount point: all other
  entries are in the new file, in order, and the lock is released.\<close>

theorem update_mtab_umount:
  assumes "mtab_io_ok io" "mtab_plain fs" "fst (lock_mtab (io_target io) (io_lock io) (lk fs)) = Inr ()"
    and "mtab_file fs = Some (written (xs @ m # ys))" "\<forall>x \<in> set (xs @ m # ys). mntent_ok x \<and> mnt_type x \<noteq> MNTTYPE_IGNORE"
    and "mnt_dir m = dir" "\<forall>x \<in> set ys. mnt_dir x \<noteq> dir"
  shows "\<exists>fs'. update_mtab io dir None fs = Some (Inr (), fs') \<and> mtab_file fs' = Some (written (xs @ ys)) \<and>
    \<not> we_created_lockfile (lk fs')"
proof -
  have "filter listed (entries_of (open_mntent (written (xs @ m # ys)))) = xs @ m # ys"
    using assms(5) by (subst entries_written) (auto simp: listed_def filter_id_conv)
  moreover have "changed dir None (xs @ m # ys) = xs @ ys"
    using last_ix_last [of "\<lambda>x. mnt_dir x = dir" m ys xs] assms(6,7) by (simp add: changed_def Let_def)
  ultimately show ?thesis
    using update_mtab_ok [OF assms(1,2,4,3), of dir None] by (auto simp: written_concat)
qed

theorem update_mtab_umount_witness:
  "\<exists>fs'. update_mtab quick_io ''/m'' None (some_fs [some_ment ''/m'' ''rw'', some_ment ''/a'' ''rw'', some_ment ''/m'' ''ro'']) =
       Some (Inr (), fs') \<and> mtab_file fs' = Some (written [some_ment ''/m'' ''rw'', some_ment ''/a'' ''rw'']) \<and>
     \<not> we_created_lockfile (lk fs')"
proof -
  have ok: "mntent_ok (some_ment ''/m'' ''rw'')" "mntent_ok (some_ment ''/a'' ''rw'')" "mntent_ok (some_ment ''/m'' ''ro'')"
    by (simp_all add: some_ment_ok some_mangled)
  show ?thesis
    using update_mtab_umount [OF quick_io_ok(1,2,4), where xs = "[some_ment ''/m'' ''rw'', some_ment ''/a'' ''rw'']" and
        ys = "[]" and m = "some_ment ''/m'' ''ro''" and dir = "''/m''"] ok
    by (simp add: quick_io_ok(3)) (simp add: some_ment_def)
qed

text \<open>C40. An entry for a mount point that the table does not list is written only if the table is empty:
  otherwise the node for it is never linked into the chain that is written, and the file keeps the old entries.\<close>

theorem update_mtab_absent:
  assumes "mtab_io_ok io" "mtab_plain fs" "fst (lock_mtab (io_target io) (io_lock io) (lk fs)) = Inr ()"
    and "mtab_file fs = Some (written es)" "\<forall>x \<in> set es. mntent_ok x \<and> mnt_type x \<noteq> MNTTYPE_IGNORE \<and> mnt_dir x \<noteq> dir"
  shows "\<exists>fs'. update_mtab io dir (Some m) fs = Some (Inr (), fs') \<and>
    mtab_file fs' = Some (written (if es = [] then [m] else es))"
proof -
  have "filter listed (entries_of (open_mntent (written es))) = es"
    using assms(5) by (subst entries_written) (auto simp: listed_def filter_id_conv)
  moreover have "changed dir (Some m) es = (if es = [] then [m] else es)"
    using last_ix_none [of es "\<lambda>x. mnt_dir x = dir" "length es"] assms(5) by (simp add: changed_def Let_def)
  ultimately show ?thesis
    using update_mtab_ok [OF assms(1,2,4,3), of dir "Some m"] by (auto simp: written_concat)
qed

theorem update_mtab_absent_witness:
  "\<exists>fs'. update_mtab quick_io ''/n'' (Some (some_ment ''/n'' ''rw'')) (some_fs [some_ment ''/a'' ''rw'']) = Some (Inr (), fs') \<and>
     mtab_file fs' = Some (written [some_ment ''/a'' ''rw''])"
proof -
  have ok: "mntent_ok (some_ment ''/a'' ''rw'')"
    by (simp add: some_ment_ok some_mangled)
  show ?thesis
    using update_mtab_absent [OF quick_io_ok(1,2,4), where es = "[some_ment ''/a'' ''rw'']" and dir = "''/n''" and
        m = "some_ment ''/n'' ''rw''"] ok
    by (simp add: quick_io_ok(3)) (simp add: some_ment_def)
qed

text \<open>C20. \<open>lock_mtab\<close> always ends: with the lock file created by this process, or by leaving the program with
  \<open>EX_FILEIO\<close> and no lock held.  Releasing the lock gives it up.\<close>

theorem lock_mtab_outcome:
  "case lock_mtab target_ok attempts l of
     (Inr _, l') \<Rightarrow> we_created_lockfile l' \<and> \<not> we_created_lockfile (unlock_mtab l')
   | (Inl e, l') \<Rightarrow> e = EX_FILEIO \<and> \<not> we_created_lockfile l'"
  using lock_outcome_mtab [of target_ok attempts l]
  by (auto simp: lock_outcome_def unlock_mtab_def split: prod.splits sum.splits)

end
