(* ===== verification/Xcommon.thy ===== *)
theory Xcommon
  imports Prelude
begin

text \<open>
  The helpers of fuse/xcommon.c.  They end the process with an exit code (\<open>Inl\<close>) where memory runs out;
  \<open>malloc_ok n\<close> tells whether an allocation of \<open>n\<close> bytes succeeds.  A null string is \<open>None\<close>.
\<close>

abbreviation EX_SYSERR :: int where "EX_SYSERR \<equiv> 2"
abbreviation EX_SOFTWARE :: int where "EX_SOFTWARE \<equiv> 4"

definition die :: "int \<Rightarrow> int + 'a" where
  "die err = Inl err"

definition die_if_null :: "'a option \<Rightarrow> int + 'a" where
  "die_if_null t = (case t of None \<Rightarrow> die EX_SYSERR | Some x \<Rightarrow> Inr x)"

text \<open>Whether an address comes back; a size of 0 gives \<open>NULL\<close>.\<close>

definition xmalloc :: "(nat \<Rightarrow> bool) \<Rightarrow> nat \<Rightarrow> int + bool" where
  "xmalloc malloc_ok sz = (if sz = 0 then Inr False else die_if_null (if malloc_ok sz then Some True else None))"

definition xstrdup :: "(nat \<Rightarrow> bool) \<Rightarrow> string option \<Rightarrow> int + string option" where
  "xstrdup malloc_ok s =
     (case s of None \<Rightarrow> Inr None
      | Some t \<Rightarrow> die_if_null (if malloc_ok (length t + 1) then Some (Some t) else None))"

text \<open>\<open>strncpy\<close> pads a short source with NULs, so that the string is the shorter of the two.\<close>

definition xstrndup :: "(nat \<Rightarrow> bool) \<Rightarrow> string option \<Rightarrow> nat \<Rightarrow> int + string" where
  "xstrndup malloc_ok s n =
     (case s of None \<Rightarrow> die EX_SOFTWARE
      | Some t \<Rightarrow> (case xmalloc malloc_ok (n + 1) of Inl e \<Rightarrow> Inl e | Inr _ \<Rightarrow> Inr (take n t)))"

definition or_empty :: "string option \<Rightarrow> string" where
  "or_empty s = (case s of None \<Rightarrow> [] | Some t \<Rightarrow> t)"

definition concat_checked :: "(nat \<Rightarrow> bool) \<Rightarrow> string \<Rightarrow> int + string" where
  "concat_checked malloc_ok t = (case xmalloc malloc_ok (length t + 1) of Inl e \<Rightarrow> Inl e | Inr _ \<Rightarrow> Inr t)"

definition xstrconcat2 :: "(nat \<Rightarrow> bool) \<Rightarrow> string option \<Rightarrow> string option \<Rightarrow> int + string" where
  "xstrconcat2 malloc_ok s t = concat_checked malloc_ok (or_empty s @ or_empty t)"

definition xstrconcat3 :: "(nat \<Rightarrow> bool) \<Rightarrow> string option \<Rightarrow> string option \<Rightarrow> string option \<Rightarrow> int + string" where
  "xstrconcat3 malloc_ok s t u = concat_checked malloc_ok (or_empty s @ or_empty t @ or_empty u)"

definition xstrconcat4 ::
  "(nat \<Rightarrow> bool) \<Rightarrow> string option \<Rightarrow> string option \<Rightarrow> string option \<Rightarrow> string option \<Rightarrow> int + string" where
  "xstrconcat4 malloc_ok s t u v = concat_checked malloc_ok (or_empty s @ or_empty t @ or_empty u @ or_empty v)"

text \<open>\<open>realpath\<close> is the library's.\<close>

definition canonicalize :: "(nat \<Rightarrow> bool) \<Rightarrow> (string \<Rightarrow> string option) \<Rightarrow> string option \<Rightarrow> int + string option" where
  "canonicalize malloc_ok realpath path =
     (case path of
        None \<Rightarrow> Inr None
      | Some p \<Rightarrow>
          if p = ''none'' \<or> p = ''proc'' \<or> p = ''devpts'' then xstrdup malloc_ok (Some p)
          else (case realpath p of
                  Some c \<Rightarrow> xstrdup malloc_ok (Some c)
                | None \<Rightarrow> xstrdup malloc_ok (Some p)))"

lemma xstrconcat3_ok: "(\<And>n. ok n) \<Longrightarrow> xstrconcat3 ok (Some s) (Some t) (Some u) = Inr (s @ t @ u)"
  by (simp add: xstrconcat3_def concat_checked_def xmalloc_def die_if_null_def or_empty_def)

lemma xstrdup_ok: "(\<And>n. ok n) \<Longrightarrow> xstrdup ok (Some s) = Inr (Some s)"
  by (simp add: xstrdup_def die_if_null_def)

end
