(* ===== verification/Main_Opts.thy ===== *)
theory Main_Opts
  imports Mount Mtab Xcommon
begin

text \<open>
  The program, fuse/hsfs_main.c: the table of generic mount options with the two functions that read and
  print option strings, the entry in the mount table, the command line and \<open>main\<close>.
  \<open>fuse_opt_add_opt\<close>, \<open>fuse_opt_parse\<close>, \<open>fuse_parse_cmdline\<close>, \<open>fuse_lowlevel_is_lib_option\<close> and the session
  functions belong to libfuse and are parameters.
\<close>

section \<open>The option table\<close>

record opt_map =
  nfs_opt :: string
  om_skip :: bool
  om_inv :: bool
  om_mask :: u32
  fuse_opt :: "string option"

definition om :: "string \<Rightarrow> bool \<Rightarrow> bool \<Rightarrow> u32 \<Rightarrow> string option \<Rightarrow> opt_map" where
  "om n sk iv m f = \<lparr>nfs_opt = n, om_skip = sk, om_inv = iv, om_mask = m, fuse_opt = f\<rparr>"

abbreviation MS_RDONLY :: u32 where "MS_RDONLY \<equiv> 1"
abbreviation MS_NOSUID :: u32 where "MS_NOSUID \<equiv> 2"
abbreviation MS_NODEV :: u32 where "MS_NODEV \<equiv> 4"
abbreviation MS_NOEXEC :: u32 where "MS_NOEXEC \<equiv> 8"
abbreviation MS_SYNCHRONOUS :: u32 where "MS_SYNCHRONOUS \<equiv> 16"
abbreviation MS_REMOUNT :: u32 where "MS_REMOUNT \<equiv> 32"
abbreviation MS_MANDLOCK :: u32 where "MS_MANDLOCK \<equiv> 64"
abbreviation MS_DIRSYNC :: u32 where "MS_DIRSYNC \<equiv> 128"
abbreviation MS_NOATIME :: u32 where "MS_NOATIME \<equiv> 1024"
abbreviation MS_NODIRATIME :: u32 where "MS_NODIRATIME \<equiv> 2048"
abbreviation MS_BIND :: u32 where "MS_BIND \<equiv> 4096"
abbreviation MS_BIND_REC :: u32 where "MS_BIND_REC \<equiv> 0x5000"
abbreviation MS_SILENT :: u32 where "MS_SILENT \<equiv> 0x8000"
abbreviation MS_DUMMY :: u32 where "MS_DUMMY \<equiv> 0"
abbreviation MS_USERS :: u32 where "MS_USERS \<equiv> 0x40000000"
abbreviation MS_USER :: u32 where "MS_USER \<equiv> 0x20000000"

text \<open>Without the entries for \<open>MS_NOSUB\<close>, which the system headers do not define.\<close>

definition opt_maps :: "opt_map list" where
  "opt_maps =
   [om ''defaults'' False False 0 None,
    om ''ro'' True False MS_RDONLY (Some ''ro''), om ''rw'' True True MS_RDONLY (Some ''rw''),
    om ''exec'' False True MS_NOEXEC (Some ''exec''), om ''noexec'' False False MS_NOEXEC (Some ''noexec''),
    om ''suid'' False True MS_NOSUID (Some ''suid''), om ''nosuid'' False False MS_NOSUID (Some ''nosuid''),
    om ''dev'' False True MS_NODEV (Some ''dev''), om ''nodev'' False False MS_NODEV (Some ''nodev''),
    om ''sync'' False False MS_SYNCHRONOUS (Some ''sync''), om ''async'' False True MS_SYNCHRONOUS (Some ''async''),
    om ''dirsync'' False False MS_DIRSYNC (Some ''dirsync''),
    om ''remount'' False False MS_REMOUNT None,
    om ''bind'' False False MS_BIND None, om ''rbind'' False False MS_BIND_REC None,
    om ''auto'' False False MS_DUMMY None, om ''noauto'' False False MS_DUMMY None,
    om ''users'' False False MS_USERS (Some ''allow_other''), om ''nousers'' False True MS_USERS (Some ''allow_root''),
    om ''user'' False False MS_USER (Some ''allow_other''), om ''nouser'' False True MS_USER (Some ''allow_root''),
    om ''owner'' False False MS_DUMMY None, om ''noowner'' False False MS_DUMMY None,
    om ''group'' False False MS_DUMMY None, om ''nogroup'' False False MS_DUMMY None,
    om ''_netdev'' False False MS_DUMMY None, om ''comment'' False False MS_DUMMY None,
    om ''quiet'' False False MS_SILENT None, om ''loud'' False True MS_SILENT None,
    om ''mand'' False False MS_MANDLOCK None, om ''nomand'' False True MS_MANDLOCK None,
    om ''loop'' True False MS_DUMMY None,
    om ''atime'' False True MS_NOATIME (Some ''atime''), om ''noatime'' False False MS_NOATIME (Some ''noatime''),
    om ''diratime'' False True MS_NODIRATIME None, om ''nodiratime'' False False MS_NODIRATIME None]"

section \<open>Printing the options\<close>

text \<open>The loop of \<open>hsi_fix_opts_string\<close>.\<close>

fun fix_opts :: "(nat \<Rightarrow> bool) \<Rightarrow> opt_map list \<Rightarrow> u32 \<Rightarrow> string \<Rightarrow> int + string" where
  "fix_opts ok [] fl new_opts = Inr new_opts"
| "fix_opts ok (p # oms) fl new_opts =
     (if om_skip p then fix_opts ok oms fl new_opts
      else if om_inv p \<or> om_mask p = 0 \<or> fl AND om_mask p \<noteq> om_mask p then fix_opts ok oms fl new_opts
      else case xstrconcat3 ok (Some new_opts) (Some '','') (Some (nfs_opt p)) of
             Inl e \<Rightarrow> Inl e
           | Inr new_opts \<Rightarrow> fix_opts ok oms (fl AND NOT (om_mask p)) new_opts)"

text \<open>\<open>user\<close> is the name \<open>getpwuid\<close> finds for the caller.\<close>

definition hsi_fix_opts_string :: "(nat \<Rightarrow> bool) \<Rightarrow> string option \<Rightarrow> u32 \<Rightarrow> string option \<Rightarrow> int + string" where
  "hsi_fix_opts_string ok user fl extra_opts =
     (case xstrdup ok (Some (if fl AND MS_RDONLY \<noteq> 0 then ''ro'' else ''rw'')) of
        Inl e \<Rightarrow> Inl e
      | Inr new_opts \<Rightarrow>
      (case (if fl AND MS_USER \<noteq> 0 \<and> user \<noteq> None then xstrconcat3 ok new_opts (Some '',user='') user
             else Inr (or_empty new_opts)) of
         Inl e \<Rightarrow> Inl e
       | Inr new_opts \<Rightarrow>
      (case fix_opts ok opt_maps fl new_opts of
         Inl e \<Rightarrow> Inl e
       | Inr new_opts \<Rightarrow>
           (case extra_opts of
              Some (c # x) \<Rightarrow> xstrconcat3 ok (Some new_opts) (Some '','') (Some (c # x))
            | _ \<Rightarrow> Inr new_opts))))"

section \<open>Reading the options\<close>

type_synonym add_opt = "string option \<Rightarrow> string \<Rightarrow> int \<times> string option"

text \<open>The option is added to the last argument.  \<open>None\<close> is a null \<open>args\<close>; an empty vector has no last
  argument.\<close>

definition hsi_fuse_add_opt :: "add_opt \<Rightarrow> string list option \<Rightarrow> string \<Rightarrow> (int \<times> string list option) option" where
  "hsi_fuse_add_opt add args opt =
     (case args of
        None \<Rightarrow> Some (EINVAL, None)
      | Some argv \<Rightarrow>
          if argv = [] then None
          else let (r, a) = add (Some (last argv)) opt in
               Some (r, Some (butlast argv @ [case a of None \<Rightarrow> last argv | Some x \<Rightarrow> x])))"

record parse_state =
  ps_flags :: u32
  ps_args :: "string list option"
  ps_extra :: string

text \<open>The end of \<open>hsi_parse_opt\<close>: \<open>len\<close> is a \<open>size_t\<close>, so that the differences wrap around.  Writing past
  the \<open>len\<close> bytes of \<open>extra_opts\<close> is a fault.\<close>

definition add_extra :: "string \<Rightarrow> u64 \<Rightarrow> string \<Rightarrow> string option" where
  "add_extra opt len extra_opts =
     (let l = len - of_nat (length extra_opts);
          (l, e) = (if extra_opts \<noteq> [] then (l - 1, if l - 1 > 0 then extra_opts @ '','' else extra_opts) else (l, extra_opts));
          l = l - of_nat (length opt);
          e = (if l > 0 then e @ opt else e)
      in if length e < unat len then Some e else None)"

fun parse_opt :: "add_opt \<Rightarrow> (string \<Rightarrow> bool) \<Rightarrow> opt_map list \<Rightarrow> string \<Rightarrow> u64 \<Rightarrow> parse_state \<Rightarrow> parse_state option" where
  "parse_opt add is_lib [] opt len st =
     do { e \<leftarrow> add_extra opt len (ps_extra st); Some (st\<lparr>ps_extra := e\<rparr>) }"
| "parse_opt add is_lib (p # oms) opt len st =
     (if opt = nfs_opt p then
        (case fuse_opt p of
           Some f \<Rightarrow>
             do { (_, args) \<leftarrow> hsi_fuse_add_opt add (ps_args st) f;
                  Some (st\<lparr>ps_args := args, ps_flags := if om_inv p then ps_flags st AND NOT (om_mask p)
                                                      else ps_flags st OR om_mask p\<rparr>) }
         | None \<Rightarrow> Some st)
      else if is_lib opt then
        do { (_, args) \<leftarrow> hsi_fuse_add_opt add (ps_args st) opt; Some (st\<lparr>ps_args := args\<rparr>) }
      else parse_opt add is_lib oms opt len st)"

definition hsi_parse_opt :: "add_opt \<Rightarrow> (string \<Rightarrow> bool) \<Rightarrow> string \<Rightarrow> u64 \<Rightarrow> parse_state \<Rightarrow> parse_state option" where
  "hsi_parse_opt add is_lib opt len st = parse_opt add is_lib opt_maps opt len st"

fun parse_opts :: "add_opt \<Rightarrow> (string \<Rightarrow> bool) \<Rightarrow> string list \<Rightarrow> u64 \<Rightarrow> parse_state \<Rightarrow> parse_state option" where
  "parse_opts add is_lib [] len st = Some st"
| "parse_opts add is_lib (opt # opts) len st =
     do { st \<leftarrow> hsi_parse_opt add is_lib opt len st; parse_opts add is_lib opts len st }"

text \<open>\<open>udata\<close> is the second component; \<open>None\<close> there: not assigned.\<close>

definition hsi_parse_opts ::
  "(nat \<Rightarrow> bool) \<Rightarrow> add_opt \<Rightarrow> (string \<Rightarrow> bool) \<Rightarrow> string option \<Rightarrow> u32 \<Rightarrow> string list option \<Rightarrow>
   (int + u32 \<times> string list option \<times> string option) option" where
  "hsi_parse_opts ok add is_lib options fl args =
     (case options of
        None \<Rightarrow> Some (Inr (fl, args, None))
      | Some opts \<Rightarrow>
          (case xstrdup ok (Some opts) of
             Inl e \<Rightarrow> Some (Inl e)
           | Inr _ \<Rightarrow>
          (case xmalloc ok (length opts + 1) of
             Inl e \<Rightarrow> Some (Inl e)
           | Inr _ \<Rightarrow>
               do { st \<leftarrow> parse_opts add is_lib (split_opts False None opts) (of_nat (length opts + 1))
                            \<lparr>ps_flags = fl, ps_args = args, ps_extra = []\<rparr>;
                    Some (Inr (ps_flags st, ps_args st, Some (ps_extra st))) })))"

section \<open>The mount table\<close>

text \<open>\<open>addmntent\<close> of the C library prints the line that \<open>nfs_addmntent\<close> prints.  Opening with \<open>"a+"\<close> creates
  the file.\<close>

definition hsi_add_mtab ::
  "mtab_io \<Rightarrow> (nat \<Rightarrow> bool) \<Rightarrow> string option \<Rightarrow> bool \<Rightarrow> string \<Rightarrow> string \<Rightarrow> string \<Rightarrow> u32 \<Rightarrow> string option \<Rightarrow> mtab_fs \<Rightarrow>
   ((int + int) \<times> mtab_fs) option" where
  "hsi_add_mtab io ok user nomtab sp mount_point fstype fl opts fs =
     (if nomtab then Some (Inr 0, fs)
      else case hsi_fix_opts_string ok user fl opts of
        Inl e \<Rightarrow> Some (Inl e, fs)
      | Inr mopts \<Rightarrow>
          let m = \<lparr>mnt_fsname = sp, mnt_dir = mount_point, mnt_type = fstype, mnt_opts = mopts, mnt_freq = 0, mnt_passno = 0\<rparr> in
          if fl AND MS_REMOUNT \<noteq> 0 then
            do { (r, fs) \<leftarrow> update_mtab io mount_point (Some m) fs;
                 Some (case r of Inl e \<Rightarrow> Inl e | Inr _ \<Rightarrow> Inr 0, fs) }
          else
            let (r, l) = lock_mtab (io_target io) (io_lock io) (lk fs); fs = fs\<lparr>lk := l\<rparr> in
            case r of
              Inl e \<Rightarrow> Some (Inl e, fs)
            | Inr _ \<Rightarrow>
                if \<not> io_rdwr io then Some (Inr 1, unlocked fs)
                else
                  let file = (case mtab_file fs of None \<Rightarrow> [] | Some t \<Rightarrow> t);
                      (res, file) = nfs_addmntent (io_print io) file m;
                      fs = fs\<lparr>mtab_file := Some file\<rparr>
                  in Some (Inr res, unlocked fs))"

definition hsi_del_mtab :: "mtab_io \<Rightarrow> bool \<Rightarrow> string \<Rightarrow> mtab_fs \<Rightarrow> ((int + int) \<times> mtab_fs) option" where
  "hsi_del_mtab io nomtab node fs =
     (if nomtab then Some (Inr 0, fs)
      else do { (r, fs) \<leftarrow> update_mtab io node None fs;
                Some (case r of Inl e \<Rightarrow> Inl e | Inr _ \<Rightarrow> Inr 0, fs) })"

section \<open>The command line\<close>

record cl_state =
  cl_opts :: cmdline_opts
  verbose :: int
  no_mtab :: bool

abbreviation FUSE_OPT_KEY_NONOPT :: int where "FUSE_OPT_KEY_NONOPT \<equiv> - 2"

abbreviation key_of :: "char \<Rightarrow> int" where "key_of c \<equiv> of_char c"

definition take_nonopt :: "(nat \<Rightarrow> bool) \<Rightarrow> string \<Rightarrow> cl_state \<Rightarrow> int + int \<times> cl_state" where
  "take_nonopt ok arg c =
     (if spec (cl_opts c) \<noteq> None then Inr (1, c)
      else case xstrdup ok (Some arg) of
             Inl e \<Rightarrow> Inl e
           | Inr d \<Rightarrow> Inr (0, c\<lparr>cl_opts := (cl_opts c)\<lparr>spec := d\<rparr>\<rparr>))"

text \<open>Case \<open>'n'\<close> falls through to the mount point.\<close>

definition hsfs_cmdline_proc ::
  "(nat \<Rightarrow> bool) \<Rightarrow> add_opt \<Rightarrow> string \<Rightarrow> int \<Rightarrow> cl_state \<Rightarrow> int + int \<times> cl_state" where
  "hsfs_cmdline_proc ok add arg key c =
     (let co = cl_opts c in
      if key = key_of CHR ''r'' then Inr (0, c\<lparr>cl_opts := co\<lparr>co_flags := co_flags co OR MS_RDONLY\<rparr>\<rparr>)
      else if key = key_of CHR ''v'' then Inr (0, c\<lparr>verbose := verbose c + 1\<rparr>)
      else if key = key_of CHR ''w'' then Inr (0, c\<lparr>cl_opts := co\<lparr>co_flags := co_flags co AND NOT MS_RDONLY\<rparr>\<rparr>)
      else if key = key_of CHR ''f'' then Inr (1, c\<lparr>cl_opts := co\<lparr>fg_opt := True\<rparr>\<rparr>)
      else if key = key_of CHR ''n'' then take_nonopt ok arg (c\<lparr>no_mtab := True\<rparr>)
      else if key = FUSE_OPT_KEY_NONOPT then take_nonopt ok arg c
      else let (r, u) = add (udata co) arg in Inr (if r = 0 then 1 else r, c\<lparr>cl_opts := co\<lparr>udata := u\<rparr>\<rparr>))"

record fuse_opts =
  show_help :: bool
  show_version :: bool
  mountpoint :: "string option"

text \<open>What libfuse's two parsers do; the first calls the function above.\<close>

record fuselib =
  opt_parse :: "(string \<Rightarrow> int \<Rightarrow> cl_state \<Rightarrow> int + int \<times> cl_state) \<Rightarrow> string list \<Rightarrow> cl_state \<Rightarrow>
                int + int \<times> string list \<times> cl_state"
  parse_cmdline :: "string list \<Rightarrow> int \<times> string list \<times> fuse_opts"
  opt_add :: add_opt

text \<open>\<open>exit_usage\<close> and \<open>print_version\<close> end the process.\<close>

definition exit_usage :: "int \<Rightarrow> int + 'a" where
  "exit_usage err = Inl (if err \<noteq> 0 then 1 else 0)"

definition print_version :: "int + 'a" where
  "print_version = Inl 0"

definition hsfs_parse_cmdline ::
  "(nat \<Rightarrow> bool) \<Rightarrow> fuselib \<Rightarrow> string list \<Rightarrow> cl_state \<Rightarrow> int + string list \<times> fuse_opts \<times> cl_state" where
  "hsfs_parse_cmdline ok F args c =
     (case opt_parse F (hsfs_cmdline_proc ok (opt_add F)) args c of
        Inl e \<Rightarrow> Inl e
      | Inr (ret, args, c) \<Rightarrow>
          if ret \<noteq> 0 then exit_usage ret
          else
            let (ret, args, fo) = parse_cmdline F args in
            if ret \<noteq> 0 then exit_usage ret
            else if show_help fo then exit_usage 0
            else if show_version fo then print_version
            else if spec (cl_opts c) = None then exit_usage 1
            else if mountpoint fo = None then exit_usage 1
            else Inr (args, fo, c))"

section \<open>\<open>main\<close>\<close>

text \<open>The session of libfuse: whether each step succeeds, and the loop, which runs the handlers on the super
  block and returns its error.\<close>

record 'e fuse_session =
  session_new :: bool
  signal_handlers :: bool
  session_mount :: bool
  session_loop :: "'e hsfs_st \<Rightarrow> (int \<times> 'e hsfs_st) option"

definition serve :: "'e fuse_session \<Rightarrow> 'e hsfs_st \<Rightarrow> (int \<times> 'e hsfs_st) option" where
  "serve S s =
     (if \<not> session_new S then Some (- 1, s)
      else if \<not> signal_handlers S then Some (- 1, s)
      else if \<not> session_mount S then Some (- 1, s)
      else session_loop S s)"

definition no_opts :: cl_state where
  "no_opts = \<lparr>cl_opts = \<lparr>co_flags = 0, fake = False, fg_opt = False, spec = None, udata = None\<rparr>, verbose = 0, no_mtab = False\<rparr>"

text \<open>The exit code and the state at the end; \<open>s\<close> is the cleared super block.\<close>

definition main ::
  "(nat \<Rightarrow> bool) \<Rightarrow> 'e world \<Rightarrow> 'e mountlib \<Rightarrow> fuselib \<Rightarrow> 'e fuse_session \<Rightarrow> string list \<Rightarrow> 'e hsfs_st \<Rightarrow>
   (int \<times> 'e hsfs_st) option" where
  "main ok W M F S argv s =
     (case hsfs_parse_cmdline ok F argv no_opts of
        Inl code \<Rightarrow> Some (code, s)
      | Inr (args, fo, c) \<Rightarrow>
          do { (err, s) \<leftarrow> hsfs_do_mount W M (cl_opts c) s;
               if err \<noteq> 0 then Some (1, s)
               else do {
                 (err, s) \<leftarrow> serve S s;
                 (_, s) \<leftarrow> hsfs_do_unmount W M (cl_opts c) s;
                 Some (if err \<noteq> 0 then 1 else 0, s) } })"

section \<open>Lemmas\<close>

definition unknown :: "(string \<Rightarrow> bool) \<Rightarrow> string \<Rightarrow> bool" where
  "unknown is_lib opt \<longleftrightarrow> \<not> is_lib opt \<and> opt \<notin> nfs_opt ` set opt_maps"

lemma parse_opt_unknown:
  "\<not> is_lib opt \<Longrightarrow> opt \<notin> nfs_opt ` set oms \<Longrightarrow>
   parse_opt add is_lib oms opt len st = map_option (\<lambda>e. st\<lparr>ps_extra := e\<rparr>) (add_extra opt len (ps_extra st))"
  by (induction oms) (auto simp: map_option_case split: option.splits)

lemma add_opt_args:
  "args \<noteq> Some [] \<Longrightarrow> \<exists>r args'. hsi_fuse_add_opt add args opt = Some (r, args') \<and> args' \<noteq> Some []"
  by (cases args) (auto simp: hsi_fuse_add_opt_def Let_def split: prod.splits)

lemma parse_opt_known:
  "is_lib opt \<and> oms \<noteq> [] \<or> opt \<in> nfs_opt ` set oms \<Longrightarrow> ps_args st \<noteq> Some [] \<Longrightarrow>
   \<exists>st'. parse_opt add is_lib oms opt len st = Some st' \<and> ps_extra st' = ps_extra st \<and> ps_args st' \<noteq> Some []"
proof (induction oms)
  case (Cons p oms)
  obtain r args' where a: "hsi_fuse_add_opt add (ps_args st) opt = Some (r, args')" "args' \<noteq> Some []"
    using add_opt_args [OF Cons.prems(2)] by blast
  show ?case
  proof (cases "opt = nfs_opt p")
    case True
    show ?thesis
    proof (cases "fuse_opt p")
      case None
      then show ?thesis using True Cons.prems(2) by simp
    next
      case (Some f)
      obtain r args' where "hsi_fuse_add_opt add (ps_args st) f = Some (r, args')" "args' \<noteq> Some []"
        using add_opt_args [OF Cons.prems(2)] by blast
      then show ?thesis using True Some by simp
    qed
  next
    case False
    then show ?thesis using Cons a by auto
  qed
qed simp

lemma of_nat_below: "k < unat len \<Longrightarrow> of_nat k \<noteq> (len :: u64)"
proof
  assume "k < unat len" "of_nat k = len"
  moreover have "unat (of_nat k :: u64) \<le> k" by (simp add: unsigned_of_nat)
  ultimately show False by simp
qed

lemma add_extra_first:
  "length opt < unat len \<Longrightarrow> add_extra opt len [] = Some opt"
  using of_nat_below [of "length opt" len] by (auto simp: add_extra_def Let_def word_gt_0)

lemma add_extra_next:
  assumes "e \<noteq> []" "length e + 1 + length opt < unat len"
  shows "add_extra opt len e = Some (e @ CHR '','' # opt)"
proof -
  have d: "len - of_nat k \<noteq> 0" if "k < unat len" for k
    using of_nat_below [OF that] by auto
  have eq: "len - of_nat (length e) - 1 = len - of_nat (length e + 1)"
    "len - of_nat (length e) - 1 - of_nat (length opt) = len - of_nat (length e + 1 + length opt)"
    by (simp_all add: algebra_simps)
  have "len - of_nat (length e) - 1 \<noteq> 0" unfolding eq(1) by (rule d) (use assms(2) in simp)
  moreover have "len - of_nat (length e) - 1 - of_nat (length opt) \<noteq> 0" unfolding eq(2) by (rule d) (use assms(2) in simp)
  ultimately show ?thesis using assms by (simp add: add_extra_def Let_def word_gt_0)
qed

lemma join_snoc: "join_opts (ys @ [x]) = (if ys = [] then x else join_opts ys @ CHR '','' # x)"
  by (induction ys rule: join_opts.induct) simp_all

lemma join_nonempty: "(\<And>y. y \<in> set ys \<Longrightarrow> y \<noteq> []) \<Longrightarrow> join_opts ys = [] \<longleftrightarrow> ys = []"
  by (induction ys rule: join_opts.induct) auto

lemma length_join: "length (join_opts xs) = sum_list (map length xs) + (length xs - 1)"
  by (induction xs rule: join_opts.induct) simp_all

lemma join_shorter: "length (join_opts (ys @ zs)) \<le> length (join_opts (ys @ x # zs))"
  by (simp add: length_join)

lemma join_prefix: "length (join_opts ys) \<le> length (join_opts (ys @ zs))"
  by (simp add: length_join)

lemma parse_opts_collects:
  "(\<And>x. x \<in> set (ys @ xs) \<Longrightarrow> x \<noteq> []) \<Longrightarrow> ps_extra st = join_opts ys \<Longrightarrow> ps_args st \<noteq> Some [] \<Longrightarrow>
   length (join_opts (ys @ xs)) < unat len \<Longrightarrow>
   \<exists>st'. parse_opts add is_lib xs len st = Some st' \<and> ps_extra st' = join_opts (ys @ filter (unknown is_lib) xs)"
proof (induction xs arbitrary: ys st)
  case (Cons x xs)
  show ?case
  proof (cases "unknown is_lib x")
    case True
    have l: "length (join_opts (ys @ [x])) < unat len"
      using Cons.prems(4) join_prefix [of "ys @ [x]" xs] by simp
    have "add_extra x len (join_opts ys) = Some (join_opts (ys @ [x]))"
    proof (cases "ys = []")
      case True
      then show ?thesis using l add_extra_first by simp
    next
      case False
      then have "join_opts ys \<noteq> []" using join_nonempty [of ys] Cons.prems(1) by auto
      then show ?thesis using False l add_extra_next [of "join_opts ys" x len] by (simp add: join_snoc)
    qed
    then have "hsi_parse_opt add is_lib x len st = Some (st\<lparr>ps_extra := join_opts (ys @ [x])\<rparr>)"
      using True Cons.prems(2) by (simp add: hsi_parse_opt_def parse_opt_unknown unknown_def)
    then show ?thesis
      using Cons.IH [of "ys @ [x]" "st\<lparr>ps_extra := join_opts (ys @ [x])\<rparr>"] Cons.prems True by simp
  next
    case False
    then have "is_lib x \<and> opt_maps \<noteq> [] \<or> x \<in> nfs_opt ` set opt_maps" by (auto simp: unknown_def opt_maps_def)
    then obtain st' where st': "hsi_parse_opt add is_lib x len st = Some st'" "ps_extra st' = ps_extra st" "ps_args st' \<noteq> Some []"
      using parse_opt_known [of is_lib x opt_maps st add len] Cons.prems(3) unfolding hsi_parse_opt_def by blast
    have "length (join_opts (ys @ xs)) < unat len" using Cons.prems(4) join_shorter [of ys xs x] by simp
    then show ?thesis using Cons.IH [of ys st'] Cons.prems st' False by simp
  qed
qed simp

lemma fix_opts_skip: "fix_opts ok oms 0 new = Inr new"
  by (induction oms) auto

section \<open>Properties\<close>

text \<open>C25. Reading a string of mount options never overruns the buffer for the options that are passed on, in
  spite of the unsigned arithmetic on its length: the options that neither the table nor libfuse knows are
  all collected, in order and joined by commas.\<close>

theorem hsi_parse_opts_collects:
  assumes "\<forall>n. ok n" "args \<noteq> Some []" "length (join_opts xs) + 1 < 2 ^ 64"
    and "\<forall>x \<in> set xs. x \<noteq> [] \<and> QUOTE \<notin> set x \<and> CHR '','' \<notin> set x"
  shows "\<exists>fl' args'. hsi_parse_opts ok add is_lib (Some (join_opts xs)) fl args =
    Some (Inr (fl', args', Some (join_opts (filter (unknown is_lib) xs))))"
proof -
  have "split_opts False None (join_opts xs) = xs" using split_join [of xs] assms(4) by blast
  moreover have "unat (of_nat (length (join_opts xs) + 1) :: u64) = length (join_opts xs) + 1"
    using assms(3) by (simp add: unsigned_of_nat take_bit_nat_eq_self del: of_nat_Suc of_nat_add)
  ultimately show ?thesis
    using parse_opts_collects [of "[]" xs "\<lparr>ps_flags = fl, ps_args = args, ps_extra = []\<rparr>"
        "of_nat (length (join_opts xs) + 1)" add is_lib] assms(1,2,4)
    by (auto simp: hsi_parse_opts_def xstrdup_def xmalloc_def die_if_null_def simp del: of_nat_Suc of_nat_add)
qed

theorem hsi_parse_opts_collects_witness:
  "\<exists>fl' args'. hsi_parse_opts (\<lambda>_. True) (\<lambda>s o1. (0, s)) (\<lambda>_. False)
     (Some (join_opts [''ro'', ''rsize=1024'', ''tcp''])) 0 (Some [''hsfs'']) =
     Some (Inr (fl', args', Some (join_opts (filter (unknown (\<lambda>_. False)) [''ro'', ''rsize=1024'', ''tcp'']))))"
  by (rule hsi_parse_opts_collects) simp_all

text \<open>Every option that libfuse itself knows, apart from "defaults", goes to libfuse before the table is
  searched beyond its first line: the flags of the mount, for instance the one for "ro", stay unset.\<close>

lemma hsi_parse_opt_lib_keeps_flags:
  assumes "is_lib opt" "opt \<noteq> ''defaults''" "hsi_parse_opt add is_lib opt len st = Some st'"
  shows "ps_flags st' = ps_flags st \<and> ps_extra st' = ps_extra st"
  using assms by (auto simp: hsi_parse_opt_def opt_maps_def om_def bind_eq_Some_conv)

lemma hsi_parse_opt_lib_keeps_flags_witness:
  "\<exists>st'. hsi_parse_opt (\<lambda>s o1. (0, s)) (\<lambda>x. x = ''ro'') ''ro'' 10 \<lparr>ps_flags = 0, ps_args = Some [''hsfs''], ps_extra = []\<rparr> = Some st' \<and>
     ps_flags st' = 0"
proof -
  let ?st = "\<lparr>ps_flags = 0, ps_args = Some [''hsfs''], ps_extra = []\<rparr>"
  have "is_lib ''ro'' \<Longrightarrow> \<exists>st'. hsi_parse_opt (\<lambda>s o1. (0, s)) is_lib ''ro'' 10 ?st = Some st'" for is_lib
    by (simp add: hsi_parse_opt_def opt_maps_def om_def hsi_fuse_add_opt_def)
  from this [of "\<lambda>x. x = ''ro''"] obtain st' where "hsi_parse_opt (\<lambda>s o1. (0, s)) (\<lambda>x. x = ''ro'') ''ro'' 10 ?st = Some st'" by auto
  then show ?thesis
    using hsi_parse_opt_lib_keeps_flags [of "\<lambda>x. x = ''ro''" "''ro''" "\<lambda>s o1. (0, s)" 10 ?st st'] by simp
qed

text \<open>C19. Adding a mount to the mount table appends one line: the file that is read afterwards holds the old
  entries in order and then the new one, with the option string that starts with "rw" or "ro", and the lock is released.\<close>

theorem hsi_add_mtab_appends:
  assumes "io_rdwr io" "io_print io" "fst (lock_mtab (io_target io) (io_lock io) (lk fs)) = Inr ()"
    and "mtab_file fs = Some (written es)" "fl AND MS_REMOUNT = 0" "hsi_fix_opts_string ok user fl opts = Inr o1"
    and "m = \<lparr>mnt_fsname = sp, mnt_dir = mp, mnt_type = fstype, mnt_opts = o1, mnt_freq = 0, mnt_passno = 0\<rparr>"
    and "\<forall>x \<in> set (es @ [m]). mntent_ok x"
  shows "\<exists>fs' t. hsi_add_mtab io ok user False sp mp fstype fl opts fs = Some (Inr 0, fs') \<and>
    mtab_file fs' = Some t \<and> entries_of (open_mntent t) = es @ [m] \<and> \<not> we_created_lockfile (lk fs')"
proof -
  obtain l where l: "lock_mtab (io_target io) (io_lock io) (lk fs) = (Inr (), l)"
    using assms(3) by (metis prod.collapse)
  have "entries_of (open_mntent (written (es @ [m]))) = es @ [m]" by (rule entries_written [OF assms(8)])
  then show ?thesis
    using assms l
    by (auto simp: hsi_add_mtab_def nfs_addmntent_def unlocked_def unlock_mtab_def written_concat Let_def)
qed

lemma fix_opts_plain: "hsi_fix_opts_string (\<lambda>_. True) None 0 None = Inr ''rw''"
  by (simp add: hsi_fix_opts_string_def xstrdup_def die_if_null_def or_empty_def fix_opts_skip)

theorem hsi_add_mtab_appends_witness:
  "\<exists>fs' t. hsi_add_mtab quick_io (\<lambda>_. True) None False ''srv:/e'' ''/m'' ''nfs'' 0 None (some_fs [some_ment ''/a'' ''rw'']) =
       Some (Inr 0, fs') \<and> mtab_file fs' = Some t \<and>
     entries_of (open_mntent t) = [some_ment ''/a'' ''rw'', some_ment ''/m'' ''rw''] \<and> \<not> we_created_lockfile (lk fs')"
proof -
  have "\<forall>x \<in> set ([some_ment ''/a'' ''rw''] @ [some_ment ''/m'' ''rw'']). mntent_ok x"
    by (simp add: some_ment_ok some_mangled)
  from hsi_add_mtab_appends [OF _ _ quick_io_ok(4,3) _ fix_opts_plain some_ment_def this] show ?thesis
    by (simp add: quick_io_def)
qed

end
