(* ===== verification/Sample.thy ===== *)
theory Sample
  imports File_Io Main_Opts
begin

text \<open>
  A small server and a mounted file system: the inputs at which the properties of the handlers are
  evaluated.  The server has a root directory with the handle \<open>[1]\<close> and one regular file "a" with the
  handle \<open>[2]\<close>, whose content is the environment.
\<close>

section \<open>The server\<close>

definition sample_attr :: "nfs_fh3 \<Rightarrow> fattr3" where
  "sample_attr f = (if f = [1] then some_fattr3 NF3DIR 100 else some_fattr3 NF3REG 200)"

abbreviation good :: "'a \<Rightarrow> 'e \<Rightarrow> (int + 'a res3) \<times> 'e" where
  "good x e \<equiv> (Inr \<lparr>status = 0, resok = x\<rparr>, e)"

definition sample_dirop :: diropres3ok where
  "sample_dirop = \<lparr>d3_obj = Some [2], d3_attributes = Some (sample_attr [2])\<rparr>"

definition sample_entries :: "entryplus3 list" where
  "sample_entries = [\<lparr>e3_fileid = 200, e3_name = ''a'', e3_cookie = 1, e3_attributes = Some (sample_attr [2]), e3_handle = Some [2]\<rparr>]"

definition sample_acl :: secattr where
  "sample_acl = \<lparr>sec_mask = 15, sec_aclcnt = 1, sec_aclent = [\<lparr>ae_type = 1, ae_id = 0, ae_perm = 7\<rparr>],
     sec_dfaclcnt = 1, sec_dfaclent = [\<lparr>ae_type = 0x1001, ae_id = 0, ae_perm = 5\<rparr>]\<rparr>"

definition sample_fsinfo :: fsinfo3resok where
  "sample_fsinfo = \<lparr>fi_attributes = Some (sample_attr [1]), fi_rtmax = 65536, fi_rtpref = 65536, fi_rtmult = 512, fi_wtmax = 65536,
     fi_wtpref = 65536, fi_wtmult = 512, fi_dtpref = 4096, fi_maxfilesize = 0x7fffffffffffffff,
     fi_time_delta = \<lparr>seconds = 0, nseconds = 1\<rparr>, fi_properties = 27\<rparr>"

definition sample_lib :: "'e rpclib" where
  "sample_lib = \<lparr>clntudp_bufcreate = (\<lambda>a m n e. (2, e)), clnttcp_create = (\<lambda>a m n e. (3, e)),
     authunix_create_default = (\<lambda>e. (True, e)), nullproc = (\<lambda>c e. (0, e))\<rparr>"

definition sample_world :: "u8 list world" where
  "sample_world =
   \<lparr>rpc = sample_lib, bad_inode = 0x601000, imalloc = first_free, mem_ok = (\<lambda>n e. True), page_size = 4096,
    dirent_size = (\<lambda>name. 24 + length name), direntplus_size = (\<lambda>name. 152 + length name),
    nfs_getattr = (\<lambda>c f. good (sample_attr f)),
    nfs_setattr = (\<lambda>c (f, a). good (Some (sample_attr f))),
    nfs_lookup = (\<lambda>c (f, name) e. if name = ''a'' then good \<lparr>l3_object = [2], l3_attributes = Some (sample_attr [2])\<rparr> e
                  else (Inr \<lparr>status = 2, resok = \<lparr>l3_object = [], l3_attributes = None\<rparr>\<rparr>, e)),
    nfs_access = (\<lambda>c (f, m). good m),
    nfs_readlink = (\<lambda>c f. good ''a''),
    nfs_read = (\<lambda>c a e. good (resok (read_reply e (unat (ra_offset a)) (min (unat (ra_count a)) (length e - unat (ra_offset a))))) e),
    nfs_write = (\<lambda>c a e. good (wa_count a) (store (unat (wa_offset a)) (wa_data a) e)),
    nfs_create = (\<lambda>c a. good sample_dirop), nfs_mkdir = (\<lambda>c a. good sample_dirop),
    nfs_symlink = (\<lambda>c a. good sample_dirop), nfs_mknod = (\<lambda>c a. good sample_dirop),
    nfs_remove = (\<lambda>c a. good ()), nfs_rmdir = (\<lambda>c a. good ()), nfs_rename = (\<lambda>c a. good ()),
    nfs_link = (\<lambda>c (f, d, name). good (Some (sample_attr f))),
    nfs_readdir = (\<lambda>c a. good \<lparr>dl_attributes = None, dl_cookieverf = 0, dl_entries = map entry3.truncate sample_entries\<rparr>),
    nfs_readdirplus = (\<lambda>c a. good \<lparr>dl_attributes = None, dl_cookieverf = 0, dl_entries = sample_entries\<rparr>),
    nfs_fsstat = (\<lambda>c f. good \<lparr>fs_tbytes = 1000000, fs_fbytes = 5000, fs_abytes = 4000, fs_tfiles = 10, fs_ffiles = 5, fs_afiles = 5\<rparr>),
    nfs_fsinfo = (\<lambda>c f. good sample_fsinfo),
    nfs_pathconf = (\<lambda>c f. good 255),
    acl_getacl = (\<lambda>c a. good sample_acl),
    acl_setacl = (\<lambda>c a. good ())\<rparr>"

lemma sample_world_ok: "world_ok sample_world"
  by (simp add: world_ok_def sample_world_def first_free_fresh)

lemma sample_reads: "reads_file sample_world f (\<lambda>e. e)"
  unfolding reads_file_def
proof (intro allI impI)
  fix c off and cnt :: u32 and e :: "u8 list"
  assume "cnt \<noteq> 0"
  then have "0 < unat cnt" by (simp add: unat_gt_0)
  then show "\<exists>n e'. nfs_read sample_world c \<lparr>ra_file = f, ra_offset = off, ra_count = cnt\<rparr> e =
      (Inr (read_reply e (unat off) n), e') \<and> e' = e \<and> n \<le> unat cnt \<and> n \<le> length e - unat off \<and>
      (unat off < length e \<longrightarrow> 0 < n)"
    by (intro exI [of _ "min (unat cnt) (length e - unat off)"] exI [of _ e]) (simp add: sample_world_def read_reply_def)
qed

lemma sample_writes: "writes_file sample_world f (\<lambda>e. e)"
  unfolding writes_file_def
proof (intro allI impI)
  fix c off how and cnt :: u32 and d e :: "u8 list"
  assume *: "cnt \<noteq> 0" "length d = unat cnt"
  then have "0 < unat cnt" by (simp add: unat_gt_0)
  then show "\<exists>n e'. nfs_write sample_world c \<lparr>wa_file = f, wa_offset = off, wa_count = cnt, wa_stable = how, wa_data = d\<rparr> e =
      (Inr \<lparr>status = 0, resok = of_nat n\<rparr>, e') \<and> 0 < n \<and> n \<le> unat cnt \<and> e' = store (unat off) (take n d) e"
    using * by (intro exI [of _ "unat cnt"] exI [of _ "store (unat off) d e"]) (simp add: sample_world_def)
qed

section \<open>The mounted file system\<close>

definition sample_fh :: "u8 \<Rightarrow> nfs_fh" where
  "sample_fh b = \<lparr>fh_size = 1, fh_data = b # replicate 127 0\<rparr>"

definition root_st :: "'e \<Rightarrow> 'e hsfs_st" where
  "root_st e = with_inode (sample_fh 1) (some_fattr 100 S_IFDIR) 0x10000 1 (fresh_st e)"

definition sample_st :: "'e \<Rightarrow> 'e hsfs_st" where
  "sample_st e = (with_inode (sample_fh 2) (some_fattr 200 S_IFREG) 0x10200 2 (root_st e))\<lparr>acl_clntp := 2, root := 0x10000\<rparr>"

abbreviation root_inode :: nfs_inode where
  "root_inode \<equiv> new_inode (fresh_st ()) (sample_fh 1) (some_fattr 100 S_IFDIR) 1"

abbreviation file_inode :: nfs_inode where
  "file_inode \<equiv> new_inode (fresh_st ()) (sample_fh 2) (some_fattr 200 S_IFREG) 2"

lemma sample_fh_ok [simp]: "fh_ok (sample_fh b)" "fh_bytes (sample_fh b) = [b]"
  by (simp_all add: sample_fh_def fh_ok_def fh_bytes_def)

lemma new_inode_st: "new_inode (fresh_st e) f fattr c = new_inode (fresh_st ()) f fattr c"
  "new_inode (root_st e) f fattr c = new_inode (fresh_st ()) f fattr c"
  by (simp_all add: new_inode_def inode_init_always_def fresh_st_def root_st_def with_inode_def hsfs_super.defs)

lemma root_st_heap: "heap (root_st e) = [0x10000 \<mapsto> root_inode]"
  by (simp add: root_st_def with_inode_def new_inode_st(1) [of e])

lemma sample_st_heap: "heap (sample_st e) = [0x10000 \<mapsto> root_inode, 0x10200 \<mapsto> file_inode]"
  by (simp add: sample_st_def with_inode_def root_st_heap new_inode_st(2) [of e])

lemma root_st_ok: "nfs_cache_ok (root_st e)"
  unfolding root_st_def by (rule with_first_inode) (simp_all add: fresh_st_cache_ok)

lemma root_st_id: "curr_id (root_st e) = 1"
  by (simp add: root_st_def with_inode_def)

lemma sample_inodes:
  "fileid root_inode = 100" "ino root_inode = 1" "fileid file_inode = 200" "ino file_inode = 2"
  "hsi_nfs3_getfh3 root_inode = [1]" "hsi_nfs3_getfh3 file_inode = [2]"
  by (simp_all add: new_inode_fields hsi_nfs3_getfh3_def) (simp_all add: some_fattr_def)

lemma sample_st_ok: "nfs_cache_ok (sample_st e)"
proof -
  have "free_round (root_st e) 1"
    using sample_inodes(2) by (auto simp: free_round_def root_st_heap root_st_id next_id_def split: if_splits)
  moreover have "\<nexists>p. caches (root_st e) (sample_fh 2) (some_fattr 200 S_IFREG) p"
    using sample_inodes(1) by (auto simp: caches_def root_st_heap some_fattr_def split: if_splits)
  ultimately have "nfs_cache_ok (with_inode (sample_fh 2) (some_fattr 200 S_IFREG) 0x10200 2 (root_st e))"
    using nfs_cache_ok_with_inode [OF root_st_ok, of "sample_fh 2" e "some_fattr 200 S_IFREG" "0x10200" 1]
    by (simp add: root_st_heap root_st_id next_id_def)
  then show ?thesis by (simp add: sample_st_def nfs_cache_ok_def icache_ok_def)
qed

lemma sample_lookup: "hsfs_ilookup (sample_st e) 1 = Some 0x10000" "hsfs_ilookup (sample_st e) 2 = Some 0x10200"
  using ilookup_iff [OF nfs_cache_ok_D(1) [OF sample_st_ok [of e]]] sample_inodes by (simp_all add: sample_st_heap)

lemma sample_st_sel [simp]:
  "clntp (sample_st e) = 1" "acl_clntp (sample_st e) = 2" "closed (sample_st e) = []" "env (sample_st e) = e"
  "rsize (sample_st e) = 4096" "wsize (sample_st e) = 4096" "root (sample_st e) = 0x10000"
  by (simp_all add: sample_st_def root_st_def with_inode_def)

lemma sample_st_live [simp]: "clnt_live (sample_st e) 1" "clnt_live (sample_st e) 2"
  by (simp_all add: clnt_live_def)

end
