(* ===== verification/Spec2Isabelle.thy ===== *)
theory Spec2Isabelle
  imports Nfs4_Once Sample
begin

text \<open>
  A verification library for nfs-fuse (hsfs), an NFSv3 client that runs as a FUSE file system.

  \<^bold>\<open>The program.\<close> \<open>main\<close> (fuse/hsfs_main.c) reads the command line and the mount options, mounts the export
  (nfs3/hsi_nfs3_mount.c) and hands a table of handlers (fuse/hsx_fuse_*.c) to libfuse.  A handler finds the
  inode of a request in the inode cache (lib/hsfs_inode.c), calls the remote operation for it
  (nfs3/hsi_nfs3_*.c), brings the cache up to date with the attributes of the reply
  (nfs_common/hsi_nfs_inode.c), and answers the kernel.  The cache consists of two hash tables
  (include/hsfs/hashtable.h, list.h, hash.h).  Errors of the cache travel as pointers (include/hsfs/err.h).
  The mount program also keeps the mount table (nfs3/fstab.c, nfs3/nfs_mntent.c).  Beside this the repository has
  an asynchronous NFSv4 client (lib/nfs_v4.c, nfs4/nfs4.c and parts of lib/libnfs.c), which the mount program does not call: an
  operation makes a request, sends a compound of operations for the path it looks up, and each reply goes to a callback that sends the
  next compound or calls the application back.

  \<^bold>\<open>Conventions.\<close> Integers have the width they have in C, except error numbers and sizes of buffers, which are
  \<open>int\<close> and \<open>nat\<close>.  A pointer to an inode is a 64-bit address into \<open>heap\<close>, a field that the model adds to
  the super block; other pointers are addresses where the code compares them and values elsewhere.
  A function that may fault (null or freed pointer, overrun buffer, failed assertion, undefined shift)
  returns an option, with \<open>None\<close> for the fault.  A loop that may not end is a partial function on options, so
  that \<open>None\<close> also stands for not returning; theorems that claim a result have it as \<open>Some\<close>.  No fuel is used anywhere.
  The server, libtirpc, libfuse, the resolver, the clock, the allocator and the file system of
  the host are parameters: the records \<open>world\<close>, \<open>rpclib\<close>, \<open>mountlib\<close>, \<open>fuselib\<close>, \<open>fuse_session\<close>, \<open>mtab_io\<close>.  They act on an
  environment of arbitrary type.  What is assumed of them is a hypothesis of the theorem that needs it, and
  theory \<open>Sample\<close> has a small server for which all these hypotheses hold.

  \<^bold>\<open>Theories.\<close>
  \<^item> \<open>Prelude\<close>: types, error numbers, and \<open>pres\<close>, the rules for walking through a computation.
  \<^item> \<open>Bitops\<close>, \<open>Hlist\<close>, \<open>Hashtable\<close>, \<open>Errptr\<close>: include/hsfs.  The pointer-level hash table refines the
    table of lists that the cache is stated over; error pointers are not recognised by \<open>IS_ERR\<close>.
  \<^item> \<open>Hsfs\<close>, \<open>Icache\<close>, \<open>Nfs_Inode\<close>: the records of include/hsfs.h, the inode cache, and the NFS layer on
    it.  The invariant \<open>nfs_cache_ok\<close> (unique numbers, unique file identifier and handle, both tables in step with the
    heap) is preserved by every operation; \<open>hsi_nfs_fhget\<close> is "get or create".
  \<^item> \<open>Nfs3_Attr\<close>, \<open>Blocks\<close>, \<open>Rpc\<close>, \<open>Nfs3_Proc\<close>, \<open>Nfs3_Readdir\<close>, \<open>Acl\<close>: attributes, block sizes,
    the call with reconnection, the remote operations, access control lists.
  \<^item> \<open>Nfs3_Inv\<close>: every remote operation keeps the cache, numbers, handles and lookup counts (locale \<open>file_op\<close>,
    interpreted on each of them).
  \<^item> \<open>Fuse_Ops\<close>, \<open>Fuse_Io\<close>, \<open>Requests\<close>, \<open>File_Io\<close>: the handlers, the table of handlers, sessions as a
    step relation, and the ledger of lookup counts; reading and writing against a server that answers as RFC 1813 says.
  \<^item> \<open>Options\<close>, \<open>Parse_Dev\<close>, \<open>Mount\<close>: option strings, device names, mounting.
  \<^item> \<open>Mntent\<close>, \<open>Mtab\<close>, \<open>Xcommon\<close>, \<open>Main_Opts\<close>: the mount table and the mount program.
  \<^item> \<open>Nfs_Path\<close>, \<open>Nfs4_Attr\<close>, \<open>Nfs4_Op\<close>: the NFSv4 client below its requests: \<open>nfs_normalize_path\<close> is a walk over the
    components; the attributes of a reply are read back as they were encoded, but not every length is checked; the operations of a compound.
  \<^item> \<open>Nfs4_Req\<close>, \<open>Nfs4_Cb\<close>, \<open>Nfs4_Async\<close>: the request \<open>nfs4_cb_data\<close> with the context, the open files, the callbacks made and
    the compounds sent as the record \<open>n4st\<close>; one definition per callback and per operation of lib/nfs_v4.c.  A freed request is \<open>None\<close>, so that
    using or freeing it again is a fault.
  \<^item> \<open>Nfs4_Once\<close>: what becomes of a request.
  \<^item> \<open>Sample\<close>: a server and a mounted file system at which the theorems are evaluated.

  This theory holds the properties that span components: lookup end to end, sessions, replies, data, directories,
  access control lists, mounting.

  \<^bold>\<open>Sequential model.\<close> Requests are served one after the other.  The program may run libfuse's loop with several
  threads and takes no locks; interleavings inside a handler are not modelled.  The NFSv4 client is modelled without its
  conditional multithreading and with one request at a time.

  \<^bold>\<open>Not modelled.\<close> Logging (lib/hsfs_log.c), which only prints.  In lib/libnfs.c, the URL parser and the functions that dispatch
  to one of the two protocol versions, of which version 3 is not in the sources; lib/libnfs-sync.c, which runs the
  asynchronous operations in the poll loop of an RPC layer that is not in the sources; nfs4/libnfs-raw-nfs4.c and nfs/, which are generated
  (the RPC layer encodes or refuses a compound, field \<open>w_encode\<close> of \<open>n4world\<close>).  The XDR encoders that rpcgen
  derives from nfs3/*.x: the procedures of \<open>world\<close> take and return decoded values.  The parts of
  nfs_common/hsi_nfs_inode.c that the preprocessor disables.  In include/hsfs, the doubly linked \<open>list_head\<close>
  and the rotations and masks of bitops.h, which nothing uses.  In nfs3/fstab.c, the lazily read copies of /proc/mounts and /etc/fstab,
  which nothing uses.  Freeing memory, except of inodes and of chains that are used afterwards.
\<close>

section \<open>Looking up a name\<close>

definition small_blocks :: "'z hsfs_super_scheme \<Rightarrow> bool" where
  "small_blocks s \<longleftrightarrow> unat (bsize_bits s) < 31 \<and> (\<forall>p i. heap s p = Some i \<longrightarrow> unat (i_blkbits i) < 31)"

lemma new_inode_blkbits: "i_blkbits (new_inode s f fattr c) = ucast (bsize_bits s)"
  by (simp add: new_inode_def fill_new_def set_nfs_fileid_def hsfs_unlock_new_inode_def inode_init_always_def Let_def)

lemma unat_blkbits: "unat (ucast (b :: u8) :: u32) = unat b"
  using unsigned_less [of b, where 'a = nat] by (simp add: unsigned_ucast_eq take_bit_nat_eq_self)

text \<open>What getting an inode leaves alone besides the other inodes.\<close>

lemma fhget_shape:
  assumes "world_ok W" "nfs_cache_ok s" "fh_ok f" "usable fattr" "imalloc W s \<noteq> 0" "small_blocks s"
  shows "\<exists>p s' i. fhget W f fattr s = Some (p, s') \<and> got s f fattr p s' \<and> small_blocks s' \<and> p \<noteq> 0 \<and>
    heap s' p = Some i \<and> i_private i = refs s p \<and> clntp s' = clntp s \<and> closed s' = closed s \<and> env s' = env s"
proof -
  have W: "user_object (bad_inode W)" "fresh_malloc (imalloc W)" using assms(1) by (simp_all add: world_ok_def)
  obtain p s' where p: "fhget W f fattr s = Some (p, s')" "got s f fattr p s'"
    using hsi_nfs_fhget_got [where malloc = "imalloc W", OF W(1) assms(2-4) W(2) assms(5)] by blast
  obtain i where i: "heap s' p = Some i" using p(2) by (auto simp: got_def caches_def)
  have "p \<noteq> 0" using i p(2) icache_ok_D(2) [OF nfs_cache_ok_D(1), of s'] by (auto simp: got_def)
  moreover have "i_private i = refs s p"
  proof -
    have "refs s' = refs s" using quiet_fhget [OF assms(1-3) p(1)] by (simp add: quiet_def)
    moreover have "refs s' p = i_private i" using i by (simp add: refs_def)
    ultimately show ?thesis by simp
  qed
  moreover have "small_blocks s' \<and> clntp s' = clntp s \<and> closed s' = closed s \<and> env s' = env s"
  proof (cases "\<exists>q. caches s f fattr q")
    case True
    then obtain q j where q: "caches s f fattr q" "heap s q = Some j" by (auto simp: caches_def)
    have "s' = s\<lparr>heap := (heap s)(q \<mapsto> snd (refresh fattr j))\<rparr>"
      using hsi_nfs_fhget_hit [OF W(1) assms(2-4) q, of "hsi_nfs_sop (imalloc W)"] p(1) by simp
    then show ?thesis using assms(6) q(2) 
      by (auto simp: small_blocks_def refresh_frame(8) [OF prod.collapse [symmetric]])
  next
    case False
    obtain k where k: "free_round s k" using free_round_exists [OF nfs_cache_ok_D(1) [OF assms(2)]] by blast
    have "heap s (imalloc W s) = None" using W(2) assms(5) by (simp add: fresh_malloc_def)
    then have "s' = with_inode f fattr (imalloc W s) ((next_id ^^ k) (curr_id s)) s"
      using hsi_nfs_fhget_miss [where malloc = "imalloc W", OF W(1) assms(2-4) False assms(5) _ k] p(1) by simp
    then show ?thesis using assms(6) by (auto simp: small_blocks_def with_inode_def new_inode_blkbits unat_blkbits)
  qed
  ultimately show ?thesis using p i by blast
qed

lemma lookup_serves:
  assumes "world_ok W" "nfs_cache_ok s" "small_blocks s" "hsfs_ilookup s n = Some d" "d \<noteq> 0" "heap s d = Some di"
    and "clnt_live s (clntp s)" "length h \<le> 64" "f3_nlink a \<noteq> 0" "imalloc W (s\<lparr>env := e\<rparr>) \<noteq> 0"
    and "nfs_lookup W (clntp s) (hsi_nfs3_getfh3 di, name) (env s) =
           (Inr \<lparr>status = 0, resok = \<lparr>l3_object = h, l3_attributes = Some a\<rparr>\<rparr>, e)"
  shows "\<exists>f x p i s'. fh_bytes f = h \<and> got (s\<lparr>env := e\<rparr>) f (post_fattr (Some a)) p s' \<and> heap s' p = Some i \<and> i_private i = refs s p \<and>
    e_ino x = ino i \<and> fa_fileid (post_fattr (Some a)) = f3_fileid a \<and>
    hsx_fuse_lookup W n name s = Some ([ReplyEntry x], s'\<lparr>heap := (heap s')(p \<mapsto> i\<lparr>i_private := i_private i + 1\<rparr>)\<rparr>)"
proof -
  let ?s = "s\<lparr>env := e\<rparr>" and ?fattr = "post_fattr (Some a)"
  obtain f where f: "nfs_copy_fh3 zero_fh (length h) h = Some f" "fh_ok f" "fh_bytes f = h"
    using nfs_copy_fh3_ok [OF fh_ok_zero_fh refl, of h] assms(8) by auto
  have u: "usable ?fattr" "fa_fileid ?fattr = f3_fileid a"
    using assms(9)
    by (simp_all add: usable_def post_fattr_def hsi_nfs3_post2fattr_def hsi_nfs3_fattr2fattr_def Let_def NFS_ATTR_FATTR_V3_def
        NFS_ATTR_FATTR_def nfs_init_fattr_def stack_fattr_def)
  have ok: "nfs_cache_ok ?s" "small_blocks ?s" using assms(2,3) by (simp_all add: nfs_cache_ok_def icache_ok_def small_blocks_def)
  obtain p s' i where g: "fhget W f ?fattr ?s = Some (p, s')" "got ?s f ?fattr p s'" "small_blocks s'" "p \<noteq> 0"
      "heap s' p = Some i" "i_private i = refs ?s p" "clntp s' = clntp s" "closed s' = closed s"
    using fhget_shape [OF assms(1) ok(1) f(2) u(1) assms(10) ok(2)] by auto
  have l: "hsi_nfs3_lookup W d name s = Some ((0, Some p), s')"
    using clnt_call_first [where proc = "nfs_lookup W", OF assms(7,11), of "rpc W"] assms(6,7) f(1) g(1,7,8)
    by (simp add: hsi_nfs3_lookup_def clnt_freeres_def clnt_live_def)
  let ?t = "s'\<lparr>heap := (heap s')(p \<mapsto> i\<lparr>i_private := i_private i + 1\<rparr>)\<rparr>"
  have "unat (i_blkbits i) < 31" using g(3,5) by (auto simp: small_blocks_def)
  then obtain x where x: "hsx_fuse_fill_reply p ?t = Some x" "e_ino x = ino i"
    by (simp add: hsx_fuse_fill_reply_def hsfs_generic_fillattr_def)
  have "hsx_fuse_lookup W n name s = Some ([ReplyEntry x], ?t)"
    using assms(4,5) l g(4,5) x(1) by (simp add: hsx_fuse_lookup_def hsx_fuse_ref_inc_def upd_inode_def)
  moreover have "refs ?s p = refs s p" by (simp add: refs_def)
  ultimately show ?thesis using f(3) u(2) g(2,5,6) x(2)
    by (intro exI [of _ f] exI [of _ x] exI [of _ p] exI [of _ i] exI [of _ s']) simp
qed

text \<open>C6. Looking up a name that the server knows gives the kernel an entry: its inode number belongs to a cached
  inode with exactly the file identifier and the handle that the server reported, the count of references to
  that inode goes up by one, it keeps its number if it was cached before, and the cache stays consistent.\<close>

theorem hsx_fuse_lookup_correct:
  assumes "world_ok W" "nfs_cache_ok s" "small_blocks s" "hsfs_ilookup s n = Some d" "d \<noteq> 0" "heap s d = Some di"
    and "clnt_live s (clntp s)" "length h \<le> 64" "f3_nlink a \<noteq> 0" "imalloc W (s\<lparr>env := e\<rparr>) \<noteq> 0"
    and "nfs_lookup W (clntp s) (hsi_nfs3_getfh3 di, name) (env s) =
           (Inr \<lparr>status = 0, resok = \<lparr>l3_object = h, l3_attributes = Some a\<rparr>\<rparr>, e)"
  shows "\<exists>x p j s'. hsx_fuse_lookup W n name s = Some ([ReplyEntry x], s') \<and> nfs_cache_ok s' \<and>
    heap s' p = Some j \<and> e_ino x = ino j \<and> fileid j = f3_fileid a \<and> hsi_nfs3_getfh3 j = h \<and>
    i_private j = refs s p + 1 \<and> (\<forall>i. heap s p = Some i \<longrightarrow> ino j = ino i)"
proof -
  obtain f x p i s' where r: "fh_bytes f = h" "got (s\<lparr>env := e\<rparr>) f (post_fattr (Some a)) p s'" "heap s' p = Some i"
      "i_private i = refs s p" "e_ino x = ino i" "fa_fileid (post_fattr (Some a)) = f3_fileid a"
      "hsx_fuse_lookup W n name s = Some ([ReplyEntry x], s'\<lparr>heap := (heap s')(p \<mapsto> i\<lparr>i_private := i_private i + 1\<rparr>)\<rparr>)"
    using lookup_serves [OF assms] by blast
  let ?j = "i\<lparr>i_private := i_private i + 1\<rparr>" let ?t = "s'\<lparr>heap := (heap s')(p \<mapsto> ?j)\<rparr>"
  have "nfs_cache_ok ?t"
    using evolves_private [of s' p i "i_private i + 1"] r(2,3) by (auto simp: got_def evolves_def)
  moreover have "fileid i = f3_fileid a" "hsi_nfs3_getfh3 i = h"
    using r(1,2,3,6) by (auto simp: got_def caches_def hsi_nfs3_getfh3_def)
  moreover have "ino i = ino i0" if "heap s p = Some i0" for i0
    using r(2,3) that by (auto simp: got_def split: if_splits)
  ultimately show ?thesis using r(4,5,7)
    by (intro exI [of _ x] exI [of _ p] exI [of _ ?j] exI [of _ ?t]) (simp add: hsi_nfs3_getfh3_def)
qed

lemma sample_small_blocks: "small_blocks (sample_st e)"
  by (auto simp: small_blocks_def sample_st_heap new_inode_blkbits unat_blkbits split: if_splits)
     (simp_all add: sample_st_def root_st_def with_inode_def fresh_st_def empty_super_def hsfs_super.defs)

lemma sample_first_free: "first_free (sample_st e) \<noteq> 0"
  by (simp add: first_free_def sample_st_heap)

lemma sample_looks_up:
  "nfs_lookup sample_world (clntp (sample_st [])) (hsi_nfs3_getfh3 root_inode, ''a'') (env (sample_st [])) =
      (Inr \<lparr>status = 0, resok = \<lparr>l3_object = [2], l3_attributes = Some (sample_attr [2])\<rparr>\<rparr>, [])"
  "imalloc sample_world ((sample_st [])\<lparr>env := []\<rparr>) \<noteq> 0"
  "f3_nlink (sample_attr [2]) \<noteq> 0" "f3_fileid (sample_attr [2]) = 200"
  using sample_first_free [of "[]"] by (simp_all add: sample_world_def first_free_def sample_attr_def some_fattr3_def)

theorem hsx_fuse_lookup_correct_witness:
  "\<exists>x p j s'. hsx_fuse_lookup sample_world 1 ''a'' (sample_st []) = Some ([ReplyEntry x], s') \<and> nfs_cache_ok s' \<and>
    heap s' p = Some j \<and> e_ino x = ino j \<and> fileid j = 200 \<and> hsi_nfs3_getfh3 j = [2]"
  using hsx_fuse_lookup_correct [OF sample_world_ok sample_st_ok sample_small_blocks sample_lookup(1) _ _ _ _ sample_looks_up(3,2,1)]
    sample_looks_up(4) by (simp add: sample_st_heap) blast

lemma sample_lookup_served:
  "\<exists>x s'. hsx_fuse_lookup sample_world 1 ''a'' (sample_st []) = Some ([ReplyEntry x], s')"
  using lookup_serves [OF sample_world_ok sample_st_ok sample_small_blocks sample_lookup(1) _ _ _ _ sample_looks_up(3,2,1)]
  by (simp add: sample_st_heap) blast

section \<open>Sessions\<close>

text \<open>C2. However many requests are served, in whatever order and with whatever answers of the server, the cache
  stays consistent, and an inode that was cached once stays: at the same address, with the same number,
  file identifier and handle, and found under that number.\<close>

theorem session_keeps_inodes:
  assumes "world_ok W" "nfs_cache_ok s" "session W s tr s'" "heap s p = Some i"
  shows "nfs_cache_ok s' \<and> hsfs_ilookup s' (ino i) = Some p \<and>
    (\<exists>j. heap s' p = Some j \<and> ino j = ino i \<and> fileid j = fileid i \<and> hsi_nfs3_getfh3 j = hsi_nfs3_getfh3 i)"
proof -
  have e: "evolves s s'" using session_evolves [OF assms(3,1,2)] .
  obtain j where j: "heap s' p = Some j" "same_file i j" using evolvesD [OF e assms(4)] by blast
  moreover have "p \<noteq> 0" using icache_ok_D(2) [OF nfs_cache_ok_D(1) [OF evolves_ok [OF e]]] j(1) by auto
  then have "hsfs_ilookup s' (ino i) = Some p"
    using ilookup_iff [OF nfs_cache_ok_D(1) [OF evolves_ok [OF e]]] j by (simp add: same_file_def)
  ultimately show ?thesis using evolves_ok [OF e] by (auto simp: same_file_def hsi_nfs3_getfh3_def)
qed

text \<open>C1. The lookup counts are right: after any sequence of requests other than link, the count of every cached
  inode is its count before, plus the references that the replies have given to the kernel, minus those
  that the kernel has given back with forget; nothing is counted for numbers that no inode has.\<close>

theorem session_balances_lookups:
  assumes "world_ok W" "nfs_cache_ok s" "session W s tr s'" "no_link tr"
  shows "(\<forall>p j. heap s' p = Some j \<longrightarrow> i_private j = refs s p + outstanding (ino j) tr) \<and>
    (\<forall>n. n \<notin> numbers s' \<longrightarrow> outstanding n tr = 0)"
  using session_counts [OF assms(3,1,2,4)] session_numbers [OF assms(3,1,2,4)] by blast

lemma sample_session:
  "\<exists>x s'. session sample_world (sample_st []) [(Lookup 1 ''a'', [ReplyEntry x]), (Opendir 1, [ReplyOpen])] s'"
proof -
  obtain x s' where l: "hsx_fuse_lookup sample_world 1 ''a'' (sample_st []) = Some ([ReplyEntry x], s')"
    using sample_lookup_served by blast
  have s: "session sample_world (sample_st []) [(Lookup 1 ''a'', [ReplyEntry x])] s'"
    using session_serve [OF session_start, of sample_world "Lookup 1 ''a''"] l by simp
  have "evolves (sample_st []) s'" using session_evolves [OF s sample_world_ok sample_st_ok] .
  then obtain j where j: "heap s' 0x10000 = Some j" "ino j = 1" "nfs_cache_ok s'"
    using evolvesD [of "sample_st []" s' "0x10000" root_inode] evolves_ok sample_inodes by (auto simp: sample_st_heap same_file_def)
  then have "hsfs_ilookup s' 1 = Some 0x10000" using ilookup_iff [OF nfs_cache_ok_D(1) [OF j(3)]] by simp
  then have "hsfs_oper sample_world (Opendir 1) s' = Some ([ReplyOpen], s')" by (simp add: hsx_fuse_opendir_def)
  from session_serve [OF s this] show ?thesis by (intro exI [of _ x] exI [of _ s']) simp
qed

theorem session_keeps_inodes_witness:
  "\<exists>tr s'. length tr = 2 \<and> session sample_world (sample_st []) tr s' \<and> hsfs_ilookup s' 1 = Some 0x10000"
proof -
  obtain x s' where "session sample_world (sample_st []) [(Lookup 1 ''a'', [ReplyEntry x]), (Opendir 1, [ReplyOpen])] s'"
    using sample_session by blast
  moreover from this have "hsfs_ilookup s' 1 = Some 0x10000"
    using session_keeps_inodes [OF sample_world_ok sample_st_ok, where p = "0x10000" and i = root_inode] sample_inodes(2) by (simp add: sample_st_heap)
  ultimately show ?thesis
    by (intro exI [of _ "[(Lookup 1 ''a'', [ReplyEntry x]), (Opendir 1, [ReplyOpen])]"] exI [of _ s']) simp
qed

theorem session_balances_lookups_witness:
  "\<exists>tr s'. tr \<noteq> [] \<and> session sample_world (sample_st []) tr s' \<and>
    (\<forall>p j. heap s' p = Some j \<longrightarrow> i_private j = refs (sample_st ([] :: u8 list)) p + outstanding (ino j) tr)"
proof -
  obtain x s' where s: "session sample_world (sample_st []) [(Lookup 1 ''a'', [ReplyEntry x]), (Opendir 1, [ReplyOpen])] s'"
    using sample_session by blast
  have "no_link [(Lookup 1 ''a'', [ReplyEntry x]), (Opendir 1, [ReplyOpen])]" by (simp add: no_link_def)
  from conjunct1 [OF session_balances_lookups [OF sample_world_ok sample_st_ok s this]] s show ?thesis
    by (intro exI [of _ "[(Lookup 1 ''a'', [ReplyEntry x]), (Opendir 1, [ReplyOpen])]"] exI [of _ s'] conjI) (simp, assumption+)
qed

section \<open>Replies\<close>

text \<open>The requests that are dropped without a reply when one of these inodes is not cached.\<close>

fun silent :: "request \<Rightarrow> u64 set" where
  "silent (Access n m) = {n}"
| "silent (Create uid gid n name mode fl) = {n}"
| "silent (Mkdir n name mode) = {n}"
| "silent (Rmdir n name) = {n}"
| "silent (Readlink n) = {n}"
| "silent (Link n m name) = {n, m}"
| "silent r = {}"

definition replies_ok :: "request \<Rightarrow> 'e hsfs_st \<Rightarrow> reply list \<Rightarrow> bool" where
  "replies_ok r s rs \<longleftrightarrow> (length rs = 1 \<or> rs = [] \<and> (\<exists>n \<in> silent r. hsfs_ilookup s n = Some 0) \<or>
     (\<exists>n name val. r = Setxattr n name val \<and> xattr_type name \<noteq> None \<and> length rs = 2))"

lemma replies_one [simp]: "replies_ok r s [x]"
  by (simp add: replies_ok_def)

lemma replies_new: "pres (\<lambda>x. replies_ok r s (fst x)) (reply_new mk p t)"
  unfolding reply_new_def by (intro pres_intros) simp_all

lemmas handler_defs =
  hsx_fuse_lookup_def hsx_fuse_forget_def hsx_fuse_getattr_def hsx_fuse_setattr_def hsx_fuse_readlink_def hsx_fuse_mknod_def
  hsx_fuse_mkdir_def hsx_fuse_unlink_def hsx_fuse_rmdir_def hsx_fuse_symlink_def hsx_fuse_rename_def hsx_fuse_link_def
  hsx_fuse_open_def hsx_fuse_read_def hsx_fuse_write_def hsx_fuse_release_def hsx_fuse_opendir_def hsx_fuse_readdir_def
  hsx_fuse_readdir_plus_def hsx_fuse_statfs_def hsx_fuse_setxattr_def hsx_fuse_getxattr_def hsx_fuse_access_def hsx_fuse_create_def

lemma pres_replies: "pres (\<lambda>x. replies_ok r s (fst x)) (hsfs_oper W r s)"
  by (cases r; simp only: hsfs_oper.simps handler_defs; intro pres_intros replies_new;
      force simp: replies_ok_def)

text \<open>C11. No request is answered twice, except setting an access control list, and a request stays without an answer
  only if it is access, create, mkdir, rmdir, readlink or link and the inode is not cached.\<close>

theorem hsfs_oper_replies:
  assumes "hsfs_oper W r s = Some (rs, s')"
  shows "length rs = 1 \<or> rs = [] \<and> (\<exists>n \<in> silent r. hsfs_ilookup s n = Some 0) \<or>
    (\<exists>n name val. r = Setxattr n name val \<and> xattr_type name \<noteq> None \<and> length rs = 2)"
  using presD [OF pres_replies assms] by (simp add: replies_ok_def)

theorem hsfs_oper_replies_witness: "\<exists>rs s'. hsfs_oper sample_world (Opendir 1) (sample_st []) = Some (rs, s') \<and> length rs = 1"
proof -
  have "hsfs_oper sample_world (Opendir 1) (sample_st []) = Some ([ReplyOpen], sample_st [])"
    by (simp add: hsx_fuse_opendir_def sample_lookup)
  from this hsfs_oper_replies [OF this] show ?thesis by simp
qed

text \<open>These six requests are always dropped without an answer when the inode is not cached, which leaves the
  caller in the kernel waiting.\<close>

lemma silent_unanswered:
  assumes "nfs_cache_ok s" "n \<in> silent r" "hsfs_ilookup s n = Some 0"
  shows "hsfs_oper W r s = Some ([], s)"
proof -
  have "\<exists>p. hsfs_ilookup s m = Some p" for m
    using ilookup_iff [OF nfs_cache_ok_D(1) [OF assms(1)]] icache_ok_D(2) [OF nfs_cache_ok_D(1) [OF assms(1)]]
      id_ifind_miss [OF nfs_cache_ok_D(1) [OF assms(1)], of m] unfolding hsfs_ilookup_def
    by (metis option.distinct(1))
  then show ?thesis
    using assms(2,3) by (cases r) (auto simp: handler_defs split: bind_splits)
qed

lemma sample_uncached: "hsfs_ilookup (sample_st e) 7 = Some 0"
  unfolding hsfs_ilookup_def using sample_inodes
  by (intro id_ifind_miss [OF nfs_cache_ok_D(1) [OF sample_st_ok]]) (auto simp: sample_st_heap split: if_splits)

lemma silent_unanswered_witness: "hsfs_oper sample_world (Access 7 4) (sample_st []) = Some ([], sample_st [])"
  using silent_unanswered [OF sample_st_ok, of 7 "Access 7 4" "[]" sample_world] by (simp add: sample_uncached)

section \<open>Reading and writing\<close>

lemma sample_file: "heap (sample_st e) 0x10200 = Some file_inode"
  by (simp add: sample_st_heap)

theorem hsx_fuse_read_correct_witness:
  "\<exists>e. hsx_fuse_read sample_world 2 3 1 (sample_st [10, 20, 30, 40, 50]) = Some ([ReplyBuf [20, 30, 40]], (sample_st [10, 20, 30, 40, 50])\<lparr>env := e\<rparr>) \<and>
    e = [10, 20, 30, 40, 50]"
  using hsx_fuse_read_correct [OF sample_reads sample_lookup(2) _ sample_file [of "[10, 20, 30, 40, 50]"], where off = 1 and sz = 3]
  by (simp add: sample_world_def)

theorem hsx_fuse_write_correct_witness:
  "\<exists>e. hsx_fuse_write sample_world 2 [7, 8] 2 1 False (sample_st [10, 20, 30, 40, 50]) =
      Some ([ReplyWrite 2], (sample_st [10, 20, 30, 40, 50])\<lparr>env := e\<rparr>) \<and> e = [10, 7, 8, 40, 50]"
  using hsx_fuse_write_correct [OF sample_writes sample_lookup(2) _ sample_file [of "[10, 20, 30, 40, 50]"], where off = 1 and sz = 2 and buf = "[7, 8]" and direct_io = False]
  by (simp add: sample_world_def store_def)

text \<open>A server that answers every READ with no data and without the end of the file.\<close>

definition stalls :: "'e world \<Rightarrow> bool" where
  "stalls W \<longleftrightarrow> (\<forall>c a e. nfs_read W c a e = (Inr \<lparr>status = 0, resok = \<lparr>r3_count = 0, r3_eof = False, r3_data = []\<rparr>\<rparr>, e))"

lemma stalled_read:
  assumes "stalls W" "heap s p = Some i" "clnt_live s (clntp s)"
  shows "hsi_nfs3_read W p off sz room s = Some (Inr \<lparr>rw_data = [], rw_count = 0, rw_eof = False\<rparr>, s)"
proof -
  have "call W (nfs_read W) (clntp s) a s = Some (Inr \<lparr>status = 0, resok = \<lparr>r3_count = 0, r3_eof = False, r3_data = []\<rparr>\<rparr>, s)" for a
    using clnt_call_first [where proc = "nfs_read W", OF assms(3), of a, where lib = "rpc W"] assms(1) by (simp add: stalls_def)
  then show ?thesis
    using assms(2,3) by (simp add: hsi_nfs3_read_def hsi_nfs3_stat_to_errno_def nfs_errtbl_def clnt_freeres_def clnt_live_def Let_def)
qed

lemma stalled_loop:
  assumes run: "read_loop W p sz off cnt buf s = Some x"
  shows "stalls W \<longrightarrow> p \<in> dom (heap s) \<longrightarrow> clnt_live s (clntp s) \<longrightarrow> \<not> cnt < sz"
proof (rule read_loop.raw_induct
    [where P = "\<lambda>W p sz off cnt buf s x. stalls W \<longrightarrow> p \<in> dom (heap s) \<longrightarrow> clnt_live s (clntp s) \<longrightarrow> \<not> cnt < sz", OF _ run], goal_cases)
  case (1 loop W p sz off cnt buf s x)
  show ?case
  proof (intro impI notI)
    assume *: "stalls W" "p \<in> dom (heap s)" "clnt_live s (clntp s)" "cnt < sz"
    then obtain i where "heap s p = Some i" by blast
    then have "loop W p sz off cnt (overwrite (unat cnt) [] buf) s = Some x"
      using 1(2) stalled_read [OF *(1) _ *(3)] *(4) by simp
    from 1(1) [OF this] * show False by blast
  qed
qed

text \<open>C34. The read loop relies on the server to make progress: if the server keeps answering with no data and
  without reporting the end of the file, which the protocol does not rule out, the handler never returns.\<close>

theorem hsx_fuse_read_diverges:
  assumes "stalls W" "hsfs_ilookup s n = Some p" "p \<noteq> 0" "heap s p = Some i" "clnt_live s (clntp s)"
    and "mem_ok W (unat sz) (env s)" "sz \<noteq> 0"
  shows "hsx_fuse_read W n sz off s = None"
proof -
  have "0 < sz" using assms(7) by (simp add: word_gt_0)
  then have "read_loop W p sz off 0 (replicate (unat sz) 0) s = None"
    using stalled_loop [of W p sz off 0 "replicate (unat sz) 0" s] assms(1,4,5) by (cases "read_loop W p sz off 0 (replicate (unat sz) 0) s") auto
  then show ?thesis using assms(2,3,6) by (simp add: hsx_fuse_read_def)
qed

definition stalled_world :: "u8 list world" where
  "stalled_world = sample_world\<lparr>nfs_read := \<lambda>c a. good \<lparr>r3_count = 0, r3_eof = False, r3_data = []\<rparr>\<rparr>"

theorem hsx_fuse_read_diverges_witness: "hsx_fuse_read stalled_world 2 16 0 (sample_st []) = None"
  by (rule hsx_fuse_read_diverges [OF _ sample_lookup(2) _ sample_file])
     (simp_all add: stalls_def stalled_world_def sample_world_def)

section \<open>Hard links\<close>

text \<open>C33. A reply to link hands the kernel a reference that is not counted: the lookup count of the inode stays what it
  was, so that the assertion in forget fails as soon as the kernel gives back all the references it holds.\<close>

theorem hsx_fuse_link_uncounted:
  assumes "world_ok W" "nfs_cache_ok s" "hsx_fuse_link W n m name s = Some ([ReplyEntry x], s')"
    and "hsfs_ilookup s n = Some p" "heap s p = Some i" "i_private i < - 1"
  shows "e_ino x = n \<and> (\<exists>j. heap s' p = Some j \<and> i_private j = i_private i) \<and>
    hsx_fuse_forget W n (i_private i + 1) s' = None"
proof -
  have p0: "p \<noteq> 0" using icache_ok_D(2) [OF nfs_cache_ok_D(1) [OF assms(2)]] assms(5) by auto
  then have i: "ino i = n" using ilookup_iff [OF nfs_cache_ok_D(1) [OF assms(2)]] assms(4,5) by simp
  have e: "ev W s s'" using presD [OF evs_fuse_link [OF ev_start [OF assms(1,2)]] assms(3)] by simp
  obtain j where j: "heap s' p = Some j" "same_file i j" using evolvesD [OF ev_D(1) [OF e] assms(5)] by blast
  have r: "i_private j = i_private i" using ev_refs [OF e j(1)] assms(5) by (simp add: refs_def)
  have l: "hsfs_ilookup s' n = Some p"
    using ilookup_iff [OF nfs_cache_ok_D(1) [OF ev_D(2) [OF e]] p0] j i by (simp add: same_file_def)
  have "hsx_fuse_fill_reply p s' = Some x"
    using assms(3,4) by (auto simp: hsx_fuse_link_def split: bind_splits if_splits)
  then have "e_ino x = n" using fill_reply_ino [OF _ j(1)] j(2) i by (simp add: same_file_def)
  moreover have "unat (i_private i) < 2 ^ 64 - 1"
    using assms(6) by (simp add: word_less_nat_alt unsigned_minus_1_eq_mask mask_eq_exp_minus_1)
  then have "\<not> i_private i + 1 \<le> i_private i" by (simp add: word_le_nat_alt unat_word_ariths)
  then have "hsx_fuse_forget W n (i_private i + 1) s' = None"
    using l j(1) r by (simp add: hsx_fuse_forget_def hsx_fuse_ref_dec_def split: bind_splits)
  ultimately show ?thesis using j(1) r by blast
qed

lemma sample_refresh: "fst (refresh (post_fattr (Some (sample_attr [2]))) file_inode) = 0"
  "fa_valid (post_fattr (Some (sample_attr [2]))) AND NFS_ATTR_FATTR \<noteq> 0"
  by (simp_all add: refresh_def nfs_update_inode_def sample_inodes post_fattr_def hsi_nfs3_post2fattr_def
      hsi_nfs3_fattr2fattr_def sample_attr_def some_fattr3_def nfs_type2fmt_def nfs_init_fattr_def stack_fattr_def
      new_inode_def fill_new_def some_fattr_def NFS_ATTR_FATTR_V3_def NFS_ATTR_FATTR_def hsfs_unlock_new_inode_def set_nfs_fileid_def Let_def)

lemma sample_link_served: "\<exists>x s'. hsx_fuse_link sample_world 2 1 ''b'' (sample_st []) = Some ([ReplyEntry x], s')"
proof -
  let ?a = "(hsi_nfs3_getfh3 file_inode, hsi_nfs3_getfh3 root_inode, ''b'')" let ?f = "post_fattr (Some (sample_attr [2]))"
  have c: "call sample_world (nfs_link sample_world) 1 ?a (sample_st []) =
      Some (Inr \<lparr>status = 0, resok = Some (sample_attr [2])\<rparr>, (sample_st [])\<lparr>env := []\<rparr>)"
    by (rule clnt_call_first) (simp_all add: sample_world_def sample_inodes)
  obtain j where j: "refresh ?f file_inode = (0, j)" using sample_refresh(1) by (cases "refresh ?f file_inode") simp
  have "unat (i_blkbits j) < 31"
    using refresh_frame(8) [OF j] sample_small_blocks [of "[]"] by (auto simp: small_blocks_def sample_st_heap split: if_splits)
  then obtain x where "hsx_fuse_fill_reply 0x10200 ((sample_st [])\<lparr>env := [] :: u8 list, heap := (heap (sample_st [])) (0x10200 \<mapsto> j)\<rparr>) = Some x"
    by (simp add: hsx_fuse_fill_reply_def hsfs_generic_fillattr_def)
  moreover have "mem_ok sample_world k e" for k e by (simp add: sample_world_def)
  ultimately show ?thesis
    using c j sample_refresh(2)
    by (simp add: hsx_fuse_link_def sample_lookup hsi_nfs3_link_def sample_st_heap strcpy_name_def nfs_refresh_inode_def
        clnt_freeres_def clnt_live_def)
qed

theorem hsx_fuse_link_uncounted_witness:
  "\<exists>x s'. hsx_fuse_link sample_world 2 1 ''b'' (sample_st []) = Some ([ReplyEntry x], s') \<and>
    hsx_fuse_forget sample_world 2 1 s' = None"
proof -
  obtain x s' where l: "hsx_fuse_link sample_world 2 1 ''b'' (sample_st []) = Some ([ReplyEntry x], s')"
    using sample_link_served by blast
  have "i_private file_inode = 0" 
    by (simp add: new_inode_def fill_new_def set_nfs_fileid_def hsfs_unlock_new_inode_def inode_init_always_def zero_nfs_inode_def Let_def)
  then have "hsx_fuse_forget sample_world 2 1 s' = None"
    using hsx_fuse_link_uncounted [OF sample_world_ok sample_st_ok l sample_lookup(2) sample_file] by (simp add: word_gt_0)
  then show ?thesis using l by blast
qed

section \<open>Reading directories\<close>

definition entries_size :: "'e world \<Rightarrow> readdir_ctx list \<Rightarrow> nat" where
  "entries_size W cs = sum_list (map (\<lambda>c. dirent_size W (rc_name c)) cs)"

lemma add_direntries_fits:
  assumes "add_direntries W sz len cs = (es, m)" "len = 0 \<or> len < sz"
  shows "\<exists>k. es = take k cs \<and> m = len + entries_size W es \<and> (m = 0 \<or> m < sz) \<and>
    (k < length cs \<longrightarrow> sz \<le> m + dirent_size W (rc_name (cs ! k)))"
  using assms
proof (induction cs arbitrary: len es)
  case Nil
  then show ?case by (simp add: entries_size_def)
next
  case (Cons c cs)
  let ?res = "dirent_size W (rc_name c)"
  show ?case
  proof (cases "?res \<ge> sz - len")
    case True
    then show ?thesis using Cons.prems by (intro exI [of _ 0]) (auto simp: entries_size_def)
  next
    case False
    then obtain es' where es: "add_direntries W sz (len + ?res) cs = (es', m)" "es = c # es'"
      using Cons.prems(1) by (auto simp: Let_def split: prod.splits)
    have "len + ?res = 0 \<or> len + ?res < sz" using False by linarith
    from Cons.IH [OF es(1) this] obtain k where "es' = take k cs" "m = len + ?res + entries_size W es'" "m = 0 \<or> m < sz"
        "k < length cs \<longrightarrow> sz \<le> m + dirent_size W (rc_name (cs ! k))" by blast
    then show ?thesis using es(2) by (intro exI [of _ "Suc k"]) (simp add: entries_size_def)
  qed
qed



lemma getxattr_answered:
  assumes "heap s p = Some i" "clnt_live s (acl_clntp s)" "\<And>n. mem_ok W n (env s)"
    and "acl_getacl W (acl_clntp s) (hsi_nfs3_getfh3 i, msk) (env s) = (Inr \<lparr>status = 0, resok = sa\<rparr>, env s)"
  shows "hsi_nfs3_getxattr W p msk type s = Some ((0, Some (acl_of_secattr type sa)), s)"
proof -
  have "call W (acl_getacl W) (acl_clntp s) (hsi_nfs3_getfh3 i, msk) s = Some (Inr \<lparr>status = 0, resok = sa\<rparr>, s)"
    using clnt_call_first [where proc = "acl_getacl W", OF assms(2,4), of "rpc W"] by simp
  then show ?thesis
    using assms(1-3) by (simp add: hsi_nfs3_getxattr_def clnt_freeres_def posix_acl_alloc_def clnt_live_def Let_def)
qed


definition sample_xattr :: "u8 list" where
  "sample_xattr = [2, 0, 0, 0, 1, 0, 6, 0, 255, 255, 255, 255]"

lemma sample_xattr_acl: "posix_acl_from_xattr (\<lambda>_. True) sample_xattr = Some [\<lparr>e_tag = 1, e_perm = 6, e_id = - 1\<rparr>]"
  by code_simp


text \<open>C32. Asking for the size of an access control list with a buffer of size 0, as every program does first, is
  answered with the number 34, the value of \<open>ERANGE\<close>, whatever the size of the list: \<open>calloc(1, 0)\<close> returns
  an address, and the encoder takes it for a buffer that is too small.\<close>

theorem getxattr_size_probe:
  assumes "xattr_type name = Some type" "hsfs_ilookup s n = Some p" "p \<noteq> 0" "heap s p = Some i"
    and "clnt_live s (acl_clntp s)" "\<forall>n e. mem_ok W n e"
    and "\<forall>m e. acl_getacl W (acl_clntp s) (hsi_nfs3_getfh3 i, m) e = (Inr \<lparr>status = 0, resok = sa\<rparr>, e)"
  shows "hsx_fuse_getxattr W n name 0 s = Some ([ReplyXattr 34], s)"
proof -
  have g: "hsi_nfs3_getxattr W p m t s = Some ((0, Some (acl_of_secattr t sa)), s)" for m t
    by (rule getxattr_answered [OF assms(4,5)]) (use assms(6,7) in auto)
  then show ?thesis
    using assms(1-3,6) by (simp add: hsx_fuse_getxattr_def posix_acl_to_xattr_def posix_acl_xattr_size_def Let_def)
qed

theorem getxattr_size_probe_witness:
  "hsx_fuse_getxattr sample_world 2 ''system.posix_acl_access'' 0 (sample_st []) = Some ([ReplyXattr 34], sample_st [])"
proof -
  have f: "heap (sample_st ([] :: u8 list)) 0x10200 = Some file_inode" by (simp add: sample_st_heap)
  show ?thesis
    using getxattr_size_probe [OF _ sample_lookup(2) _ f, of "''system.posix_acl_access''" ACL_TYPE_ACCESS sample_world sample_acl]
    by (simp add: xattr_type_def sample_world_def)
qed

section \<open>Mounting\<close>

lemma fsinfo_to_super_st:
  "clntp (hsi_fsinfo_to_super pg fi s) = clntp s" "closed (hsi_fsinfo_to_super pg fi s) = closed s"
  "env (hsi_fsinfo_to_super pg fi s) = env s"
  by (simp_all add: hsi_fsinfo_to_super_def Let_def)

lemmas fsinfo_to_super_frames = fsinfo_to_super_frame fsinfo_to_super_st

text \<open>The first inode of an empty cache gets the number 1.\<close>

lemma fhget_first:
  assumes "world_ok W" "heap s = Map.empty" "id_table s = hash_init" "fh_table s = hash_init" "curr_id s = 0"
    and "fh_ok f" "usable fattr" "imalloc W s \<noteq> 0"
  shows "fhget W f fattr s = Some (imalloc W s, with_inode f fattr (imalloc W s) 1 s) \<and>
    nfs_cache_ok (with_inode f fattr (imalloc W s) 1 s)"
proof -
  have W: "user_object (bad_inode W)" "fresh_malloc (imalloc W)" using assms(1) by (simp_all add: world_ok_def)
  have ok: "nfs_cache_ok s"
    using nfs_cache_ok_init [OF assms(2)] assms(3,4) by (simp add: hsfs_init_icache_def nfs_cache_ok_def icache_ok_def)
  have k: "free_round s 1" using assms(2) by (simp add: free_round_def)
  have p: "imalloc W s AND 7 = 0" using W(2) assms(8) by (simp add: fresh_malloc_def)
  have "fhget W f fattr s = Some (imalloc W s, with_inode f fattr (imalloc W s) 1 s)"
    using hsi_nfs_fhget_miss [where malloc = "imalloc W", OF W(1) ok assms(6,7) _ assms(8) _ k] assms(2,5)
    by (simp add: caches_def next_id_def)
  then show ?thesis using with_first_inode [OF ok assms(2,5,6,8) p] by simp
qed

text \<open>C12. Filling the super block of a fresh mount from a server that answers FSINFO and PATHCONF succeeds: the cache
  then holds the root and nothing else, with the handle of the mount server, the file identifier of the file server
  and the number 1, so that the assertion on that number cannot fail.\<close>

theorem hsi_fill_super_root:
  assumes "world_ok W" "heap s = Map.empty" "clnt_live s (clntp s)" "length f \<le> 64"
    and "nfs_fsinfo W (clntp s) f (env s) = (Inr \<lparr>status = 0, resok = fi\<rparr>, e)" "fi_attributes fi = Some a" "f3_nlink a \<noteq> 0"
    and "\<forall>t. heap t = Map.empty \<longrightarrow> imalloc W t \<noteq> 0 \<and> \<not> IS_ERR (imalloc W t)"
    and "\<forall>h e. nfs_pathconf W (clntp s) h e = (Inr \<lparr>status = 0, resok = n\<rparr>, e)"
  shows "\<exists>s' i. hsi_fill_super W f s = Some (0, s') \<and> heap s' = [root s' \<mapsto> i] \<and> ino i = 1 \<and> fileid i = f3_fileid a \<and>
    hsi_nfs3_getfh3 i = f \<and> namlen s' = n \<and> nfs_cache_ok s'"
proof -
  let ?s0 = "(hsfs_init_icache s)\<lparr>curr_id := 0\<rparr>"
  let ?s1 = "hsi_fsinfo_to_super (page_size W) fi (?s0\<lparr>env := e\<rparr>)" and ?fattr = "post_fattr (Some a)"
  have f0: "clntp ?s0 = clntp s" "env ?s0 = env s" "closed ?s0 = closed s" "heap ?s0 = heap s" by (simp_all add: hsfs_init_icache_def)
  have u: "usable ?fattr" "fa_fileid ?fattr = f3_fileid a" "fa_valid ?fattr AND NFS_ATTR_FATTR \<noteq> 0"
    using assms(7) by (simp_all add: usable_def post_fattr_def hsi_nfs3_post2fattr_def hsi_nfs3_fattr2fattr_def Let_def
        NFS_ATTR_FATTR_V3_def NFS_ATTR_FATTR_def nfs_init_fattr_def stack_fattr_def)
  have "call W (nfs_fsinfo W) (clntp ?s0) f ?s0 = Some (Inr \<lparr>status = 0, resok = fi\<rparr>, ?s0\<lparr>env := e\<rparr>)"
    using assms(3,5) f0 by (intro clnt_call_first) (simp_all add: clnt_live_def)
  then have i: "hsi_nfs3_fsinfo W f (nfs_init_fattr stack_fattr) ?s0 = Some ((0, ?fattr), ?s1)"
    using assms(3,6) f0 u(3) by (simp add: hsi_nfs3_fsinfo_def clnt_freeres_def clnt_live_def fsinfo_to_super_frames post_fattr_def)
  obtain g where g: "nfs_copy_fh3 zero_fh (length f) f = Some g" "fh_ok g" "fh_bytes g = f"
    using nfs_copy_fh3_ok [OF fh_ok_zero_fh refl, of f] assms(4) by auto
  let ?p = "imalloc W ?s1" let ?t = "with_inode g ?fattr ?p 1 ?s1"
  have p: "?p \<noteq> 0" "\<not> IS_ERR ?p" using assms(2,8) f0(4) by (simp_all add: fsinfo_to_super_frames)
  have h: "fhget W g ?fattr ?s1 = Some (?p, ?t)" "nfs_cache_ok ?t"
    using fhget_first [OF assms(1) _ _ _ _ g(2) u(1) p(1)] assms(2) by (simp_all add: fsinfo_to_super_frames hsfs_init_icache_def)
  let ?i = "new_inode ?s1 g ?fattr 1"
  have t: "heap ?t = [?p \<mapsto> ?i]" "clntp ?t = clntp s" "closed ?t = closed s"
    using assms(2) f0 by (simp_all add: with_inode_def fsinfo_to_super_frames)
  have "call W (nfs_pathconf W) (clntp s) (hsi_nfs3_getfh3 ?i) (?t\<lparr>root := ?p\<rparr>) =
      Some (Inr \<lparr>status = 0, resok = n\<rparr>, ?t\<lparr>root := ?p, env := env ?t\<rparr>)"
    using assms(3,9) t clnt_call_first [where proc = "nfs_pathconf W" and s = "?t\<lparr>root := ?p\<rparr>" and lib = "rpc W"]
    by (simp add: clnt_live_def)
  then have "hsi_nfs3_pathconf W ?p (?t\<lparr>root := ?p\<rparr>) = Some (0, ?t\<lparr>root := ?p, env := env ?t, namlen := n\<rparr>)"
    using assms(3) t by (simp add: hsi_nfs3_pathconf_def clnt_freeres_def clnt_live_def)
  then have "hsi_fill_super W f s = Some (0, ?t\<lparr>root := ?p, env := env ?t, namlen := n\<rparr>)"
    using i g(1) h(1) p(2) t new_inode_fields(2) [OF g(2)]
    by (simp add: hsi_fill_super_def FUSE_ASSERT_def Let_def)
  moreover have "nfs_cache_ok (?t\<lparr>root := ?p, env := env ?t, namlen := n\<rparr>)"
    using h(2) by (simp add: nfs_cache_ok_def icache_ok_def)
  ultimately show ?thesis
    using t(1) u(2) g(3)
    by (intro exI [of _ "?t\<lparr>root := ?p, env := env ?t, namlen := n\<rparr>"] exI [of _ ?i])
       (simp add: hsi_nfs3_getfh3_def new_inode_fields [OF g(2)])
qed

theorem hsi_fill_super_root_witness:
  "\<exists>s' i. hsi_fill_super sample_world [1] (fresh_st []) = Some (0, s') \<and> heap s' = [root s' \<mapsto> i] \<and> ino i = 1 \<and> nfs_cache_ok s'"
proof -
  have f: "nfs_fsinfo sample_world (clntp (fresh_st [])) [1] (env (fresh_st [])) = (Inr \<lparr>status = 0, resok = sample_fsinfo\<rparr>, [])"
    "fi_attributes sample_fsinfo = Some (sample_attr [1])" "f3_nlink (sample_attr [1]) \<noteq> 0"
    "\<forall>t. heap t = Map.empty \<longrightarrow> imalloc sample_world t \<noteq> 0 \<and> \<not> IS_ERR (imalloc sample_world t)"
    "\<forall>h e. nfs_pathconf sample_world (clntp (fresh_st [])) h e = (Inr \<lparr>status = 0, resok = 255\<rparr>, e)"
    by (simp_all add: sample_world_def sample_fsinfo_def sample_attr_def some_fattr3_def first_free_def IS_ERR_def IS_ERR_VALUE_def
        MAX_ERRNO_def)
  have s: "heap (fresh_st ([] :: u8 list)) = Map.empty" "clnt_live (fresh_st ([] :: u8 list)) (clntp (fresh_st ([] :: u8 list)))"
    by (simp_all add: clnt_live_def)
  show ?thesis using hsi_fill_super_root [OF sample_world_ok s _ f] by simp blast
qed

text \<open>Connecting takes time and no other call turns the clock back.\<close>

definition clock_runs :: "'e world \<Rightarrow> 'e mountlib \<Rightarrow> bool" where
  "clock_runs W M \<longleftrightarrow>
     (\<forall>a m n e. clock M e < clock M (snd (clntudp_bufcreate (rpc W) a m n e)) \<and>
        clock M e < clock M (snd (clnttcp_create (rpc W) a m n e))) \<and>
     (\<forall>e. clock M e \<le> clock M (snd (authunix_create_default (rpc W) e))) \<and>
     (\<forall>c d e. clock M e \<le> clock M (snd (mountproc_mnt M c d e)))"

lemma openclnt_clock:
  assumes "clock_runs W M" "pm_prot addr = IPPROTO_UDP \<or> pm_prot addr = IPPROTO_TCP"
    and "hsi_mnt_openclnt (rpc W) addr m n s = ((c, a), s')"
  shows "clock M (env s) < clock M (env s') \<and> pm_prot a = pm_prot addr"
proof -
  let ?a = "addr\<lparr>sin_port := ucast (pm_port addr)\<rparr>"
  let ?r = "if pm_prot addr = IPPROTO_UDP then clntudp_bufcreate (rpc W) ?a m n (env s) else clnttcp_create (rpc W) ?a m n (env s)"
  obtain c1 e1 where r: "?r = (c1, e1)" by fastforce
  obtain ok e2 where k: "authunix_create_default (rpc W) e1 = (ok, e2)" by fastforce
  have "clock M (env s) < clock M (snd ?r)" using assms(1) by (simp add: clock_runs_def)
  moreover have "clock M e1 \<le> clock M (snd (authunix_create_default (rpc W) e1))" using assms(1) by (simp add: clock_runs_def)
  ultimately have "clock M (env s) < clock M e1" "clock M e1 \<le> clock M e2" unfolding r k by simp_all
  moreover have "env s' = e1 \<or> env s' = e2" "pm_prot a = pm_prot addr"
    using assms(2,3) r k by (auto simp: hsi_mnt_openclnt_def clnt_alloc_def Let_def split: if_splits)
  ultimately show ?thesis by auto
qed

lemma mount_attempt:
  assumes "clock_runs W M" "pm_prot addr = IPPROTO_UDP \<or> pm_prot addr = IPPROTO_TCP"
  shows "\<exists>ret a res s'. hsi_nfs3_mount W M addr dir s = Some ((ret, a, res), s') \<and> clock M (env s) < clock M (env s') \<and>
    pm_prot a = pm_prot addr"
proof -
  obtain c a s1 where o: "hsi_mnt_openclnt (rpc W) addr MNT_SENDBUFSIZE MNT_RECVBUFSIZE s = ((c, a), s1)" by (metis surj_pair)
  obtain ret tres e where m: "mountproc_mnt M c dir (env s1) = ((ret, tres), e)" by (metis surj_pair)
  have "clock M (env s1) \<le> clock M (snd (mountproc_mnt M c dir (env s1)))" using assms(1) by (simp add: clock_runs_def)
  then have "clock M (env s1) \<le> clock M e" unfolding m by simp
  then show ?thesis
    using openclnt_clock [OF assms o] openclnt_ok [OF o] o m
    by (auto simp: hsi_nfs3_mount_def hsi_mnt_closeclnt_def clnt_freeres_def clnt_live_def Let_def)
qed


text \<open>A mount server that cannot be reached; each attempt to connect makes the environment, the clock, one longer.\<close>

definition deaf_world :: "u8 list world" where
  "deaf_world = sample_world\<lparr>rpc := sample_lib\<lparr>clntudp_bufcreate := \<lambda>a m n e. (0, 0 # e), clnttcp_create := \<lambda>a m n e. (0, 0 # e)\<rparr>\<rparr>"

definition deaf_mount :: "u8 list mountlib" where
  "deaf_mount = \<lparr>mountproc_mnt = (\<lambda>c d e. ((5, \<lparr>fhs_status = 0, mr_fhandle = []\<rparr>), e)), mountproc_umnt = (\<lambda>c d e. (5, e)),
     resolve = (\<lambda>h. Inr 0x7f000001), clock = (\<lambda>e. int (length e)), createerr = (\<lambda>e. RPC_TIMEDOUT), sys_errno = (\<lambda>e. 0)\<rparr>"



definition refused_mount :: "u8 list mountlib" where
  "refused_mount = \<lparr>mountproc_mnt = (\<lambda>c d e. ((0, \<lparr>fhs_status = 13, mr_fhandle = []\<rparr>), e)), mountproc_umnt = (\<lambda>c d e. (0, e)),
     resolve = (\<lambda>h. Inr 0x7f000001), clock = (\<lambda>e. 0), createerr = (\<lambda>e. 0), sys_errno = (\<lambda>e. 0)\<rparr>"


end
